theory Spec2Isabelle
  imports Complex_Main
begin
section \<open>Values, errors and the outside world\<close>

text \<open>
  The TypeScript sources handle data of type \<open>any\<close> (parsed JSON); \<open>jsval\<close> is that
  universe of values. Objects keep their properties in insertion order. An array that
  has been assigned a property besides its elements (\<^verbatim>\<open>day.dining = ...\<close> where the
  day is an array) is a \<open>JArrayProps\<close>: it is an array in every respect, and a read of
  that property gives the value back.
\<close>

datatype jsval =
    JUndefined
  | JNull
  | JBool bool
  | JNumber real
  | JString string
  | JArray "jsval list"
  | JArrayProps "jsval list" "(string \<times> jsval) list"
  | JObject "(string \<times> jsval) list"

text \<open>
  Everything the code can throw. \<open>TimeoutError operation timeout\<close> is the class of
  \<^verbatim>\<open>timeout.ts\<close>; \<open>AbortError\<close> is what the platform's \<^verbatim>\<open>fetch\<close> rejects with when
  its signal is aborted; \<open>TypeError\<close> is the platform's error for a failed request and
  for a property read on \<^verbatim>\<open>null\<close> or \<^verbatim>\<open>undefined\<close>; \<open>Thrown_undefined\<close> is
  \<^verbatim>\<open>throw undefined\<close>.
\<close>

datatype error =
    Error string
  | TimeoutError string nat
  | AbortError
  | TypeError string
  | SyntaxError string
  | Thrown_undefined

fun error_name :: "error \<Rightarrow> string" where
  "error_name (Error m) = ''Error''"
| "error_name (TimeoutError operation timeout) = ''TimeoutError''"
| "error_name AbortError = ''AbortError''"
| "error_name (TypeError m) = ''TypeError''"
| "error_name (SyntaxError m) = ''SyntaxError''"
| "error_name Thrown_undefined = []"

fun instanceof_Error :: "error \<Rightarrow> bool" where
  "instanceof_Error Thrown_undefined = False"
| "instanceof_Error e = True"

fun instanceof_TimeoutError :: "error \<Rightarrow> bool" where
  "instanceof_TimeoutError (TimeoutError operation timeout) = True"
| "instanceof_TimeoutError e = False"

text \<open>
  A request to an upstream, by the parameters its URL and body are built from, and the
  upstream's answer: after \<open>latency\<close> milliseconds the request either fails (a network
  failure, with the platform's message) or brings a response.
\<close>

datatype request =
    PexelsSearch string nat string string
  | PerplexityChat string
  | PlacesTextSearch string string "string option"
  | PlacesDetails jsval

record response =
  status :: nat
  body :: "jsval option"

definition ok :: "response \<Rightarrow> bool" where
  "ok r = (200 \<le> status r \<and> status r \<le> 299)"

record reply =
  latency :: nat
  settles :: "string + response"

datatype event =
    Attempt string nat nat
  | Sleep nat
  | Fetch request
  | SetTimeout nat
  | ClearTimeout
  | Abort

datatype breaker_state = CLOSED | OPEN | HALF_OPEN

record CircuitBreaker =
  failures :: nat
  lastFailureTime :: nat
  state :: breaker_state
  failureThreshold :: nat
  resetTimeout :: nat
  name :: string

text \<open>
  The mutable state of one process: the clock (\<^verbatim>\<open>Date.now()\<close>, milliseconds), the number
  of requests sent, the effects observed so far in order, the number of random draws,
  and the two module-level breakers of \<^verbatim>\<open>circuitBreakers\<close>.
\<close>

record world =
  now :: nat
  sent :: nat
  trace :: "event list"
  drawn :: nat
  perplexity :: CircuitBreaker
  pexels :: CircuitBreaker

text \<open>
  What a run does not change: the process environment, how the upstreams answer the
  \<open>n\<close>-th request, the draws of \<^verbatim>\<open>Math.random\<close>, and four functions of the
  platform that are taken as given: the conversion of strings, arrays and objects to
  numbers (\<open>coerce\<close>), the conversion of a value to the string a template literal
  shows (\<open>display\<close>), and of the calendar the ISO date \<open>k\<close> days after a clock
  time (\<open>iso_date\<close>), whether \<^verbatim>\<open>new Date(v)\<close> lies more than a day before a clock
  time (\<open>past_date\<close>) and the day of the week of a clock time (\<open>weekday\<close>).
\<close>

record env =
  PEXELS_API_KEY :: "string option"
  PERPLEXITY_API_KEY :: "string option"
  GOOGLE_PLACES_API_KEY :: "string option"
  network :: "nat \<Rightarrow> request \<Rightarrow> reply"
  random :: "nat \<Rightarrow> nat"
  coerce :: "jsval \<Rightarrow> real option"
  display :: "jsval \<Rightarrow> string"
  iso_date :: "nat \<Rightarrow> int \<Rightarrow> string"
  past_date :: "nat \<Rightarrow> jsval \<Rightarrow> bool"
  weekday :: "nat \<Rightarrow> nat"

type_synonym 'a promise = "world \<Rightarrow> (error + 'a) \<times> world"

section \<open>timeout.ts\<close>

definition TIMEOUTS_GLOBAL :: nat where "TIMEOUTS_GLOBAL = 30000"
definition TIMEOUTS_AI :: nat where "TIMEOUTS_AI = 15000"
definition TIMEOUTS_IMAGES :: nat where "TIMEOUTS_IMAGES = 20000"
definition TIMEOUTS_PEXELS :: nat where "TIMEOUTS_PEXELS = 8000"
definition TIMEOUTS_FALLBACK :: nat where "TIMEOUTS_FALLBACK = 5000"

definition emit :: "event \<Rightarrow> world \<Rightarrow> world" where
  "emit e w = w\<lparr>trace := trace w @ [e]\<rparr>"

text \<open>
  The platform's timer, \<^verbatim>\<open>setTimeout(callback, delay)\<close>: the delay is kept as a 32-bit
  integer of milliseconds, and a delay below 1 or above 2147483647 is set to 1.
  \<open>timer_delay\<close> is the time after which the timer fires. \<open>sleep\<close> is
  \<^verbatim>\<open>await new Promise(resolve => setTimeout(resolve, delay))\<close>; the event records the
  delay that was asked for.
\<close>

definition timer_delay :: "nat \<Rightarrow> nat" where
  "timer_delay delay = (if delay < 1 \<or> 2147483647 < delay then 1 else delay)"

definition sleep :: "nat \<Rightarrow> world \<Rightarrow> world" where
  "sleep delay w = (emit (Sleep delay) w)\<lparr>now := now w + timer_delay delay\<rparr>"

text \<open>
  The platform's \<^verbatim>\<open>fetch(url, {signal})\<close> where the signal's controller is aborted by a
  timer set with the delay \<open>timeout\<close> just before the call: the request is sent; when the
  upstream settles before the timer fires, the promise settles as the upstream does (a
  network failure is a \<open>TypeError\<close>); otherwise the timer's callback runs
  \<^verbatim>\<open>controller.abort()\<close> and the promise rejects with \<open>AbortError\<close>.
\<close>

definition fetch_signal :: "env \<Rightarrow> request \<Rightarrow> nat \<Rightarrow> response promise" where
  "fetch_signal E url timeout w =
     (let r = network E (sent w) url;
          w1 = (emit (Fetch url) w)\<lparr>sent := sent w + 1\<rparr>
      in if latency r < timer_delay timeout
         then (case settles r of
                 Inr resp \<Rightarrow> (Inr resp, w1\<lparr>now := now w + latency r\<rparr>)
               | Inl m \<Rightarrow> (Inl (TypeError m), w1\<lparr>now := now w + latency r\<rparr>))
         else (Inl AbortError, (emit Abort w1)\<lparr>now := now w + timer_delay timeout\<rparr>))"

text \<open>The platform's \<^verbatim>\<open>fetch(url)\<close> without a signal.\<close>

definition fetch :: "env \<Rightarrow> request \<Rightarrow> response promise" where
  "fetch E url w =
     (let r = network E (sent w) url;
          w1 = (emit (Fetch url) w)\<lparr>sent := sent w + 1, now := now w + latency r\<rparr>
      in case settles r of
           Inr resp \<Rightarrow> (Inr resp, w1)
         | Inl m \<Rightarrow> (Inl (TypeError m), w1))"

text \<open>
  \<^verbatim>\<open>fetchWithTimeout(url, {timeout, operation, ...})\<close>; the two options default to
  \<^verbatim>\<open>TIMEOUTS.GLOBAL\<close> and \<^verbatim>\<open>'fetch'\<close>.
\<close>

definition fetchWithTimeout ::
  "env \<Rightarrow> request \<Rightarrow> nat option \<Rightarrow> string option \<Rightarrow> response promise" where
  "fetchWithTimeout E url timeout_opt operation_opt w =
     (let timeout = (case timeout_opt of None \<Rightarrow> TIMEOUTS_GLOBAL | Some t \<Rightarrow> t);
          operation = (case operation_opt of None \<Rightarrow> ''fetch'' | Some n \<Rightarrow> n)
      in case fetch_signal E url timeout (emit (SetTimeout timeout) w) of
           (Inr response, w1) \<Rightarrow> (Inr response, emit ClearTimeout w1)
         | (Inl error, w1) \<Rightarrow>
             (if instanceof_Error error \<and> error_name error = ''AbortError''
              then (Inl (TimeoutError operation timeout), emit ClearTimeout w1)
              else (Inl error, emit ClearTimeout w1)))"

text \<open>
  \<^verbatim>\<open>retryWithBackoff\<close>: the \<^verbatim>\<open>for\<close> loop from \<open>attempt\<close> on, with \<open>lastError\<close> as
  assigned so far. Each attempt opens a performance monitor, whose first log line is the
  event \<open>Attempt\<close>.
\<close>

function retry_loop ::
  "'a promise \<Rightarrow> nat \<Rightarrow> nat \<Rightarrow> string \<Rightarrow> nat \<Rightarrow> error option \<Rightarrow> 'a promise" where
  "retry_loop operation maxAttempts baseDelay operationName attempt lastError w =
     (if attempt \<le> maxAttempts
      then (case operation (emit (Attempt operationName attempt maxAttempts) w) of
              (Inr result, w1) \<Rightarrow> (Inr result, w1)
            | (Inl error, w1) \<Rightarrow>
                (if attempt = maxAttempts then (Inl error, w1)
                 else retry_loop operation maxAttempts baseDelay operationName (attempt + 1)
                        (Some error) (sleep (baseDelay * 2 ^ (attempt - 1)) w1)))
      else (case lastError of
              None \<Rightarrow> (Inl Thrown_undefined, w)
            | Some error \<Rightarrow> (Inl error, w)))"
  by pat_completeness auto
termination
  by (relation "measure (\<lambda>(operation, maxAttempts, baseDelay, operationName, attempt, lastError, w).
        maxAttempts + 1 - attempt)") auto

declare retry_loop.simps [simp del]

definition retryWithBackoff :: "'a promise \<Rightarrow> nat \<Rightarrow> nat \<Rightarrow> string \<Rightarrow> 'a promise" where
  "retryWithBackoff operation maxAttempts baseDelay operationName =
     retry_loop operation maxAttempts baseDelay operationName 1 None"

text \<open>\<^verbatim>\<open>new CircuitBreaker(failureThreshold, resetTimeout, name)\<close>.\<close>

definition new_CircuitBreaker :: "nat \<Rightarrow> nat \<Rightarrow> string \<Rightarrow> CircuitBreaker" where
  "new_CircuitBreaker threshold reset nm =
     \<lparr>failures = 0, lastFailureTime = 0, state = CLOSED,
      failureThreshold = threshold, resetTimeout = reset, name = nm\<rparr>"

definition onSuccess :: "CircuitBreaker \<Rightarrow> CircuitBreaker" where
  "onSuccess cb =
     (let cb1 = cb\<lparr>failures := 0\<rparr>
      in if state cb1 = HALF_OPEN then cb1\<lparr>state := CLOSED\<rparr> else cb1)"

text \<open>\<open>onFailure t\<close> is the hook run when \<^verbatim>\<open>Date.now()\<close> is \<open>t\<close>.\<close>

definition onFailure :: "nat \<Rightarrow> CircuitBreaker \<Rightarrow> CircuitBreaker" where
  "onFailure t cb =
     (let cb1 = cb\<lparr>failures := failures cb + 1, lastFailureTime := t\<rparr>
      in if failures cb1 \<ge> failureThreshold cb1 then cb1\<lparr>state := OPEN\<rparr> else cb1)"

text \<open>
  The opening block of \<^verbatim>\<open>execute\<close>, run when \<^verbatim>\<open>Date.now()\<close> is \<open>t\<close>: either the
  call is rejected, or it is let through with the breaker as this block leaves it.
\<close>

definition admit :: "nat \<Rightarrow> CircuitBreaker \<Rightarrow> error + CircuitBreaker" where
  "admit t cb =
     (if state cb = OPEN
      then (if int t - int (lastFailureTime cb) > int (resetTimeout cb)
            then Inr (cb\<lparr>state := HALF_OPEN\<rparr>)
            else Inl (Error (''Circuit breaker '' @ name cb @ '' is OPEN - too many failures'')))
      else Inr cb)"

text \<open>
  \<^verbatim>\<open>execute(operation)\<close> on the breaker \<open>cb\<close>. The breaker's fields are private, so
  the operation runs on the world alone and the breaker is returned beside it.
\<close>

definition execute ::
  "CircuitBreaker \<Rightarrow> 'a promise \<Rightarrow> world \<Rightarrow> (error + 'a) \<times> CircuitBreaker \<times> world" where
  "execute cb operation w =
     (case admit (now w) cb of
        Inl error \<Rightarrow> (Inl error, cb, w)
      | Inr cb1 \<Rightarrow>
          (case operation w of
             (Inr result, w1) \<Rightarrow> (Inr result, onSuccess cb1, w1)
           | (Inl error, w1) \<Rightarrow> (Inl error, onFailure (now w1) cb1, w1)))"

text \<open>The module-level breakers and \<^verbatim>\<open>execute\<close> on each of them.\<close>

definition circuitBreakers_perplexity :: CircuitBreaker where
  "circuitBreakers_perplexity = new_CircuitBreaker 3 60000 ''Perplexity-AI''"

definition circuitBreakers_pexels :: CircuitBreaker where
  "circuitBreakers_pexels = new_CircuitBreaker 5 30000 ''Pexels-API''"

definition perplexity_execute :: "'a promise \<Rightarrow> 'a promise" where
  "perplexity_execute operation w =
     (case execute (perplexity w) operation w of
        (r, cb, w1) \<Rightarrow> (r, w1\<lparr>perplexity := cb\<rparr>))"

definition pexels_execute :: "'a promise \<Rightarrow> 'a promise" where
  "pexels_execute operation w =
     (case execute (pexels w) operation w of
        (r, cb, w1) \<Rightarrow> (r, w1\<lparr>pexels := cb\<rparr>))"

text \<open>The world of a process that has just started, at clock \<open>t\<close>.\<close>

definition boot :: "nat \<Rightarrow> world" where
  "boot t = \<lparr>now = t, sent = 0, trace = [], drawn = 0,
            perplexity = circuitBreakers_perplexity, pexels = circuitBreakers_pexels\<rparr>"

section \<open>Promises and JavaScript values\<close>

text \<open>
  Sequencing of asynchronous steps: \<open>andThen\<close> is \<^verbatim>\<open>await\<close> followed by the rest of the
  function, \<open>catch\<close> is a \<^verbatim>\<open>try\<close> block with its handler, \<open>lift\<close> is a synchronous
  step that may throw.
\<close>

definition resolve :: "'a \<Rightarrow> 'a promise" where
  "resolve x w = (Inr x, w)"

definition reject :: "error \<Rightarrow> 'a promise" where
  "reject e w = (Inl e, w)"

definition lift :: "error + 'a \<Rightarrow> 'a promise" where
  "lift r w = (r, w)"

definition andThen :: "'a promise \<Rightarrow> ('a \<Rightarrow> 'b promise) \<Rightarrow> 'b promise" where
  "andThen m f w = (case m w of (Inl e, w1) \<Rightarrow> (Inl e, w1) | (Inr x, w1) \<Rightarrow> f x w1)"

definition catch :: "'a promise \<Rightarrow> (error \<Rightarrow> 'a promise) \<Rightarrow> 'a promise" where
  "catch m h w = (case m w of (Inl e, w1) \<Rightarrow> h e w1 | (Inr x, w1) \<Rightarrow> (Inr x, w1))"

text \<open>A synchronous step after another; the first error ends the block.\<close>

definition thenDo :: "error + 'a \<Rightarrow> ('a \<Rightarrow> error + 'b) \<Rightarrow> error + 'b" where
  "thenDo r f = (case r of Inl e \<Rightarrow> Inl e | Inr x \<Rightarrow> f x)"

text \<open>Truthiness, as \<^verbatim>\<open>if (x)\<close>, \<^verbatim>\<open>!x\<close>, \<^verbatim>\<open>x && y\<close> and \<^verbatim>\<open>x || y\<close> test it.\<close>

fun truthy :: "jsval \<Rightarrow> bool" where
  "truthy JUndefined = False"
| "truthy JNull = False"
| "truthy (JBool b) = b"
| "truthy (JNumber n) = (n \<noteq> 0)"
| "truthy (JString s) = (s \<noteq> [])"
| "truthy (JArray xs) = True"
| "truthy (JArrayProps xs ps) = True"
| "truthy (JObject kvs) = True"

text \<open>
  Strings are kept as the bytes of their UTF-8 form. The \<^verbatim>\<open>length\<close> of a string is
  its number of UTF-16 code units: one for each character of one, two or three bytes,
  two for each character of four bytes.
\<close>

fun utf16_length :: "string \<Rightarrow> nat" where
  "utf16_length [] = 0"
| "utf16_length (c # s) =
     (if (of_char c :: nat) < 128 then 1
      else if (of_char c :: nat) < 192 then 0
      else if (of_char c :: nat) < 240 then 1
      else 2) + utf16_length s"

text \<open>
  \<^verbatim>\<open>x.p\<close> for a property name \<open>p\<close> that is not inherited from a prototype (every name
  read below is such a name, apart from \<^verbatim>\<open>length\<close>, given here): a \<open>TypeError\<close> on
  \<^verbatim>\<open>null\<close> and \<^verbatim>\<open>undefined\<close>, the own property of an object, and \<^verbatim>\<open>undefined\<close>
  where there is none.
\<close>

fun get :: "jsval \<Rightarrow> string \<Rightarrow> error + jsval" where
  "get JUndefined p = Inl (TypeError ''Cannot read properties of undefined'')"
| "get JNull p = Inl (TypeError ''Cannot read properties of null'')"
| "get (JObject kvs) p = (case map_of kvs p of None \<Rightarrow> Inr JUndefined | Some v \<Rightarrow> Inr v)"
| "get (JArray xs) p = (if p = ''length'' then Inr (JNumber (real (length xs))) else Inr JUndefined)"
| "get (JArrayProps xs ps) p =
     (if p = ''length'' then Inr (JNumber (real (length xs)))
      else (case map_of ps p of None \<Rightarrow> Inr JUndefined | Some v \<Rightarrow> Inr v))"
| "get (JString s) p =
     (if p = ''length'' then Inr (JNumber (real (utf16_length s))) else Inr JUndefined)"
| "get v p = Inr JUndefined"

text \<open>\<^verbatim>\<open>x?.p\<close>.\<close>

fun get_opt :: "jsval \<Rightarrow> string \<Rightarrow> jsval" where
  "get_opt (JObject kvs) p = (case map_of kvs p of None \<Rightarrow> JUndefined | Some v \<Rightarrow> v)"
| "get_opt (JArray xs) p = (if p = ''length'' then JNumber (real (length xs)) else JUndefined)"
| "get_opt (JArrayProps xs ps) p =
     (if p = ''length'' then JNumber (real (length xs))
      else (case map_of ps p of None \<Rightarrow> JUndefined | Some v \<Rightarrow> v))"
| "get_opt (JString s) p = (if p = ''length'' then JNumber (real (utf16_length s)) else JUndefined)"
| "get_opt v p = JUndefined"

text \<open>
  \<^verbatim>\<open>x.p = v\<close> in a module (strict mode): a \<open>TypeError\<close> on \<^verbatim>\<open>null\<close>,
  \<^verbatim>\<open>undefined\<close> and on a primitive value; on an object or an array the property is
  replaced in place or added last. No name assigned below is \<^verbatim>\<open>length\<close> or an index.
\<close>

fun put_field :: "(string \<times> jsval) list \<Rightarrow> string \<Rightarrow> jsval \<Rightarrow> (string \<times> jsval) list" where
  "put_field [] p v = [(p, v)]"
| "put_field ((k, x) # kvs) p v = (if k = p then (k, v) # kvs else (k, x) # put_field kvs p v)"

fun put :: "jsval \<Rightarrow> string \<Rightarrow> jsval \<Rightarrow> error + jsval" where
  "put (JObject kvs) p v = Inr (JObject (put_field kvs p v))"
| "put (JArray xs) p v = Inr (JArrayProps xs [(p, v)])"
| "put (JArrayProps xs ps) p v = Inr (JArrayProps xs (put_field ps p v))"
| "put JUndefined p v = Inl (TypeError ''Cannot set properties of undefined'')"
| "put JNull p v = Inl (TypeError ''Cannot set properties of null'')"
| "put x p v = Inl (TypeError ''Cannot create property'')"

text \<open>\<^verbatim>\<open>x[0]\<close>.\<close>

fun first_element :: "jsval \<Rightarrow> error + jsval" where
  "first_element JUndefined = Inl (TypeError ''Cannot read properties of undefined'')"
| "first_element JNull = Inl (TypeError ''Cannot read properties of null'')"
| "first_element (JArray xs) = (case xs of [] \<Rightarrow> Inr JUndefined | x # _ \<Rightarrow> Inr x)"
| "first_element (JArrayProps xs ps) = (case xs of [] \<Rightarrow> Inr JUndefined | x # _ \<Rightarrow> Inr x)"
| "first_element (JString s) = (case s of [] \<Rightarrow> Inr JUndefined | c # _ \<Rightarrow> Inr (JString [c]))"
| "first_element (JObject kvs) = (case map_of kvs ''0'' of None \<Rightarrow> Inr JUndefined | Some v \<Rightarrow> Inr v)"
| "first_element v = Inr JUndefined"

text \<open>
  The values a \<^verbatim>\<open>for ... of\<close> loop or \<^verbatim>\<open>forEach\<close>-free iteration visits: the elements
  of an array, the characters of a string; anything else is not iterable.
\<close>

fun iterate :: "jsval \<Rightarrow> error + jsval list" where
  "iterate (JArray xs) = Inr xs"
| "iterate (JArrayProps xs ps) = Inr xs"
| "iterate (JString s) = Inr (map (\<lambda>c. JString [c]) s)"
| "iterate v = Inl (TypeError ''is not iterable'')"

text \<open>
  \<^verbatim>\<open>x.slice(0, 5)\<close> followed by iteration: arrays and strings have the method, on every
  other value the call is a \<open>TypeError\<close>.
\<close>

fun slice_0_5 :: "jsval \<Rightarrow> error + jsval list" where
  "slice_0_5 (JArray xs) = Inr (take 5 xs)"
| "slice_0_5 (JArrayProps xs ps) = Inr (take 5 xs)"
| "slice_0_5 (JString s) = Inr (map (\<lambda>c. JString [c]) (take 5 s))"
| "slice_0_5 JUndefined = Inl (TypeError ''Cannot read properties of undefined'')"
| "slice_0_5 JNull = Inl (TypeError ''Cannot read properties of null'')"
| "slice_0_5 v = Inl (TypeError ''slice is not a function'')"

text \<open>
  The number a value is converted to in a comparison with a number (\<open>None\<close> is
  \<^verbatim>\<open>NaN\<close>). The conversion of strings, arrays and objects is the platform's and is taken
  as the parameter \<open>coerce\<close>.
\<close>

fun ToNumber :: "(jsval \<Rightarrow> real option) \<Rightarrow> jsval \<Rightarrow> real option" where
  "ToNumber conv JUndefined = None"
| "ToNumber conv JNull = Some 0"
| "ToNumber conv (JBool b) = Some (if b then 1 else 0)"
| "ToNumber conv (JNumber n) = Some n"
| "ToNumber conv v = conv v"

definition js_ge :: "(jsval \<Rightarrow> real option) \<Rightarrow> jsval \<Rightarrow> real \<Rightarrow> bool" where
  "js_ge conv v n = (case ToNumber conv v of None \<Rightarrow> False | Some x \<Rightarrow> n \<le> x)"

definition js_gt :: "(jsval \<Rightarrow> real option) \<Rightarrow> jsval \<Rightarrow> real \<Rightarrow> bool" where
  "js_gt conv v n = (case ToNumber conv v of None \<Rightarrow> False | Some x \<Rightarrow> n < x)"

definition js_lt :: "(jsval \<Rightarrow> real option) \<Rightarrow> jsval \<Rightarrow> real \<Rightarrow> bool" where
  "js_lt conv v n = (case ToNumber conv v of None \<Rightarrow> False | Some x \<Rightarrow> x < n)"

text \<open>
  The character classes of regular expressions: \<^verbatim>\<open>\s\<close> (its ASCII members),
  \<^verbatim>\<open>\d\<close> and \<^verbatim>\<open>\w\<close>.
\<close>

definition is_space :: "char \<Rightarrow> bool" where
  "is_space c = (c \<in> set [CHR 0x20, CHR 0x09, CHR 0x0A, CHR 0x0B, CHR 0x0C, CHR 0x0D])"

definition is_digit :: "char \<Rightarrow> bool" where
  "is_digit c = ((48::nat) \<le> of_char c \<and> of_char c \<le> (57::nat))"

definition is_word :: "char \<Rightarrow> bool" where
  "is_word c = (is_digit c \<or> ((65::nat) \<le> of_char c \<and> of_char c \<le> (90::nat)) \<or>
                ((97::nat) \<le> of_char c \<and> of_char c \<le> (122::nat)) \<or> c = CHR ''_'')"

text \<open>
  Strings: \<^verbatim>\<open>toLowerCase\<close> and \<^verbatim>\<open>includes\<close>. \<^verbatim>\<open>toLowerCase\<close> maps the letters A to
  Z, and the two characters outside ASCII whose lower case has an ASCII letter: the
  Kelvin sign U+212A, which becomes \<^verbatim>\<open>k\<close>, and U+0130, which becomes \<^verbatim>\<open>i\<close> followed
  by U+0307. Every other character outside ASCII has a lower case outside ASCII and is
  left as it is: the lower-cased strings are only compared with and searched for ASCII
  texts.
\<close>

function toLowerCase :: "string \<Rightarrow> string" where
  "toLowerCase [] = []"
| "toLowerCase (c # s) =
     (if c = CHR 0xE2 \<and> take 2 s = [CHR 0x84, CHR 0xAA]
      then CHR ''k'' # toLowerCase (drop 2 s)
      else if c = CHR 0xC4 \<and> take 1 s = [CHR 0xB0]
      then [CHR ''i'', CHR 0xCC, CHR 0x87] @ toLowerCase (drop 1 s)
      else (if (65::nat) \<le> of_char c \<and> of_char c \<le> (90::nat)
            then char_of (of_char c + (32::nat)) else c) # toLowerCase s)"
  by pat_completeness auto
termination
  by (relation "measure length") auto

declare toLowerCase.simps [simp del]

fun starts_with :: "string \<Rightarrow> string \<Rightarrow> bool" where
  "starts_with s [] = True"
| "starts_with [] (p # ps) = False"
| "starts_with (c # cs) (p # ps) = (c = p \<and> starts_with cs ps)"

fun includes_str :: "string \<Rightarrow> string \<Rightarrow> bool" where
  "includes_str [] sub = (sub = [])"
| "includes_str (c # cs) sub = (starts_with (c # cs) sub \<or> includes_str cs sub)"

text \<open>An environment variable is configured when it is set and not empty.\<close>

fun configured :: "string option \<Rightarrow> bool" where
  "configured None = False"
| "configured (Some k) = (k \<noteq> [])"

text \<open>\<^verbatim>\<open>response.json()\<close>: rejects when the body is not JSON.\<close>

definition response_json :: "response \<Rightarrow> jsval promise" where
  "response_json r =
     (case body r of None \<Rightarrow> reject (SyntaxError ''Unexpected token'') | Some v \<Rightarrow> resolve v)"

text \<open>\<^verbatim>\<open>Math.floor(Math.random() * n)\<close> for \<open>n > 0\<close>: the next draw, below \<open>n\<close>.\<close>

definition random_index :: "env \<Rightarrow> nat \<Rightarrow> nat promise" where
  "random_index E n w = (Inr (random E (drawn w) mod n), w\<lparr>drawn := drawn w + 1\<rparr>)"

text \<open>Numbers as template literals show them, and the message of an error.\<close>

function show_nat :: "nat \<Rightarrow> string" where
  "show_nat n =
     (if n < 10 then [char_of (48 + n)] else show_nat (n div 10) @ [char_of (48 + n mod 10)])"
  by pat_completeness auto
termination
  by (relation "measure id") auto

declare show_nat.simps [simp del]

fun error_message :: "error \<Rightarrow> string" where
  "error_message (Error m) = m"
| "error_message (TimeoutError operation timeout) =
     ''Operation '' @ [CHR 0x27] @ operation @ [CHR 0x27] @ '' timed out after '' @
     show_nat timeout @ ''ms''"
| "error_message AbortError = ''This operation was aborted''"
| "error_message (TypeError m) = m"
| "error_message (SyntaxError m) = m"
| "error_message Thrown_undefined = []"

text \<open>Loops whose body may throw: the first error ends the loop.\<close>

fun map_result :: "('a \<Rightarrow> error + 'b) \<Rightarrow> 'a list \<Rightarrow> error + 'b list" where
  "map_result f [] = Inr []"
| "map_result f (x # xs) =
     (case f x of
        Inl e \<Rightarrow> Inl e
      | Inr y \<Rightarrow> (case map_result f xs of Inl e \<Rightarrow> Inl e | Inr ys \<Rightarrow> Inr (y # ys)))"

fun fold_result :: "('a \<Rightarrow> 'b \<Rightarrow> error + 'b) \<Rightarrow> 'a list \<Rightarrow> 'b \<Rightarrow> error + 'b" where
  "fold_result f [] acc = Inr acc"
| "fold_result f (x # xs) acc =
     (case f x acc of Inl e \<Rightarrow> Inl e | Inr acc1 \<Rightarrow> fold_result f xs acc1)"

fun map_promise :: "('a \<Rightarrow> 'b promise) \<Rightarrow> 'a list \<Rightarrow> ('b list) promise" where
  "map_promise f [] = resolve []"
| "map_promise f (x # xs) =
     andThen (f x) (\<lambda>y. andThen (map_promise f xs) (\<lambda>ys. resolve (y # ys)))"

text \<open>
  \<^verbatim>\<open>a || b\<close>; the elements \<^verbatim>\<open>x?.forEach\<close> visits (none when \<open>x\<close> is \<^verbatim>\<open>null\<close> or
  \<^verbatim>\<open>undefined\<close>, a \<open>TypeError\<close> when \<open>x\<close> has no such method); \<^verbatim>\<open>x.toLowerCase()\<close>
  and \<^verbatim>\<open>x.trim()\<close>, which only strings have; \<^verbatim>\<open>x.includes(text)\<close>, which strings
  and arrays have; the own properties \<^verbatim>\<open>{...x}\<close> copies; \<^verbatim>\<open>x[i]\<close>.
\<close>

definition js_or :: "jsval \<Rightarrow> jsval \<Rightarrow> jsval" where
  "js_or a b = (if truthy a then a else b)"

fun is_array :: "jsval \<Rightarrow> bool" where
  "is_array (JArray xs) = True"
| "is_array (JArrayProps xs ps) = True"
| "is_array v = False"

fun forEach_opt :: "jsval \<Rightarrow> error + jsval list" where
  "forEach_opt JUndefined = Inr []"
| "forEach_opt JNull = Inr []"
| "forEach_opt (JArray xs) = Inr xs"
| "forEach_opt (JArrayProps xs ps) = Inr xs"
| "forEach_opt v = Inl (TypeError ''forEach is not a function'')"

fun string_lower :: "jsval \<Rightarrow> error + string" where
  "string_lower (JString s) = Inr (toLowerCase s)"
| "string_lower JUndefined = Inl (TypeError ''Cannot read properties of undefined'')"
| "string_lower JNull = Inl (TypeError ''Cannot read properties of null'')"
| "string_lower v = Inl (TypeError ''toLowerCase is not a function'')"

definition trim :: "string \<Rightarrow> string" where
  "trim s = rev (dropWhile is_space (rev (dropWhile is_space s)))"

fun string_trim :: "jsval \<Rightarrow> error + string" where
  "string_trim (JString s) = Inr (trim s)"
| "string_trim JUndefined = Inl (TypeError ''Cannot read properties of undefined'')"
| "string_trim JNull = Inl (TypeError ''Cannot read properties of null'')"
| "string_trim v = Inl (TypeError ''trim is not a function'')"

fun js_includes :: "jsval \<Rightarrow> string \<Rightarrow> error + bool" where
  "js_includes (JString s) sub = Inr (includes_str s sub)"
| "js_includes (JArray xs) sub = Inr (JString sub \<in> set xs)"
| "js_includes (JArrayProps xs ps) sub = Inr (JString sub \<in> set xs)"
| "js_includes JUndefined sub = Inl (TypeError ''Cannot read properties of undefined'')"
| "js_includes JNull sub = Inl (TypeError ''Cannot read properties of null'')"
| "js_includes v sub = Inl (TypeError ''includes is not a function'')"

fun spread :: "jsval \<Rightarrow> (string \<times> jsval) list" where
  "spread (JObject kvs) = kvs"
| "spread (JArray xs) = map (\<lambda>i. (show_nat i, xs ! i)) [0 ..< length xs]"
| "spread (JArrayProps xs ps) = map (\<lambda>i. (show_nat i, xs ! i)) [0 ..< length xs] @ ps"
| "spread (JString s) = map (\<lambda>i. (show_nat i, JString [s ! i])) [0 ..< length s]"
| "spread v = []"

fun element_at :: "jsval \<Rightarrow> nat \<Rightarrow> jsval" where
  "element_at (JArray xs) i = (if i < length xs then xs ! i else JUndefined)"
| "element_at (JArrayProps xs ps) i = (if i < length xs then xs ! i else JUndefined)"
| "element_at (JString s) i = (if i < length s then JString [s ! i] else JUndefined)"
| "element_at (JObject kvs) i = (case map_of kvs (show_nat i) of None \<Rightarrow> JUndefined | Some v \<Rightarrow> v)"
| "element_at v i = JUndefined"

text \<open>
  The loops of the handler change the elements of an array in place. \<open>with_elements\<close>
  is an array after such a loop: the same array with the elements as the loop left them.
\<close>

fun with_elements :: "jsval \<Rightarrow> jsval list \<Rightarrow> jsval" where
  "with_elements (JArray xs) ys = JArray ys"
| "with_elements (JArrayProps xs ps) ys = JArrayProps ys ps"
| "with_elements v ys = v"

section \<open>pexels.ts\<close>

text \<open>The search query and page length \<^verbatim>\<open>fetchPexelsImage\<close> derives from the category.\<close>

definition search_parameters :: "string \<Rightarrow> string option \<Rightarrow> string \<times> nat" where
  "search_parameters query category =
     (if category = Some ''restaurant'' \<or> category = Some ''food''
      then (query @ '' restaurant food dining'', 15)
      else if category = Some ''attraction'' \<or> category = Some ''landmark''
      then (query @ '' landmark attraction tourist'', 10)
      else if category = Some ''city'' then (query @ '' city skyline urban'', 10)
      else if category = Some ''culture'' then (query @ '' culture traditional heritage'', 10)
      else (query, 10))"

text \<open>
  The loop over the first five photos: a photo is kept when
  \<^verbatim>\<open>photo.width >= 800 && photo.height >= 600\<close>; reading a property of a
  \<^verbatim>\<open>null\<close> photo throws.
\<close>

fun validImages_loop :: "(jsval \<Rightarrow> real option) \<Rightarrow> jsval list \<Rightarrow> error + jsval list" where
  "validImages_loop conv [] = Inr []"
| "validImages_loop conv (photo # rest) =
     (case get photo ''width'' of
        Inl e \<Rightarrow> Inl e
      | Inr width \<Rightarrow>
          (case (if js_ge conv width 800
                 then (case get photo ''height'' of
                         Inl e \<Rightarrow> Inl e
                       | Inr height \<Rightarrow> Inr (js_ge conv height 600))
                 else Inr False) of
             Inl e \<Rightarrow> Inl e
           | Inr valid \<Rightarrow>
               (case validImages_loop conv rest of
                  Inl e \<Rightarrow> Inl e
                | Inr validImages \<Rightarrow> Inr (if valid then photo # validImages else validImages))))"

text \<open>
  The part of the \<^verbatim>\<open>try\<close> block of \<^verbatim>\<open>fetchPexelsImage\<close> that follows the
  request: from the response to the image returned.
\<close>

definition select_image :: "env \<Rightarrow> response \<Rightarrow> jsval promise" where
  "select_image E response =
     (if \<not> ok response then resolve JNull
      else
        andThen (response_json response) (\<lambda>data.
        andThen (lift (get data ''photos'')) (\<lambda>photos.
        andThen (lift (get photos ''length'')) (\<lambda>len.
          if truthy photos \<and> js_gt (coerce E) len 0
          then
            andThen (lift (slice_0_5 photos)) (\<lambda>first5.
            andThen (lift (validImages_loop (coerce E) first5)) (\<lambda>validImages.
              if length validImages = 0 then lift (first_element photos)
              else
                andThen (random_index E (length validImages)) (\<lambda>randomIndex.
                  resolve (validImages ! randomIndex))))
          else resolve JNull))))"

text \<open>The body of the \<^verbatim>\<open>try\<close> block of \<^verbatim>\<open>fetchPexelsImage\<close>.\<close>

definition fetchPexelsImage_try :: "env \<Rightarrow> string \<Rightarrow> string option \<Rightarrow> string \<Rightarrow> jsval promise" where
  "fetchPexelsImage_try E query category imageSize =
     (if \<not> configured (PEXELS_API_KEY E) then resolve JNull
      else
        (case search_parameters query category of (searchQuery, perPage) \<Rightarrow>
         andThen
           (pexels_execute
              (fetchWithTimeout E (PexelsSearch searchQuery perPage ''landscape'' imageSize)
                 (Some TIMEOUTS_PEXELS) (Some ''pexels-search'')))
           (select_image E)))"

text \<open>\<^verbatim>\<open>fetchPexelsImage\<close>: the \<^verbatim>\<open>catch\<close> block logs the error and returns \<^verbatim>\<open>null\<close>.\<close>

definition fetchPexelsImage :: "env \<Rightarrow> string \<Rightarrow> string option \<Rightarrow> string \<Rightarrow> jsval promise" where
  "fetchPexelsImage E query category imageSize =
     catch (fetchPexelsImage_try E query category imageSize) (\<lambda>error. resolve JNull)"

text \<open>
  \<^verbatim>\<open>fetchMultiplePexelsImages\<close>. The source starts the requests of a batch together
  and awaits \<^verbatim>\<open>Promise.allSettled\<close>; here a batch is run item by item in its order.
  A rejected item counts as \<^verbatim>\<open>null\<close>.
\<close>

definition category_at :: "string list option \<Rightarrow> nat \<Rightarrow> string option" where
  "category_at categories i =
     (case categories of
        None \<Rightarrow> None
      | Some cs \<Rightarrow> (if i < length cs then Some (cs ! i) else None))"

fun fetch_batch :: "env \<Rightarrow> (string \<times> string option) list \<Rightarrow> string \<Rightarrow> world \<Rightarrow> jsval list \<times> world" where
  "fetch_batch E [] imageSize w = ([], w)"
| "fetch_batch E ((query, category) # rest) imageSize w =
     (case retryWithBackoff (fetchPexelsImage E query category imageSize) 2 500 (''pexels-'' @ query) w of
        (r, w1) \<Rightarrow>
          (case fetch_batch E rest imageSize w1 of
             (results, w2) \<Rightarrow> ((case r of Inr img \<Rightarrow> img | Inl reason \<Rightarrow> JNull) # results, w2)))"

function fetch_batches :: "env \<Rightarrow> (string \<times> string option) list \<Rightarrow> string \<Rightarrow> world \<Rightarrow> jsval list \<times> world" where
  "fetch_batches E items imageSize w =
     (if items = [] then ([], w)
      else
        (case fetch_batch E (take 3 items) imageSize w of
           (batchResults, w1) \<Rightarrow>
             (case fetch_batches E (drop 3 items) imageSize
                     (if drop 3 items \<noteq> [] then sleep 200 w1 else w1) of
                (results, w2) \<Rightarrow> (batchResults @ results, w2))))"
  by pat_completeness auto
termination
  by (relation "measure (\<lambda>(E, items, imageSize, w). length items)") auto

declare fetch_batches.simps [simp del]

definition fetchMultiplePexelsImages ::
  "env \<Rightarrow> string list \<Rightarrow> string list option \<Rightarrow> string \<Rightarrow> (jsval list) promise" where
  "fetchMultiplePexelsImages E queries categories imageSize w =
     (case fetch_batches E
             (map (\<lambda>i. (queries ! i, category_at categories i)) [0 ..< length queries]) imageSize w of
        (results, w1) \<Rightarrow> (Inr results, w1))"

text \<open>\<^verbatim>\<open>fetchDiverseLocationImages\<close>: the category and fallback queries of a location.\<close>

definition categorize :: "string \<Rightarrow> string \<times> string list" where
  "categorize locationName =
     (let lowerName = toLowerCase locationName in
      if includes_str lowerName ''restaurant'' \<or> includes_str lowerName ''cafe'' \<or>
         includes_str lowerName ''bar'' \<or> includes_str lowerName ''dining''
      then (''restaurant'', [locationName @ '' food'', ''restaurant interior'', ''fine dining''])
      else if includes_str lowerName ''museum'' \<or> includes_str lowerName ''gallery''
      then (''culture'', [locationName @ '' art'', ''museum interior'', ''art gallery''])
      else if includes_str lowerName ''park'' \<or> includes_str lowerName ''garden''
      then (''nature'', [locationName @ '' nature'', ''beautiful park'', ''garden landscape''])
      else if includes_str lowerName ''temple'' \<or> includes_str lowerName ''mosque'' \<or>
              includes_str lowerName ''church'' \<or> includes_str lowerName ''shrine''
      then (''culture'', [locationName @ '' architecture'', ''religious architecture'', ''temple interior''])
      else if includes_str lowerName ''palace'' \<or> includes_str lowerName ''fort'' \<or>
              includes_str lowerName ''castle''
      then (''attraction'', [locationName @ '' architecture'', ''historic palace'', ''ancient architecture''])
      else if includes_str lowerName ''market'' \<or> includes_str lowerName ''bazaar''
      then (''culture'', [locationName @ '' market'', ''traditional market'', ''local bazaar''])
      else if includes_str lowerName ''beach'' \<or> includes_str lowerName ''lake''
      then (''nature'', [locationName @ '' water'', ''beautiful beach'', ''scenic lake''])
      else (''attraction'', [locationName @ '' landmark'', locationName @ '' tourism'', ''city attraction'']))"

text \<open>
  The loop over the fallback queries, run on its own; \<open>image\<close> is the variable the
  loop assigns.
\<close>

fun try_fallbacks :: "env \<Rightarrow> string list \<Rightarrow> string \<Rightarrow> string \<Rightarrow> jsval \<Rightarrow> jsval promise" where
  "try_fallbacks E [] category imageSize img = resolve img"
| "try_fallbacks E (fallbackQuery # rest) category imageSize img =
     andThen (fetchPexelsImage E fallbackQuery (Some category) imageSize)
       (\<lambda>found. if truthy found then resolve found
                else try_fallbacks E rest category imageSize found)"

text \<open>
  The first \<^verbatim>\<open>map\<close> over the locations. The route passes names of type \<^verbatim>\<open>any\<close>;
  \<^verbatim>\<open>toLowerCase\<close> throws on a name that is not a string.
\<close>

definition categorize_location :: "jsval \<Rightarrow> error + string \<times> string \<times> string list" where
  "categorize_location locationName =
     thenDo (string_lower locationName) (\<lambda>lowerName.
       case locationName of
         JString s \<Rightarrow> Inr (s, categorize s)
       | _ \<Rightarrow> Inl (TypeError ''toLowerCase is not a function''))"

text \<open>
  The asynchronous function mapped over the locations: one location's image, as the
  function runs when no other call is under way.
\<close>

definition locate_image :: "env \<Rightarrow> string \<Rightarrow> string \<times> string \<times> string list \<Rightarrow> jsval promise" where
  "locate_image E imageSize categorized =
     (case categorized of (locationName, category, fallbackQueries) \<Rightarrow>
        andThen (fetchPexelsImage E locationName (Some category) imageSize)
          (\<lambda>img. if \<not> truthy img \<and> length fallbackQueries > 0
                   then try_fallbacks E fallbackQueries category imageSize img
                   else resolve img))"

text \<open>
  \<^verbatim>\<open>Promise.allSettled(imagePromises)\<close>. The source starts the functions of all
  locations together: each runs up to its first request, and from then on they take
  turns as their requests settle, all on the one breaker of the image service. A call
  of \<^verbatim>\<open>fetchPexelsImage\<close> is therefore taken in its two halves. The first half runs
  when the call is made: the check of the key, the opening block of \<^verbatim>\<open>execute\<close>, the
  timer and the request. It ends with \<^verbatim>\<open>null\<close> at once (no key, or the breaker
  rejects), or with a request in flight: the time at which it settles, and the answer
  if the upstream answers before the timer fires.
\<close>

record in_flight =
  settles_at :: nat
  answer :: "(string + response) option"

definition begin_fetchPexelsImage ::
  "env \<Rightarrow> string \<Rightarrow> string option \<Rightarrow> string \<Rightarrow> world \<Rightarrow> (jsval + in_flight) \<times> world" where
  "begin_fetchPexelsImage E query category imageSize w =
     (if \<not> configured (PEXELS_API_KEY E) then (Inl JNull, w)
      else
        (case search_parameters query category of (searchQuery, perPage) \<Rightarrow>
           (case admit (now w) (pexels w) of
              Inl error \<Rightarrow> (Inl JNull, w)
            | Inr cb1 \<Rightarrow>
                (let url = PexelsSearch searchQuery perPage ''landscape'' imageSize;
                     r = network E (sent w) url;
                     w1 = (emit (Fetch url) (emit (SetTimeout TIMEOUTS_PEXELS) (w\<lparr>pexels := cb1\<rparr>)))
                            \<lparr>sent := sent w + 1\<rparr>
                 in if latency r < timer_delay TIMEOUTS_PEXELS
                    then (Inr \<lparr>settles_at = now w + latency r, answer = Some (settles r)\<rparr>, w1)
                    else (Inr \<lparr>settles_at = now w + timer_delay TIMEOUTS_PEXELS, answer = None\<rparr>, w1)))))"

text \<open>
  The second half runs when the request settles, on the world as the other calls have
  left it by then, with the clock at that time: the timer is cleared, the hook of
  \<^verbatim>\<open>execute\<close> runs on the breaker as it then is, and the image is selected from the
  response; every error gives \<^verbatim>\<open>null\<close>.
\<close>

definition finish_fetchPexelsImage :: "env \<Rightarrow> in_flight \<Rightarrow> world \<Rightarrow> jsval \<times> world" where
  "finish_fetchPexelsImage E call w =
     (case answer call of
        None \<Rightarrow>
          (JNull, (emit ClearTimeout (emit Abort w))\<lparr>pexels := onFailure (now w) (pexels w)\<rparr>)
      | Some (Inl m) \<Rightarrow>
          (JNull, (emit ClearTimeout w)\<lparr>pexels := onFailure (now w) (pexels w)\<rparr>)
      | Some (Inr response) \<Rightarrow>
          (case select_image E response ((emit ClearTimeout w)\<lparr>pexels := onSuccess (pexels w)\<rparr>) of
             (Inr img, w1) \<Rightarrow> (img, w1)
           | (Inl error, w1) \<Rightarrow> (JNull, w1)))"

text \<open>
  How far the function of one location has got: it has returned its image, or it waits
  for a request, with the queries it has not tried yet.
\<close>

datatype progress = Settled jsval | Waiting in_flight "string list"

text \<open>
  The function of one location from the point where \<open>img\<close> is the image it has so far and
  \<open>queries\<close> are the queries left: it makes the call for the next query, and goes on
  to the query after it when that call returns nothing at once.
\<close>

fun next_query ::
  "env \<Rightarrow> string \<Rightarrow> string \<Rightarrow> string list \<Rightarrow> jsval \<Rightarrow> world \<Rightarrow> progress \<times> world" where
  "next_query E imageSize category [] img w = (Settled img, w)"
| "next_query E imageSize category (query # rest) img w =
     (case begin_fetchPexelsImage E query (Some category) imageSize w of
        (Inl found, w1) \<Rightarrow>
          (if truthy found then (Settled found, w1)
           else next_query E imageSize category rest found w1)
      | (Inr call, w1) \<Rightarrow> (Waiting call rest, w1))"

text \<open>The \<^verbatim>\<open>map\<close> that starts the functions, in the order of the locations.\<close>

fun start_all ::
  "env \<Rightarrow> string \<Rightarrow> (string \<times> string \<times> string list) list \<Rightarrow> world \<Rightarrow>
   (string \<times> string \<times> progress) list \<times> world" where
  "start_all E imageSize [] w = ([], w)"
| "start_all E imageSize ((locationName, category, fallbackQueries) # rest) w =
     (case next_query E imageSize category (locationName # fallbackQueries) JNull w of
        (p, w1) \<Rightarrow>
          (case start_all E imageSize rest w1 of
             (tasks, w2) \<Rightarrow> ((locationName, category, p) # tasks, w2)))"

text \<open>The times at which the requests in flight settle, and the earliest of them.\<close>

fun settle_times :: "(string \<times> string \<times> progress) list \<Rightarrow> nat list" where
  "settle_times [] = []"
| "settle_times ((locationName, category, Settled img) # rest) = settle_times rest"
| "settle_times ((locationName, category, Waiting call queries) # rest) =
     settles_at call # settle_times rest"

fun earliest :: "nat list \<Rightarrow> nat option" where
  "earliest [] = None"
| "earliest (t # ts) = (case earliest ts of None \<Rightarrow> Some t | Some t1 \<Rightarrow> Some (min t t1))"

text \<open>
  The request that settles at \<open>t\<close> settles (of several that settle at \<open>t\<close>, the one of
  the earliest location): its call finishes, and the function of its location goes on.
\<close>

fun settle_first ::
  "env \<Rightarrow> string \<Rightarrow> nat \<Rightarrow> (string \<times> string \<times> progress) list \<Rightarrow> world \<Rightarrow>
   (string \<times> string \<times> progress) list \<times> world" where
  "settle_first E imageSize t [] w = ([], w)"
| "settle_first E imageSize t ((locationName, category, Settled img) # rest) w =
     (case settle_first E imageSize t rest w of
        (tasks, w1) \<Rightarrow> ((locationName, category, Settled img) # tasks, w1))"
| "settle_first E imageSize t ((locationName, category, Waiting call queries) # rest) w =
     (if settles_at call = t
      then (case finish_fetchPexelsImage E call w of
              (img, w1) \<Rightarrow>
                (case (if truthy img then (Settled img, w1)
                       else next_query E imageSize category queries img w1) of
                   (p, w2) \<Rightarrow> ((locationName, category, p) # rest, w2)))
      else (case settle_first E imageSize t rest w of
              (tasks, w1) \<Rightarrow> ((locationName, category, Waiting call queries) # tasks, w1)))"

text \<open>
  The requests settle in the order of their times until none is in flight, or until the
  next one would settle at the deadline or later. What the calls still in flight at the
  deadline do after it is not followed.
\<close>

fun remaining :: "string \<times> string \<times> progress \<Rightarrow> nat" where
  "remaining (locationName, category, Settled img) = 0"
| "remaining (locationName, category, Waiting call queries) = Suc (length queries)"

function settle_until ::
  "env \<Rightarrow> string \<Rightarrow> nat \<Rightarrow> (string \<times> string \<times> progress) list \<Rightarrow> world \<Rightarrow>
   (string \<times> string \<times> progress) list \<times> world" where
  "settle_until E imageSize deadline tasks w =
     (case earliest (settle_times tasks) of
        None \<Rightarrow> (tasks, w)
      | Some t \<Rightarrow>
          (if deadline \<le> t then (tasks, w)
           else (case settle_first E imageSize t tasks (w\<lparr>now := t\<rparr>) of
                   (tasks1, w1) \<Rightarrow> settle_until E imageSize deadline tasks1 w1)))"
  by pat_completeness auto
termination
proof (relation "measure (\<lambda>(E, imageSize, deadline, tasks, w). sum_list (map remaining tasks))",
       goal_cases)
  case 1
  then show ?case by simp
next
  case (2 E imageSize deadline tasks w t tasks1 w1)
  have next_query_remaining:
    "remaining (l, c, fst (next_query E imageSize category queries img w)) \<le> length queries"
    for l c category queries img w
  proof (induction queries arbitrary: img w)
    case Nil
    then show ?case by simp
  next
    case (Cons query rest)
    obtain r w1 where b: "begin_fetchPexelsImage E query (Some category) imageSize w = (r, w1)"
      by (cases "begin_fetchPexelsImage E query (Some category) imageSize w")
    show ?case
    proof (cases r)
      case (Inl found)
      then show ?thesis using b Cons[of found w1] by (simp add: le_SucI)
    next
      case (Inr call)
      then show ?thesis using b by simp
    qed
  qed
  have settle_first_remaining:
    "t \<in> set (settle_times tasks) \<Longrightarrow>
     sum_list (map remaining (fst (settle_first E imageSize t tasks w)))
       < sum_list (map remaining tasks)" for tasks w
  proof (induction tasks arbitrary: w rule: settle_times.induct)
    case 1
    then show ?case by simp
  next
    case (2 locationName category img rest)
    then have "sum_list (map remaining (fst (settle_first E imageSize t rest w)))
                 < sum_list (map remaining rest)"
      by simp
    then show ?case by (simp add: split_beta)
  next
    case (3 locationName category call queries rest)
    show ?case
    proof (cases "settles_at call = t")
      case True
      obtain img w1 where f: "finish_fetchPexelsImage E call w = (img, w1)"
        by (cases "finish_fetchPexelsImage E call w")
      show ?thesis
        using True f next_query_remaining[of locationName category category queries img w1]
        by (simp add: split_beta)
    next
      case False
      then have "sum_list (map remaining (fst (settle_first E imageSize t rest w)))
                   < sum_list (map remaining rest)"
        using 3 by simp
      then show ?thesis using False by (simp add: split_beta)
    qed
  qed
  have "t \<in> set ts" if "earliest ts = Some t" for ts
    using that by (induction ts arbitrary: t) (auto split: option.splits if_splits simp: min_def)
  then have "t \<in> set (settle_times tasks)" using 2 by simp
  from settle_first_remaining[OF this, of "w\<lparr>now := t\<rparr>"] 2
  show ?case by (simp add: split_beta)
qed

declare settle_until.simps [simp del]

text \<open>
  What \<^verbatim>\<open>Promise.allSettled\<close> resolves to once every function has returned. The
  function of a location returns and never throws, so every result is fulfilled.
\<close>

fun settled_results ::
  "(string \<times> string \<times> progress) list \<Rightarrow> (string \<times> (error + jsval)) list option" where
  "settled_results [] = Some []"
| "settled_results ((locationName, category, Settled img) # rest) =
     (case settled_results rest of
        None \<Rightarrow> None
      | Some results \<Rightarrow> Some ((locationName, Inr img) # results))"
| "settled_results ((locationName, category, Waiting call queries) # rest) = None"

definition settle_all ::
  "env \<Rightarrow> string \<Rightarrow> nat \<Rightarrow> (string \<times> string \<times> string list) list \<Rightarrow> world \<Rightarrow>
   (string \<times> (error + jsval)) list option \<times> world" where
  "settle_all E imageSize deadline categorizedLocations w =
     (case start_all E imageSize categorizedLocations w of
        (tasks, w1) \<Rightarrow>
          (case settle_until E imageSize deadline tasks w1 of
             (tasks1, w2) \<Rightarrow> (settled_results tasks1, w2)))"

text \<open>
  \<^verbatim>\<open>locationImages[key] = image\<close> on a plain object: the key \<^verbatim>\<open>__proto__\<close> sets the
  prototype and adds no property.
\<close>

definition assign_key :: "(string \<times> jsval) list \<Rightarrow> string \<Rightarrow> jsval \<Rightarrow> (string \<times> jsval) list" where
  "assign_key obj key v = (if key = ''__proto__'' then obj else put_field obj key v)"

text \<open>The loop over the settled results.\<close>

fun collect_images ::
  "(string \<times> (error + jsval)) list \<Rightarrow> (string \<times> jsval) list \<Rightarrow> (string \<times> jsval) list" where
  "collect_images [] locationImages = locationImages"
| "collect_images ((locationName, Inr img) # rest) locationImages =
     collect_images rest
       (if truthy img then assign_key locationImages locationName img else locationImages)"
| "collect_images ((locationName, Inl reason) # rest) locationImages =
     collect_images rest locationImages"

text \<open>
  The \<^verbatim>\<open>try\<close> block of \<^verbatim>\<open>fetchDiverseLocationImages\<close>: the race of the settled
  results against the timer of \<^verbatim>\<open>TIMEOUTS.IMAGES\<close>.
\<close>

definition fetchDiverseLocationImages_try ::
  "env \<Rightarrow> jsval list \<Rightarrow> string \<Rightarrow> ((string \<times> jsval) list) promise" where
  "fetchDiverseLocationImages_try E locationNames imageSize w =
     (case map_result categorize_location locationNames of
        Inl e \<Rightarrow> (Inl e, w)
      | Inr categorizedLocations \<Rightarrow>
          (case settle_all E imageSize (now w + timer_delay TIMEOUTS_IMAGES)
                  categorizedLocations w of
             (Some results, w1) \<Rightarrow> (Inr (collect_images results []), w1)
           | (None, w1) \<Rightarrow>
               (Inl (TimeoutError ''diverse-images'' TIMEOUTS_IMAGES),
                w1\<lparr>now := now w + timer_delay TIMEOUTS_IMAGES\<rparr>)))"

definition fetchDiverseLocationImages ::
  "env \<Rightarrow> jsval list \<Rightarrow> string \<Rightarrow> ((string \<times> jsval) list) promise" where
  "fetchDiverseLocationImages E locationNames imageSize =
     catch (fetchDiverseLocationImages_try E locationNames imageSize) (\<lambda>error. resolve [])"

text \<open>
  \<^verbatim>\<open>FALLBACK_CITY_IMAGES[key]\<close>: the own properties of the table (the photo number is
  what differs between the three entries), and for the two lower-case names a plain
  object inherits, \<^verbatim>\<open>constructor\<close> and \<^verbatim>\<open>__proto__\<close>, a truthy value with none of
  the fields read.
\<close>

datatype fallback_entry = Curated string | Inherited | Absent

definition FALLBACK_CITY_IMAGES :: "string \<Rightarrow> fallback_entry" where
  "FALLBACK_CITY_IMAGES key =
     (if key = ''mumbai'' then Curated ''789750''
      else if key = ''tokyo'' then Curated ''2070033''
      else if key = ''delhi'' then Curated ''1542620''
      else if key = ''constructor'' \<or> key = ''__proto__'' then Inherited
      else Absent)"

definition photo_url :: "string \<Rightarrow> string \<Rightarrow> string" where
  "photo_url photo suffix =
     ''https://images.pexels.com/photos/'' @ photo @ ''/pexels-photo-'' @ photo @ ''.jpeg'' @ suffix"

definition fallback_image ::
  "real \<Rightarrow> string \<Rightarrow> string \<Rightarrow> string \<Rightarrow> string \<Rightarrow> string \<Rightarrow> jsval" where
  "fallback_image ident url photographer original large medium =
     JObject [(''id'', JNumber ident), (''width'', JNumber 1200), (''height'', JNumber 800),
       (''url'', JString url), (''photographer'', JString photographer),
       (''photographer_url'', JString []), (''avg_color'', JString ''#2C3E50''),
       (''src'', JObject [(''original'', JString original), (''large2x'', JString large),
          (''large'', JString large), (''medium'', JString medium), (''small'', JString medium),
          (''portrait'', JString medium), (''landscape'', JString large),
          (''tiny'', JString medium)])]"

definition getFallbackCityImage :: "string \<Rightarrow> jsval" where
  "getFallbackCityImage cityName =
     (case FALLBACK_CITY_IMAGES (toLowerCase cityName) of
        Curated photo \<Rightarrow>
          fallback_image 0 (photo_url photo []) ''Fallback Image'' (photo_url photo [])
            (photo_url photo ''?auto=compress&cs=tinysrgb&w=1200'')
            (photo_url photo ''?auto=compress&cs=tinysrgb&w=800'')
      | Inherited \<Rightarrow> fallback_image 0 [] ''Stock Photo'' [] [] []
      | Absent \<Rightarrow> JNull)"

section \<open>Regular expressions and JSON.parse\<close>

text \<open>
  The regular expressions of \<^verbatim>\<open>route.ts\<close> are sequences of atoms: one character of a
  class, a greedy or lazy repetition of a class, and the brackets of a capture group.
  \<open>match_here\<close> is the backtracking search of the platform at one position: a greedy
  repetition first takes a character and gives it back when the rest fails, a lazy one
  first tries the rest. It returns the captured groups and what is left of the input.
\<close>

datatype atom =
    One "char \<Rightarrow> bool"
  | Star "char \<Rightarrow> bool"
  | LazyStar "char \<Rightarrow> bool"
  | GroupOpen
  | GroupClose

fun match_here ::
  "atom list \<Rightarrow> string \<Rightarrow> string \<Rightarrow> nat list \<Rightarrow> string list \<Rightarrow> (string list \<times> string) option" where
  "match_here [] s acc opens caps = Some (caps, s)"
| "match_here (GroupOpen # atoms) s acc opens caps =
     match_here atoms s acc (length acc # opens) caps"
| "match_here (GroupClose # atoms) s acc opens caps =
     (case opens of
        [] \<Rightarrow> match_here atoms s acc [] caps
      | start # outer \<Rightarrow> match_here atoms s acc outer (caps @ [drop start (rev acc)]))"
| "match_here (One p # atoms) [] acc opens caps = None"
| "match_here (One p # atoms) (c # s) acc opens caps =
     (if p c then match_here atoms s (c # acc) opens caps else None)"
| "match_here (Star p # atoms) [] acc opens caps = match_here atoms [] acc opens caps"
| "match_here (Star p # atoms) (c # s) acc opens caps =
     (if p c
      then (case match_here (Star p # atoms) s (c # acc) opens caps of
              Some r \<Rightarrow> Some r
            | None \<Rightarrow> match_here atoms (c # s) acc opens caps)
      else match_here atoms (c # s) acc opens caps)"
| "match_here (LazyStar p # atoms) [] acc opens caps = match_here atoms [] acc opens caps"
| "match_here (LazyStar p # atoms) (c # s) acc opens caps =
     (case match_here atoms (c # s) acc opens caps of
        Some r \<Rightarrow> Some r
      | None \<Rightarrow> (if p c then match_here (LazyStar p # atoms) s (c # acc) opens caps else None))"

text \<open>
  \<^verbatim>\<open>s.match(re)\<close> without the global flag: the first position with a match, and the
  matched text. Every expression below consumes at least one character.
\<close>

fun match_first :: "atom list \<Rightarrow> string \<Rightarrow> string option" where
  "match_first atoms [] = None"
| "match_first atoms (c # s) =
     (case match_here atoms (c # s) [] [] [] of
        Some (caps, rest) \<Rightarrow> Some (take (length (c # s) - length rest) (c # s))
      | None \<Rightarrow> match_first atoms s)"

text \<open>\<^verbatim>\<open>s.match(re)\<close> with the global flag: the matched texts from left to right.\<close>

function match_all :: "atom list \<Rightarrow> string \<Rightarrow> string list" where
  "match_all atoms [] = []"
| "match_all atoms (c # s) =
     (case match_here atoms (c # s) [] [] [] of
        Some (caps, rest) \<Rightarrow>
          (if length rest < length (c # s)
           then take (length (c # s) - length rest) (c # s) # match_all atoms rest
           else match_all atoms s)
      | None \<Rightarrow> match_all atoms s)"
  by pat_completeness auto
termination
  by (relation "measure (\<lambda>(atoms, s). length s)") auto

text \<open>
  \<^verbatim>\<open>s.replace(re, template)\<close> with the global flag; \<open>template\<close> builds the replacement
  from the captured groups.
\<close>

function replace_all :: "atom list \<Rightarrow> (string list \<Rightarrow> string) \<Rightarrow> string \<Rightarrow> string" where
  "replace_all atoms template [] = []"
| "replace_all atoms template (c # s) =
     (case match_here atoms (c # s) [] [] [] of
        Some (caps, rest) \<Rightarrow>
          (if length rest < length (c # s)
           then template caps @ replace_all atoms template rest
           else c # replace_all atoms template s)
      | None \<Rightarrow> c # replace_all atoms template s)"
  by pat_completeness auto
termination
  by (relation "measure (\<lambda>(atoms, template, s). length s)") auto

text \<open>\<^verbatim>\<open>/\{[\s\S]*\}/\<close> and \<^verbatim>\<open>/\{[\s\S]*?\}/g\<close>.\<close>

definition brace_span :: "atom list" where
  "brace_span = [One (\<lambda>c. c = CHR ''{''), Star (\<lambda>c. True), One (\<lambda>c. c = CHR ''}'')]"

definition brace_span_lazy :: "atom list" where
  "brace_span_lazy = [One (\<lambda>c. c = CHR ''{''), LazyStar (\<lambda>c. True), One (\<lambda>c. c = CHR ''}'')]"

text \<open>\<^verbatim>\<open>/,(\s*[}\]])/g\<close> replaced by \<^verbatim>\<open>'$1'\<close>.\<close>

definition trailing_comma :: "atom list" where
  "trailing_comma =
     [One (\<lambda>c. c = CHR '',''), GroupOpen, Star is_space,
      One (\<lambda>c. c = CHR ''}'' \<or> c = CHR '']''), GroupClose]"

text \<open>\<^verbatim>\<open>/([{\[,]\s*)(\w+):/g\<close> replaced by \<^verbatim>\<open>'$1"$2":'\<close>.\<close>

definition unquoted_key :: "atom list" where
  "unquoted_key =
     [GroupOpen, One (\<lambda>c. c = CHR ''{'' \<or> c = CHR ''['' \<or> c = CHR '',''), Star is_space, GroupClose,
      GroupOpen, One is_word, Star is_word, GroupClose, One (\<lambda>c. c = CHR '':'')]"

text \<open>\<^verbatim>\<open>/:\s*([^",{\[\s][^,}\]]*[^,}\]\s])/g\<close> replaced by \<^verbatim>\<open>': "$1"'\<close>.\<close>

definition unquoted_value :: "atom list" where
  "unquoted_value =
     [One (\<lambda>c. c = CHR '':''), Star is_space, GroupOpen,
      One (\<lambda>c. c \<noteq> CHR 0x22 \<and> c \<noteq> CHR '','' \<and> c \<noteq> CHR ''{'' \<and> c \<noteq> CHR ''['' \<and> \<not> is_space c),
      Star (\<lambda>c. c \<noteq> CHR '','' \<and> c \<noteq> CHR ''}'' \<and> c \<noteq> CHR '']''),
      One (\<lambda>c. c \<noteq> CHR '','' \<and> c \<noteq> CHR ''}'' \<and> c \<noteq> CHR '']'' \<and> \<not> is_space c),
      GroupClose]"

text \<open>The three cleaning steps of lines 447 to 449, in their order.\<close>

definition clean_json :: "string \<Rightarrow> string" where
  "clean_json jsonString =
     replace_all unquoted_value (\<lambda>caps. '': '' @ [CHR 0x22] @ caps ! 0 @ [CHR 0x22])
       (replace_all unquoted_key
          (\<lambda>caps. caps ! 0 @ [CHR 0x22] @ caps ! 1 @ [CHR 0x22] @ '':'')
          (replace_all trailing_comma (\<lambda>caps. caps ! 0) jsonString))"

text \<open>
  The platform's \<^verbatim>\<open>JSON.parse\<close>, as a recursive descent over the text. The fuel bounds
  the depth of the descent; \<open>JSON_parse\<close> starts with more than any text can use. A
  number is kept as the real number its literal denotes (the platform rounds it to the
  nearest binary64 number), a character escaped as \<^verbatim>\<open>\uXXXX\<close> as the bytes of its UTF-8
  form. A key that is repeated in an object keeps the place of its first occurrence
  and the value of its last.
\<close>

definition is_json_space :: "char \<Rightarrow> bool" where
  "is_json_space c = (c \<in> set [CHR 0x20, CHR 0x09, CHR 0x0A, CHR 0x0D])"

definition skip_space :: "string \<Rightarrow> string" where
  "skip_space s = dropWhile is_json_space s"

definition digit_value :: "char \<Rightarrow> nat" where
  "digit_value c = of_char c - 48"

definition digits_value :: "string \<Rightarrow> nat" where
  "digits_value ds = foldl (\<lambda>a d. 10 * a + digit_value d) 0 ds"

definition hex_value :: "char \<Rightarrow> nat option" where
  "hex_value c =
     (let n = (of_char c :: nat) in
      if 48 \<le> n \<and> n \<le> 57 then Some (n - 48)
      else if 65 \<le> n \<and> n \<le> 70 then Some (n - 55)
      else if 97 \<le> n \<and> n \<le> 102 then Some (n - 87)
      else None)"

definition utf8 :: "nat \<Rightarrow> string" where
  "utf8 cp =
     (if cp < 128 then [char_of cp]
      else if cp < 2048 then [char_of (192 + cp div 64), char_of (128 + cp mod 64)]
      else [char_of (224 + cp div 4096), char_of (128 + (cp div 64) mod 64),
            char_of (128 + cp mod 64)])"

definition escape_char :: "char \<Rightarrow> char option" where
  "escape_char e =
     (if e = CHR 0x22 then Some (CHR 0x22)
      else if e = CHR 0x5C then Some (CHR 0x5C)
      else if e = CHR ''/'' then Some (CHR ''/'')
      else if e = CHR ''b'' then Some (CHR 0x08)
      else if e = CHR ''f'' then Some (CHR 0x0C)
      else if e = CHR ''n'' then Some (CHR 0x0A)
      else if e = CHR ''r'' then Some (CHR 0x0D)
      else if e = CHR ''t'' then Some (CHR 0x09)
      else None)"

text \<open>The characters of a string literal after its opening quote, up to the closing one.\<close>

fun parse_string :: "string \<Rightarrow> string \<Rightarrow> (string \<times> string) option" where
  "parse_string [] acc = None"
| "parse_string (c # s) acc =
     (if c = CHR 0x22 then Some (rev acc, s)
      else if c = CHR 0x5C then
        (case s of
           [] \<Rightarrow> None
         | e # s1 \<Rightarrow>
             (if e = CHR ''u'' then
                (case s1 of
                   h1 # h2 # h3 # h4 # s2 \<Rightarrow>
                     (case (hex_value h1, hex_value h2, hex_value h3, hex_value h4) of
                        (Some a, Some b, Some c1, Some d) \<Rightarrow>
                          parse_string s2 (rev (utf8 (((a * 16 + b) * 16 + c1) * 16 + d)) @ acc)
                      | _ \<Rightarrow> None)
                 | _ \<Rightarrow> None)
              else (case escape_char e of
                      None \<Rightarrow> None
                    | Some x \<Rightarrow> parse_string s1 (x # acc))))
      else if (of_char c :: nat) < 32 then None
      else parse_string s (c # acc))"

text \<open>A number literal at the head of the text: its value and the rest.\<close>

definition parse_number :: "string \<Rightarrow> (real \<times> string) option" where
  "parse_number s =
     (let negative = (s \<noteq> [] \<and> hd s = CHR ''-'');
          s1 = (if negative then tl s else s);
          whole = takeWhile is_digit s1;
          s2 = dropWhile is_digit s1
      in if whole = [] \<or> (length whole > 1 \<and> hd whole = CHR ''0'') then None
         else
           (let has_fraction = (s2 \<noteq> [] \<and> hd s2 = CHR ''.'');
                fraction = (if has_fraction then takeWhile is_digit (tl s2) else []);
                s3 = (if has_fraction then dropWhile is_digit (tl s2) else s2)
            in if has_fraction \<and> fraction = [] then None
               else
                 (let has_exponent = (s3 \<noteq> [] \<and> (hd s3 = CHR ''e'' \<or> hd s3 = CHR ''E''));
                      s4 = (if has_exponent then tl s3 else s3);
                      signed = (has_exponent \<and> s4 \<noteq> [] \<and> (hd s4 = CHR ''+'' \<or> hd s4 = CHR ''-''));
                      down = (signed \<and> hd s4 = CHR ''-'');
                      s5 = (if signed then tl s4 else s4);
                      exponent = (if has_exponent then takeWhile is_digit s5 else []);
                      s6 = (if has_exponent then dropWhile is_digit s5 else s3);
                      mantissa = real (digits_value whole) +
                                 real (digits_value fraction) / 10 ^ length fraction;
                      magnitude = (if down then mantissa / 10 ^ digits_value exponent
                                   else mantissa * 10 ^ digits_value exponent)
                  in if has_exponent \<and> exponent = [] then None
                     else Some (if negative then - magnitude else magnitude, s6))))"

fun parse_value :: "nat \<Rightarrow> string \<Rightarrow> (jsval \<times> string) option"
  and parse_elements :: "nat \<Rightarrow> string \<Rightarrow> (jsval list \<times> string) option"
  and parse_members :: "nat \<Rightarrow> string \<Rightarrow> ((string \<times> jsval) list \<times> string) option" where
  "parse_value 0 s = None"
| "parse_value (Suc fuel) s =
     (case skip_space s of
        [] \<Rightarrow> None
      | c # r \<Rightarrow>
          (if starts_with (c # r) ''null'' then Some (JNull, drop 4 (c # r))
           else if starts_with (c # r) ''true'' then Some (JBool True, drop 4 (c # r))
           else if starts_with (c # r) ''false'' then Some (JBool False, drop 5 (c # r))
           else if c = CHR 0x22 then
             (case parse_string r [] of
                None \<Rightarrow> None
              | Some (str, r1) \<Rightarrow> Some (JString str, r1))
           else if c = CHR ''['' then
             (case skip_space r of
                [] \<Rightarrow> None
              | c1 # r1 \<Rightarrow>
                  (if c1 = CHR '']'' then Some (JArray [], r1)
                   else (case parse_elements fuel (c1 # r1) of
                           None \<Rightarrow> None
                         | Some (xs, r2) \<Rightarrow> Some (JArray xs, r2))))
           else if c = CHR ''{'' then
             (case skip_space r of
                [] \<Rightarrow> None
              | c1 # r1 \<Rightarrow>
                  (if c1 = CHR ''}'' then Some (JObject [], r1)
                   else (case parse_members fuel (c1 # r1) of
                           None \<Rightarrow> None
                         | Some (kvs, r2) \<Rightarrow> Some (JObject kvs, r2))))
           else (case parse_number (c # r) of
                   None \<Rightarrow> None
                 | Some (n, r1) \<Rightarrow> Some (JNumber n, r1))))"
| "parse_elements 0 s = None"
| "parse_elements (Suc fuel) s =
     (case parse_value fuel s of
        None \<Rightarrow> None
      | Some (v, r) \<Rightarrow>
          (case skip_space r of
             [] \<Rightarrow> None
           | c # r1 \<Rightarrow>
               (if c = CHR '']'' then Some ([v], r1)
                else if c = CHR '','' then
                  (case parse_elements fuel r1 of
                     None \<Rightarrow> None
                   | Some (vs, r2) \<Rightarrow> Some (v # vs, r2))
                else None)))"
| "parse_members 0 s = None"
| "parse_members (Suc fuel) s =
     (case skip_space s of
        [] \<Rightarrow> None
      | q # r \<Rightarrow>
          (if q \<noteq> CHR 0x22 then None
           else
             (case parse_string r [] of
                None \<Rightarrow> None
              | Some (key, r1) \<Rightarrow>
                  (case skip_space r1 of
                     [] \<Rightarrow> None
                   | colon # r2 \<Rightarrow>
                       (if colon \<noteq> CHR '':'' then None
                        else
                          (case parse_value fuel r2 of
                             None \<Rightarrow> None
                           | Some (v, r3) \<Rightarrow>
                               (case skip_space r3 of
                                  [] \<Rightarrow> None
                                | c # r4 \<Rightarrow>
                                    (if c = CHR ''}'' then Some ([(key, v)], r4)
                                     else if c = CHR '','' then
                                       (case parse_members fuel r4 of
                                          None \<Rightarrow> None
                                        | Some (kvs, r5) \<Rightarrow>
                                            Some ((key, (case map_of kvs key of
                                                           None \<Rightarrow> v | Some later \<Rightarrow> later)) #
                                                  filter (\<lambda>kv. fst kv \<noteq> key) kvs, r5))
                                     else None))))))))"

definition JSON_parse :: "string \<Rightarrow> error + jsval" where
  "JSON_parse text =
     (case parse_value (2 * length text + 2) text of
        None \<Rightarrow> Inl (SyntaxError ''Unexpected token in JSON'')
      | Some (v, r) \<Rightarrow>
          (if skip_space r = [] then Inr v else Inl (SyntaxError ''Unexpected token in JSON'')))"

section \<open>route.ts: the tables\<close>

text \<open>The rupee sign, as the bytes of its UTF-8 form.\<close>

definition rupee :: string where
  "rupee = [CHR 0xE2, CHR 0x82, CHR 0xB9]"

text \<open>
  \<^verbatim>\<open>CITY_CONFIGS[key]\<close>. The table is a plain object, so besides its three own
  entries a lookup finds what every object inherits: for the lower-case keys
  \<^verbatim>\<open>constructor\<close> and \<^verbatim>\<open>__proto__\<close> the result is a truthy value that has none of
  the properties of a configuration, which the empty object stands for.
\<close>

definition CITY_CONFIGS_mumbai :: jsval where
  "CITY_CONFIGS_mumbai = JObject [
     (''currency'', JString ''INR''),
     (''timezone'', JString ''Asia/Kolkata''),
     (''culturalTips'', JArray [
        JString (''Mumbai locals are called '' @ [CHR 0x22] @ ''Mumbaikars'' @ [CHR 0x22] @ '' and are known for their fast-paced lifestyle''),
        JString ''The city never sleeps - street food and trains run almost 24/7'',
        JString ''Monsoon season (June-September) brings heavy rains but also a unique charm'',
        JString ''Local trains are the lifeline but can be crowded during peak hours'',
        JString ''Street food culture is huge - try vada pav, bhel puri, and dosa'']),
     (''weatherInfo'', JString
        ''Tropical climate with three distinct seasons: monsoon (June-September), winter (October-February), and summer (March-May). Best time to visit is October to March.''),
     (''budgetMultiplier'', JNumber 1.0)]"

definition CITY_CONFIGS_tokyo :: jsval where
  "CITY_CONFIGS_tokyo = JObject [
     (''currency'', JString ''JPY''),
     (''timezone'', JString ''Asia/Tokyo''),
     (''culturalTips'', JArray [
        JString ''Bowing is a traditional greeting - a slight nod is sufficient for tourists'',
        JString ''Remove shoes when entering homes, temples, and some restaurants'',
        JString ''Tipping is not customary and can sometimes be considered rude'',
        JString ''Public transportation is extremely punctual and efficient'',
        JString (''Cash is still king - many places don'' @ [CHR 0x27] @ ''t accept cards'')]),
     (''weatherInfo'', JString
        ''Four distinct seasons. Cherry blossom (sakura) season in March-April. Hot humid summers, mild winters. Best times: March-May and September-November.''),
     (''budgetMultiplier'', JNumber 3.5)]"

definition CITY_CONFIGS_delhi :: jsval where
  "CITY_CONFIGS_delhi = JObject [
     (''currency'', JString ''INR''),
     (''timezone'', JString ''Asia/Kolkata''),
     (''culturalTips'', JArray [
        JString ''Delhi has both Old Delhi (historic) and New Delhi (modern capital)'',
        JString ''Respect religious sites - cover head and remove shoes at temples/mosques'',
        JString ''Haggling is common in markets but not in malls or restaurants'',
        JString ''The city has extreme weather - very hot summers and cool winters'',
        JString ''Try local specialties like chole bhature, paranthas, and chaat'']),
     (''weatherInfo'', JString
        (''Semi-arid climate with extreme temperatures. Very hot summers (40'' @ [CHR 0xC2, CHR 0xB0] @ ''C+), cool winters (5-20'' @ [CHR 0xC2, CHR 0xB0] @ ''C), monsoon (July-September). Best time: October-March.'')),
     (''budgetMultiplier'', JNumber 0.9)]"

definition CITY_CONFIGS :: "string \<Rightarrow> jsval" where
  "CITY_CONFIGS key =
     (if key = ''mumbai'' then CITY_CONFIGS_mumbai
      else if key = ''tokyo'' then CITY_CONFIGS_tokyo
      else if key = ''delhi'' then CITY_CONFIGS_delhi
      else if key = ''constructor'' \<or> key = ''__proto__'' then JObject []
      else JUndefined)"

text \<open>The places of \<^verbatim>\<open>getDaySpecificPlaces\<close>.\<close>

definition place :: "string \<Rightarrow> string \<Rightarrow> real \<Rightarrow> real \<Rightarrow> jsval" where
  "place nm address lat lng =
     JObject [(''name'', JString nm), (''address'', JString address),
              (''coordinates'', JArray [JNumber lat, JNumber lng])]"

definition eatery :: "string \<Rightarrow> string \<Rightarrow> real \<Rightarrow> real \<Rightarrow> string \<Rightarrow> string \<Rightarrow> jsval" where
  "eatery nm address lat lng cuisine speciality =
     JObject [(''name'', JString nm), (''address'', JString address),
              (''coordinates'', JArray [JNumber lat, JNumber lng]),
              (''cuisine'', JString cuisine), (''speciality'', JString speciality)]"

definition day_places :: "jsval \<Rightarrow> jsval \<Rightarrow> jsval \<Rightarrow> jsval \<Rightarrow> jsval \<Rightarrow> jsval \<Rightarrow> jsval" where
  "day_places morning afternoon evening breakfast lunch dinner =
     JObject [(''morning'', morning), (''afternoon'', afternoon), (''evening'', evening),
              (''breakfast'', breakfast), (''lunch'', lunch), (''dinner'', dinner)]"

definition mumbaiDayPlaces_1 :: jsval where
  "mumbaiDayPlaces_1 =
     day_places
       (place ''Gateway of India''
          ''Apollo Bandar, Colaba, Mumbai, Maharashtra 400001'' 18.9217 72.8347)
       (place ''Colaba Causeway''
          ''Colaba Causeway, Colaba, Mumbai, Maharashtra 400001'' 18.9187 72.8347)
       (place ''Marine Drive''
          ''Marine Drive, Mumbai, Maharashtra 400002'' 18.9431 72.8235)
       (eatery ''Leopold Cafe''
          ''Colaba Causeway, Colaba, Mumbai, Maharashtra 400001'' 18.9187 72.8347
          ''Continental & Indian'' ''Vada Pav & Coffee'')
       (eatery ''Bademiya''
          ''Tulloch Road, Apollo Bunder, Colaba, Mumbai, Maharashtra 400001'' 18.9217 72.8347
          ''Mughlai & Street Food'' ''Seekh Kebab & Biryani'')
       (eatery ''Trishna''
          ''Kala Ghoda, Fort, Mumbai, Maharashtra 400001'' 18.9290 72.8347
          ''Seafood & Coastal'' ''Crab Masala & Prawns'')"

definition mumbaiDayPlaces_2 :: jsval where
  "mumbaiDayPlaces_2 =
     day_places
       (place ''Elephanta Caves''
          ''Elephanta Island, Mumbai, Maharashtra 400094'' 18.9633 72.9315)
       (place ''Juhu Beach''
          ''Juhu Beach, Juhu, Mumbai, Maharashtra 400049'' 19.0996 72.8347)
       (place ''Bandra West''
          ''Bandra West, Mumbai, Maharashtra 400050'' 19.0596 72.8295)
       (eatery ''Cafe Madras''
          ''King Circle, Matunga, Mumbai, Maharashtra 400019'' 19.0176 72.8478
          ''South Indian'' ''Masala Dosa & Filter Coffee'')
       (eatery ''The Bombay Canteen''
          ''Kamala Mills, Lower Parel, Mumbai, Maharashtra 400013'' 19.0176 72.8478
          ''Modern Indian'' ''Regional Thalis & Cocktails'')
       (eatery (''Tr'' @ [CHR 0xC3, CHR 0xA8] @ ''sind Mumbai'')
          ''BKC, Mumbai, Maharashtra 400051'' 19.0596 72.8295
          ''Fine Dining Indian'' ''Tasting Menu & Wine Pairing'')"

definition mumbaiDayPlaces_3 :: jsval where
  "mumbaiDayPlaces_3 =
     day_places
       (place ''Taj Mahal Palace''
          ''Apollo Bunder, Colaba, Mumbai, Maharashtra 400001'' 18.9217 72.8347)
       (place ''Kala Ghoda Art District''
          ''Kala Ghoda, Fort, Mumbai, Maharashtra 400001'' 18.9290 72.8347)
       (place ''Worli Sea Face''
          ''Worli, Mumbai, Maharashtra 400018'' 19.0176 72.8478)
       (eatery ''K Rustom''
          ''Churchgate, Mumbai, Maharashtra 400020'' 18.9290 72.8347
          ''Parsi & Continental'' ''Ice Cream & Sandwiches'')
       (eatery ''Gajalee''
          ''Vile Parle, Mumbai, Maharashtra 400056'' 19.0996 72.8347
          ''Seafood & Coastal'' ''Pomfret Fry & Prawn Curry'')
       (eatery ''Masala Library''
          ''BKC, Mumbai, Maharashtra 400051'' 19.0596 72.8295
          ''Molecular Indian'' ''Innovative Indian Cuisine'')"

definition delhiDayPlaces_1 :: jsval where
  "delhiDayPlaces_1 =
     day_places
       (place ''Red Fort''
          ''Netaji Subhash Marg, Lal Qila, Old Delhi, New Delhi, Delhi 110006'' 28.6562 77.2410)
       (place ''Chandni Chowk''
          ''Chandni Chowk, Old Delhi, Delhi 110006'' 28.6562 77.2410)
       (place ''India Gate''
          ''Rajpath, New Delhi, Delhi 110001'' 28.6129 77.2295)
       (eatery ''Paranthe Wali Gali''
          ''Chandni Chowk, Old Delhi, Delhi 110006'' 28.6562 77.2410
          ''North Indian'' ''Stuffed Paranthas'')
       (eatery (''Karim'' @ [CHR 0x27] @ ''s'')
          ''Jama Masjid, Old Delhi, Delhi 110006'' 28.6505 77.2334
          ''Mughlai'' ''Mutton Korma & Biryani'')
       (eatery ''Bukhara''
          ''ITC Maurya, New Delhi, Delhi 110037'' 28.6129 77.2295
          ''North Indian'' ''Dal Bukhara & Tandoori'')"

definition delhiDayPlaces_2 :: jsval where
  "delhiDayPlaces_2 =
     day_places
       (place (''Humayun'' @ [CHR 0x27] @ ''s Tomb'')
          ''Mathura Road, Nizamuddin, New Delhi, Delhi 110013'' 28.5931 77.2506)
       (place ''Qutub Minar''
          ''Mehrauli, New Delhi, Delhi 110030'' 28.5245 77.1855)
       (place ''Lodhi Garden''
          ''Lodhi Road, New Delhi, Delhi 110003'' 28.5931 77.2506)
       (eatery (''Haldiram'' @ [CHR 0x27] @ ''s'')
          ''Connaught Place, New Delhi, Delhi 110001'' 28.6129 77.2295
          ''North Indian'' ''Chole Bhature & Samosa'')
       (eatery ''Pindi''
          ''Pandara Road, New Delhi, Delhi 110011'' 28.5931 77.2506
          ''Punjabi'' ''Butter Chicken & Dal Makhani'')
       (eatery ''Indian Accent''
          ''The Lodhi, New Delhi, Delhi 110003'' 28.5931 77.2506
          ''Modern Indian'' ''Tasting Menu & Wine Pairing'')"

definition delhiDayPlaces_3 :: jsval where
  "delhiDayPlaces_3 =
     day_places
       (place ''Akshardham Temple''
          ''Noida Mor, New Delhi, Delhi 110092'' 28.6129 77.2295)
       (place ''Lotus Temple''
          ''Bahapur, New Delhi, Delhi 110019'' 28.5535 77.2588)
       (place ''Connaught Place''
          ''Connaught Place, New Delhi, Delhi 110001'' 28.6129 77.2295)
       (eatery ''Bengali Sweet House''
          ''Chandni Chowk, Old Delhi, Delhi 110006'' 28.6562 77.2410
          ''Bengali'' ''Rasgulla & Sandesh'')
       (eatery ''Dhaba''
          ''Pandara Road, New Delhi, Delhi 110011'' 28.5931 77.2506
          ''Punjabi Dhaba'' ''Sarson da Saag & Makki di Roti'')
       (eatery ''Dum Pukht''
          ''ITC Maurya, New Delhi, Delhi 110037'' 28.6129 77.2295
          ''Awadhi'' ''Dum Biryani & Kebabs'')"

definition tokyoDayPlaces_1 :: jsval where
  "tokyoDayPlaces_1 =
     day_places
       (place ''Senso-ji Temple''
          ''2-3-1 Asakusa, Taito City, Tokyo 111-0032, Japan'' 35.7148 139.7967)
       (place ''Tokyo Skytree''
          ''1-1-2 Oshiage, Sumida City, Tokyo 131-0045, Japan'' 35.7100 139.8107)
       (place ''Asakusa District''
          ''Asakusa, Taito City, Tokyo 111-0032, Japan'' 35.7148 139.7967)
       (eatery ''Tsukiji Outer Market''
          ''Tsukiji, Chuo City, Tokyo 104-0045, Japan'' 35.6654 139.7704
          ''Japanese Street Food'' ''Fresh Sushi & Tamago'')
       (eatery ''Ichiran Ramen''
          ''Shibuya, Tokyo 150-0002, Japan'' 35.6595 139.7004
          ''Ramen'' ''Tonkotsu Ramen'')
       (eatery ''Sukiyabashi Jiro''
          ''Ginza, Chuo City, Tokyo 104-0061, Japan'' 35.6720 139.7676
          ''Sushi'' ''Omakase Sushi'')"

definition tokyoDayPlaces_2 :: jsval where
  "tokyoDayPlaces_2 =
     day_places
       (place ''Meiji Shrine''
          ''1-1 Yoyogikamizonocho, Shibuya City, Tokyo 151-8557, Japan'' 35.6762 139.6993)
       (place ''Shibuya Crossing''
          ''Shibuya, Tokyo 150-0002, Japan'' 35.6595 139.7004)
       (place ''Harajuku''
          ''Harajuku, Shibuya City, Tokyo 150-0001, Japan'' 35.6702 139.7016)
       (eatery ''Bills''
          ''Omotesando, Shibuya City, Tokyo 150-0001, Japan'' 35.6702 139.7016
          ''International'' ''Ricotta Hotcakes'')
       (eatery ''Afuri Ramen''
          ''Harajuku, Shibuya City, Tokyo 150-0001, Japan'' 35.6702 139.7016
          ''Ramen'' ''Yuzu Shio Ramen'')
       (eatery ''Narisawa''
          ''Minato City, Tokyo 107-0062, Japan'' 35.6620 139.7178
          ''French-Japanese Fusion'' ''Seasonal Tasting Menu'')"

definition tokyoDayPlaces_3 :: jsval where
  "tokyoDayPlaces_3 =
     day_places
       (place ''Imperial Palace''
          ''1-1 Chiyoda, Chiyoda City, Tokyo 100-8111, Japan'' 35.6850 139.7528)
       (place ''Ginza District''
          ''Ginza, Chuo City, Tokyo 104-0061, Japan'' 35.6720 139.7676)
       (place ''Roppongi Hills''
          ''Roppongi, Minato City, Tokyo 106-0032, Japan'' 35.6620 139.7178)
       (eatery ''Gonpachi''
          ''Nishi-Azabu, Minato City, Tokyo 106-0031, Japan'' 35.6620 139.7178
          ''Japanese'' ''Soba & Tempura'')
       (eatery ''Sukiyabashi Jiro Honten''
          ''Ginza, Chuo City, Tokyo 104-0061, Japan'' 35.6720 139.7676
          ''Sushi'' ''Premium Sushi'')
       (eatery ''Ryugin''
          ''Roppongi, Minato City, Tokyo 106-0032, Japan'' 35.6620 139.7178
          ''Kaiseki'' ''Traditional Japanese'')"

text \<open>
  \<^verbatim>\<open>getDaySpecificPlaces(city, day)\<close>: a day without an entry in the city's table gets
  the places of day 1; a city without a table gets the generic places.
\<close>

definition getDaySpecificPlaces :: "string \<Rightarrow> int \<Rightarrow> jsval" where
  "getDaySpecificPlaces city day =
     (let cityLower = toLowerCase city in
      if cityLower = ''mumbai''
      then (if day = 1 then mumbaiDayPlaces_1 else if day = 2 then mumbaiDayPlaces_2
            else if day = 3 then mumbaiDayPlaces_3 else mumbaiDayPlaces_1)
      else if cityLower = ''delhi''
      then (if day = 1 then delhiDayPlaces_1 else if day = 2 then delhiDayPlaces_2
            else if day = 3 then delhiDayPlaces_3 else delhiDayPlaces_1)
      else if cityLower = ''tokyo''
      then (if day = 1 then tokyoDayPlaces_1 else if day = 2 then tokyoDayPlaces_2
            else if day = 3 then tokyoDayPlaces_3 else tokyoDayPlaces_1)
      else day_places (place ''City Center'' city 0 0) (place ''Main Square'' city 0 0)
             (place ''Downtown'' city 0 0) (place ''Local Cafe'' city 0 0)
             (place ''Local Restaurant'' city 0 0) (place ''Local Dining'' city 0 0))"

text \<open>
  The tables of \<^verbatim>\<open>getFallbackPlace\<close> and \<^verbatim>\<open>getFallbackRestaurant\<close>: the keys in
  the order of the source, each with its place; the first entry of each table is the one
  returned when no key matches.
\<close>

definition mumbaiPlaces :: "(string \<times> jsval) list" where
  "mumbaiPlaces =
     [(''gateway of india'',
        place ''Gateway of India''
          ''Apollo Bandar, Colaba, Mumbai, Maharashtra 400001'' 18.9217 72.8347),
      (''marine drive'',
        place ''Marine Drive''
          ''Marine Drive, Mumbai, Maharashtra 400002'' 18.9431 72.8235),
      (''colaba causeway'',
        place ''Colaba Causeway''
          ''Colaba Causeway, Colaba, Mumbai, Maharashtra 400001'' 18.9187 72.8347),
      (''juhu beach'',
        place ''Juhu Beach''
          ''Juhu Beach, Juhu, Mumbai, Maharashtra 400049'' 19.0996 72.8347),
      (''elephanta caves'',
        place ''Elephanta Caves''
          ''Elephanta Island, Mumbai, Maharashtra 400094'' 18.9633 72.9315),
      (''taj mahal palace'',
        place ''Taj Mahal Palace''
          ''Apollo Bunder, Colaba, Mumbai, Maharashtra 400001'' 18.9217 72.8347)]"

definition delhiPlaces :: "(string \<times> jsval) list" where
  "delhiPlaces =
     [(''red fort'',
        place ''Red Fort''
          ''Netaji Subhash Marg, Lal Qila, Old Delhi, New Delhi, Delhi 110006'' 28.6562 77.2410),
      (''india gate'',
        place ''India Gate''
          ''Rajpath, New Delhi, Delhi 110001'' 28.6129 77.2295),
      (''humayun tomb'',
        place (''Humayun'' @ [CHR 0x27] @ ''s Tomb'')
          ''Mathura Road, Nizamuddin, New Delhi, Delhi 110013'' 28.5931 77.2506),
      (''qutub minar'',
        place ''Qutub Minar''
          ''Mehrauli, New Delhi, Delhi 110030'' 28.5245 77.1855)]"

definition tokyoPlaces :: "(string \<times> jsval) list" where
  "tokyoPlaces =
     [(''senso ji'',
        place ''Senso-ji Temple''
          ''2-3-1 Asakusa, Taito City, Tokyo 111-0032, Japan'' 35.7148 139.7967),
      (''tokyo skytree'',
        place ''Tokyo Skytree''
          ''1-1-2 Oshiage, Sumida City, Tokyo 131-0045, Japan'' 35.7100 139.8107),
      (''shibuya crossing'',
        place ''Shibuya Crossing''
          ''Shibuya, Tokyo 150-0002, Japan'' 35.6595 139.7004)]"

definition mumbaiRestaurants :: "(string \<times> jsval) list" where
  "mumbaiRestaurants =
     [(''leopold cafe'',
        place ''Leopold Cafe''
          ''Colaba Causeway, Colaba, Mumbai, Maharashtra 400001'' 18.9187 72.8347),
      (''bademiya'',
        place ''Bademiya''
          ''Tulloch Road, Apollo Bunder, Colaba, Mumbai, Maharashtra 400001'' 18.9217 72.8347),
      (''trishna'',
        place ''Trishna''
          ''Kala Ghoda, Fort, Mumbai, Maharashtra 400001'' 18.9290 72.8347)]"


section \<open>route.ts: the functions\<close>

text \<open>The name of a place of the tables above, which is always a string.\<close>

definition place_name :: "jsval \<Rightarrow> string" where
  "place_name p = (case get_opt p ''name'' of JString s \<Rightarrow> s | _ \<Rightarrow> [])"

text \<open>
  \<^verbatim>\<open>parseFloat(budget.replace(/[^\d]/g, ''))\<close>: the number the digits of the budget
  denote, \<^verbatim>\<open>NaN\<close> (here \<open>None\<close>) when there is none; and \<^verbatim>\<open>Math.round(x * factor)\<close>
  as a template literal shows it, in exact arithmetic.
\<close>

definition budget_number :: "string \<Rightarrow> nat option" where
  "budget_number budget =
     (let ds = filter is_digit budget in if ds = [] then None else Some (digits_value ds))"

definition rounded_share :: "nat option \<Rightarrow> real option \<Rightarrow> string" where
  "rounded_share amount factor =
     (case (amount, factor) of
        (Some n, Some f) \<Rightarrow> show_nat (nat \<lfloor>real n * f + 1 / 2\<rfloor>)
      | _ \<Rightarrow> ''NaN'')"

text \<open>\<^verbatim>\<open>generateEnhancedFallbackItinerary\<close>: one day, and the document. \<open>t\<close> is the clock.\<close>

definition fallback_activity ::
  "string \<Rightarrow> string \<Rightarrow> jsval \<Rightarrow> string \<Rightarrow> string \<Rightarrow> string \<Rightarrow> jsval" where
  "fallback_activity time activity location description estimatedCost duration =
     JObject [(''time'', JString time), (''activity'', JString activity), (''location'', location),
              (''description'', JString description), (''estimatedCost'', JString estimatedCost),
              (''duration'', JString duration)]"

definition fallback_meal ::
  "string \<Rightarrow> jsval \<Rightarrow> string \<Rightarrow> string \<Rightarrow> string \<Rightarrow> string \<Rightarrow> string \<Rightarrow> string \<Rightarrow> jsval" where
  "fallback_meal meal location cuisine price speciality rating ambiance culturalNote =
     JObject [(''meal'', JString meal), (''restaurant'', JString (place_name location)),
              (''cuisine'', js_or (get_opt location ''cuisine'') (JString cuisine)),
              (''location'', location), (''price'', JString price),
              (''speciality'', js_or (get_opt location ''speciality'') (JString speciality)),
              (''rating'', JString rating), (''ambiance'', JString ambiance),
              (''culturalNote'', JString culturalNote)]"

definition fallback_day :: "env \<Rightarrow> nat \<Rightarrow> string \<Rightarrow> int \<Rightarrow> jsval" where
  "fallback_day E t city day =
     (let dayPlaces = getDaySpecificPlaces city day;
          morning = get_opt dayPlaces ''morning'';
          afternoon = get_opt dayPlaces ''afternoon'';
          evening = get_opt dayPlaces ''evening''
      in JObject [
           (''day'', JNumber (real_of_int day)),
           (''date'', JString (iso_date E t (day - 1))),
           (''summary'', JString (''Day '' @ show_nat (nat day) @ '': Discover the best of '' @ city)),
           (''weather'', JString ''Please check current weather conditions''),
           (''morning'', JArray [
              fallback_activity ''9:00 AM'' (''Morning exploration of '' @ place_name morning) morning
                (''Start your day exploring the vibrant '' @ place_name morning @ '' area of '' @ city)
                (rupee @ ''200-500'') ''2-3 hours'']),
           (''afternoon'', JArray [
              fallback_activity ''2:00 PM'' (''Visit '' @ place_name afternoon) afternoon
                (''Explore the must-see '' @ place_name afternoon @ '' and its cultural significance'')
                (rupee @ ''300-800'') ''3-4 hours'']),
           (''evening'', JArray [
              fallback_activity ''7:00 PM'' (''Evening at '' @ place_name evening) evening
                (''Experience the evening atmosphere and culture of '' @ place_name evening)
                (rupee @ ''400-1000'') ''2-3 hours'']),
           (''dining'', JArray [
              fallback_meal ''Breakfast'' (get_opt dayPlaces ''breakfast'') ''Local Cuisine''
                (rupee @ ''200-400'') ''Traditional breakfast items'' ''4.0/5'' ''Casual and welcoming''
                (''Experience authentic '' @ city @ '' morning dining culture''),
              fallback_meal ''Lunch'' (get_opt dayPlaces ''lunch'') ''Regional Specialties''
                (rupee @ ''400-800'') ''Local lunch specialties'' ''4.2/5'' ''Family-friendly''
                (''Try authentic '' @ city @ '' regional dishes''),
              fallback_meal ''Dinner'' (get_opt dayPlaces ''dinner'') ''Fine Dining''
                (rupee @ ''800-1500'') ''Evening specialties and local delicacies'' ''4.3/5''
                ''Elegant and sophisticated''
                (''Experience upscale '' @ city @ '' dining traditions'')])])"

definition generateEnhancedFallbackItinerary ::
  "env \<Rightarrow> nat \<Rightarrow> string \<Rightarrow> int \<Rightarrow> string \<Rightarrow> jsval \<Rightarrow> jsval" where
  "generateEnhancedFallbackItinerary E t city days budget cityConfig =
     JObject [
       (''days'', JArray (map (fallback_day E t city) [1 .. days])),
       (''summary'', JObject [
          (''totalCost'', JString (rupee @ budget)),
          (''costBreakdown'', JObject [
             (''accommodation'', JString (rupee @ rounded_share (budget_number budget) (Some 0.4))),
             (''food'', JString (rupee @ rounded_share (budget_number budget) (Some 0.25))),
             (''activities'', JString (rupee @ rounded_share (budget_number budget) (Some 0.25))),
             (''transportation'', JString (rupee @ rounded_share (budget_number budget) (Some 0.1)))]),
          (''highlights'', JArray [JString (''Explore the heart of '' @ city),
             JString ''Experience local culture and cuisine'',
             JString ''Visit top attractions and landmarks'']),
          (''tips'', JArray [JString ''Plan your visits during off-peak hours'',
             JString ''Try local transportation'',
             JString ''Keep some cash handy for local vendors'']),
          (''culturalTips'', js_or (get_opt cityConfig ''culturalTips'')
             (JArray [JString (''Respect local customs and traditions in '' @ city)])),
          (''bestTime'', js_or (get_opt cityConfig ''weatherInfo'')
             (JString (''Research the best time to visit '' @ city @
                       '' based on weather and tourist seasons''))),
          (''weatherOverview'', js_or (get_opt cityConfig ''weatherInfo'')
             (JString (''Check current weather conditions for '' @ city))),
          (''budgetingTips'', JArray [
             JString ''Book accommodations in advance for better rates'',
             JString ''Eat at local restaurants for authentic and affordable meals''])])]"

text \<open>
  \<^verbatim>\<open>ensureAllMeals(existingMeals, city)\<close>. The map built from the existing meals keeps,
  for each key, the last meal with that key.
\<close>

fun lookup_last :: "(jsval \<times> jsval) list \<Rightarrow> jsval \<Rightarrow> jsval" where
  "lookup_last [] key = JUndefined"
| "lookup_last ((k, v) # rest) key =
     (if key \<in> fst ` set rest then lookup_last rest key
      else if k = key then v else JUndefined)"

definition default_meal :: "string \<Rightarrow> string \<Rightarrow> jsval" where
  "default_meal city mealType =
     JObject [(''meal'', JString mealType),
       (''restaurant'', JString (city @ '' '' @ mealType @ '' Place'')),
       (''cuisine'', JString ''Local Cuisine''),
       (''location'', JObject [(''name'', JString (city @ '' '' @ mealType @ '' Restaurant'')),
          (''address'', JString city), (''coordinates'', JArray [JNumber 0, JNumber 0])]),
       (''price'', JString (if mealType = ''Breakfast'' then rupee @ ''200-400''
                            else if mealType = ''Lunch'' then rupee @ ''400-800''
                            else rupee @ ''600-1200'')),
       (''speciality'', JString (''Local '' @ toLowerCase mealType @ '' specialty'')),
       (''rating'', JString ''4.0/5''), (''ambiance'', JString ''Friendly and welcoming''),
       (''culturalNote'', JString (''Experience local '' @ toLowerCase mealType @ '' culture''))]"

fun array_map_source :: "jsval \<Rightarrow> error + jsval list" where
  "array_map_source (JArray xs) = Inr xs"
| "array_map_source (JArrayProps xs ps) = Inr xs"
| "array_map_source JUndefined = Inl (TypeError ''Cannot read properties of undefined'')"
| "array_map_source JNull = Inl (TypeError ''Cannot read properties of null'')"
| "array_map_source v = Inl (TypeError ''map is not a function'')"

definition ensureAllMeals :: "jsval \<Rightarrow> string \<Rightarrow> error + jsval" where
  "ensureAllMeals existingMeals city =
     thenDo (array_map_source existingMeals) (\<lambda>meals.
     thenDo (map_result (\<lambda>meal. thenDo (get meal ''meal'') (\<lambda>k. Inr (k, meal))) meals) (\<lambda>mealMap.
       Inr (JArray (map (\<lambda>mealType. js_or (lookup_last mealMap (JString mealType))
                                           (default_meal city mealType))
                        [''Breakfast'', ''Lunch'', ''Dinner'']))))"

text \<open>\<^verbatim>\<open>validateAndEnhanceItinerary\<close>: the callback of \<^verbatim>\<open>forEach\<close>, and the function.\<close>

definition validate_day :: "env \<Rightarrow> string \<Rightarrow> jsval \<Rightarrow> error + jsval" where
  "validate_day E city day =
     thenDo (get day ''dining'') (\<lambda>dining.
       if \<not> truthy dining \<or> js_lt (coerce E) (get_opt dining ''length'') 3
       then thenDo (ensureAllMeals (js_or dining (JArray [])) city) (\<lambda>meals.
              put day ''dining'' meals)
       else Inr day)"

definition validateAndEnhanceItinerary ::
  "env \<Rightarrow> nat \<Rightarrow> jsval \<Rightarrow> string \<Rightarrow> int \<Rightarrow> string \<Rightarrow> jsval \<Rightarrow> error + jsval" where
  "validateAndEnhanceItinerary E t itinerary city days budget cityConfig =
     (if \<not> truthy itinerary \<or> \<not> truthy (get_opt itinerary ''days'') \<or>
         \<not> is_array (get_opt itinerary ''days'')
      then Inr (generateEnhancedFallbackItinerary E t city days budget cityConfig)
      else
        thenDo (if \<not> truthy (get_opt itinerary ''summary'')
                then put itinerary ''summary''
                       (JObject [(''totalCost'', JString (rupee @ budget)),
                          (''highlights'', JArray [JString (''Explore '' @ city),
                             JString ''Experience local culture'', JString ''Enjoy local cuisine'']),
                          (''tips'', JArray [JString ''Plan ahead'', JString ''Stay hydrated'',
                             JString ''Respect local customs'']),
                          (''bestTime'', JString ''Year-round destination'')])
                else Inr itinerary) (\<lambda>itinerary1.
        thenDo (iterate (get_opt itinerary ''days'')) (\<lambda>ds.
        thenDo (map_result (validate_day E city) ds) (\<lambda>ds1.
          put itinerary1 ''days'' (with_elements (get_opt itinerary ''days'') ds1)))))"

text \<open>
  \<^verbatim>\<open>extractLocationNames\<close>. The set keeps the order of insertion. It compares strings,
  numbers and booleans by value; an array or an object is a member of its own, since
  every array and object read from the document is a different one.
\<close>

fun is_primitive :: "jsval \<Rightarrow> bool" where
  "is_primitive (JArray xs) = False"
| "is_primitive (JArrayProps xs ps) = False"
| "is_primitive (JObject kvs) = False"
| "is_primitive v = True"

definition add_name :: "jsval \<Rightarrow> jsval list \<Rightarrow> jsval list" where
  "add_name v names = (if is_primitive v \<and> v \<in> set names then names else names @ [v])"

definition collect_name :: "jsval \<Rightarrow> jsval list \<Rightarrow> error + jsval list" where
  "collect_name item names =
     thenDo (get item ''location'') (\<lambda>location.
       Inr (if truthy (get_opt location ''name'')
            then add_name (get_opt location ''name'') names else names))"

definition collect_day_names :: "jsval \<Rightarrow> jsval list \<Rightarrow> error + jsval list" where
  "collect_day_names day names =
     thenDo (fold_result
               (\<lambda>period acc.
                  thenDo (get day period) (\<lambda>activities.
                  thenDo (forEach_opt activities) (\<lambda>items. fold_result collect_name items acc)))
               [''morning'', ''afternoon'', ''evening''] names) (\<lambda>names1.
     thenDo (get day ''dining'') (\<lambda>dining.
     thenDo (forEach_opt dining) (\<lambda>meals. fold_result collect_name meals names1)))"

definition extractLocationNames :: "jsval \<Rightarrow> string \<Rightarrow> error + jsval list" where
  "extractLocationNames itinerary city =
     thenDo (get itinerary ''days'') (\<lambda>ds.
     thenDo (forEach_opt ds) (\<lambda>dayList.
     thenDo (fold_result collect_day_names dayList [JString city]) (\<lambda>names.
       Inr (take 20 names))))"

text \<open>
  \<^verbatim>\<open>searchRealPlaces(query, city, type)\<close>. A request to the places search is named by
  the trimmed query, the city and the type, from which the source builds its URL.
  \<open>places_results\<close> is the log line that reads \<^verbatim>\<open>data.results.length\<close> followed by
  \<^verbatim>\<open>data.results.slice(0, 5)\<close>.
\<close>

fun slice5 :: "jsval \<Rightarrow> error + jsval" where
  "slice5 (JArray xs) = Inr (JArray (take 5 xs))"
| "slice5 (JArrayProps xs ps) = Inr (JArray (take 5 xs))"
| "slice5 (JString s) = Inr (JString (take 5 s))"
| "slice5 JUndefined = Inl (TypeError ''Cannot read properties of undefined'')"
| "slice5 JNull = Inl (TypeError ''Cannot read properties of null'')"
| "slice5 v = Inl (TypeError ''slice is not a function'')"

definition places_results :: "jsval \<Rightarrow> error + jsval" where
  "places_results data =
     thenDo (get data ''results'') (\<lambda>results.
     thenDo (get results ''length'') (\<lambda>n. slice5 results))"

definition searchRealPlaces_try :: "env \<Rightarrow> jsval \<Rightarrow> string \<Rightarrow> string \<Rightarrow> jsval promise" where
  "searchRealPlaces_try E query city placeType =
     andThen (lift (string_trim query)) (\<lambda>searchQuery.
     andThen (fetch E (PlacesTextSearch searchQuery city (Some placeType))) (\<lambda>response.
       if \<not> ok response then reject (Error ''Google Places API error'')
       else
         andThen (response_json response) (\<lambda>data.
         andThen (lift (get data ''status'')) (\<lambda>st.
           if st \<noteq> JString ''OK''
           then
             (if st = JString ''ZERO_RESULTS'' \<and> placeType \<noteq> []
              then
                andThen (fetch E (PlacesTextSearch searchQuery city None)) (\<lambda>broaderResponse.
                  if ok broaderResponse
                  then
                    andThen (response_json broaderResponse) (\<lambda>broaderData.
                    andThen (lift (get broaderData ''status'')) (\<lambda>st2.
                      if st2 = JString ''OK'' then lift (places_results broaderData)
                      else reject (Error ''Google Places API status'')))
                  else reject (Error ''Google Places API status''))
              else reject (Error ''Google Places API status''))
           else lift (places_results data)))))"

definition searchRealPlaces :: "env \<Rightarrow> jsval \<Rightarrow> string \<Rightarrow> string \<Rightarrow> jsval promise" where
  "searchRealPlaces E query city placeType =
     (if \<not> configured (GOOGLE_PLACES_API_KEY E) then resolve (JArray [])
      else catch (searchRealPlaces_try E query city placeType) (\<lambda>error. resolve (JArray [])))"

definition getPlaceDetails :: "env \<Rightarrow> jsval \<Rightarrow> jsval promise" where
  "getPlaceDetails E placeId =
     (if \<not> configured (GOOGLE_PLACES_API_KEY E) then resolve JNull
      else
        catch
          (andThen (fetch E (PlacesDetails placeId)) (\<lambda>response.
             if \<not> ok response then resolve JNull
             else
               andThen (response_json response) (\<lambda>data.
               andThen (lift (get data ''result'')) (\<lambda>result. resolve (js_or result JNull)))))
          (\<lambda>error. resolve JNull))"

text \<open>
  \<^verbatim>\<open>getFallbackPlace\<close> and \<^verbatim>\<open>getFallbackRestaurant\<close>: the first entry whose key is
  part of the lower-cased name or has it as a part, else the first entry of the table.
\<close>

definition match_table :: "(string \<times> jsval) list \<Rightarrow> jsval \<Rightarrow> error + jsval" where
  "match_table table originalName =
     thenDo (string_lower originalName) (\<lambda>lower.
       case find (\<lambda>entry. includes_str lower (fst entry) \<or> includes_str (fst entry) lower) table of
         Some entry \<Rightarrow> Inr (snd entry)
       | None \<Rightarrow> (case table of [] \<Rightarrow> Inr JUndefined | entry # rest \<Rightarrow> Inr (snd entry)))"

definition getFallbackPlace :: "jsval \<Rightarrow> string \<Rightarrow> error + jsval" where
  "getFallbackPlace originalName city =
     (let cityLower = toLowerCase city in
      if cityLower = ''mumbai'' then match_table mumbaiPlaces originalName
      else if cityLower = ''delhi'' then match_table delhiPlaces originalName
      else if cityLower = ''tokyo'' then match_table tokyoPlaces originalName
      else Inr JNull)"

definition getFallbackRestaurant :: "jsval \<Rightarrow> string \<Rightarrow> error + jsval" where
  "getFallbackRestaurant originalName city =
     (let cityLower = toLowerCase city in
      if cityLower = ''mumbai'' then match_table mumbaiRestaurants originalName
      else Inr JNull)"

text \<open>
  \<^verbatim>\<open>enhanceWithRealPlaces\<close>. The location built from the best search result, the
  status added when the details list opening hours (\<open>t\<close> is the clock), and the location
  built from a fallback place.
\<close>

definition geometry_coordinate :: "jsval \<Rightarrow> string \<Rightarrow> error + jsval" where
  "geometry_coordinate bestPlace axis =
     thenDo (get bestPlace ''geometry'') (\<lambda>geometry.
     thenDo (get geometry ''location'') (\<lambda>location. get location axis))"

definition google_location :: "jsval \<Rightarrow> jsval \<Rightarrow> error + jsval" where
  "google_location bestPlace details =
     thenDo (get bestPlace ''name'') (\<lambda>nm.
     thenDo (get bestPlace ''formatted_address'') (\<lambda>address.
     thenDo (geometry_coordinate bestPlace ''lat'') (\<lambda>lat.
     thenDo (geometry_coordinate bestPlace ''lng'') (\<lambda>lng.
       Inr (JObject [(''name'', nm), (''address'', address),
              (''coordinates'', JArray [lat, lng]),
              (''placeId'', get_opt bestPlace ''place_id''),
              (''rating'', get_opt bestPlace ''rating''),
              (''userRatings'', get_opt bestPlace ''user_ratings_total''),
              (''openNow'', get_opt (get_opt details ''opening_hours'') ''open_now''),
              (''priceLevel'', get_opt details ''price_level''),
              (''types'', get_opt bestPlace ''types'')])))))"

definition with_current_status :: "env \<Rightarrow> nat \<Rightarrow> jsval \<Rightarrow> jsval \<Rightarrow> error + jsval" where
  "with_current_status E t details item =
     (let opening_hours = get_opt details ''opening_hours'';
          weekday_text = get_opt opening_hours ''weekday_text''
      in if truthy weekday_text
         then put item ''currentStatus''
                (JObject [(''openNow'', get_opt opening_hours ''open_now''),
                   (''todayHours'', js_or (element_at weekday_text (weekday E t))
                                         (JString ''Hours not available''))])
         else Inr item)"

definition fallback_location :: "jsval \<Rightarrow> jsval \<Rightarrow> jsval" where
  "fallback_location location fallbackPlace =
     JObject (put_field (put_field (put_field (put_field (spread location)
        ''name'' (get_opt fallbackPlace ''name''))
        ''address'' (get_opt fallbackPlace ''address''))
        ''coordinates'' (get_opt fallbackPlace ''coordinates''))
        ''fallback'' (JBool True))"

text \<open>The body of the loop over the activities of a period.\<close>

definition enhance_activity :: "env \<Rightarrow> string \<Rightarrow> jsval \<Rightarrow> jsval promise" where
  "enhance_activity E city activity =
     andThen (lift (get activity ''location'')) (\<lambda>location.
       if truthy (get_opt location ''name'')
       then
         andThen (searchRealPlaces E (get_opt location ''name'') city ''tourist_attraction'')
           (\<lambda>realPlaces.
              if js_gt (coerce E) (get_opt realPlaces ''length'') 0
              then
                andThen (lift (first_element realPlaces)) (\<lambda>bestPlace.
                andThen (lift (get bestPlace ''place_id'')) (\<lambda>placeId.
                andThen (getPlaceDetails E placeId) (\<lambda>details.
                andThen (lift (google_location bestPlace details)) (\<lambda>newLocation.
                andThen (lift (put activity ''location'' newLocation)) (\<lambda>activity1.
                  (\<lambda>w. lift (with_current_status E (now w) details activity1) w))))))
              else
                andThen (lift (getFallbackPlace (get_opt location ''name'') city)) (\<lambda>fallbackPlace.
                  if truthy fallbackPlace
                  then lift (put activity ''location'' (fallback_location location fallbackPlace))
                  else resolve activity))
       else resolve activity)"

text \<open>The body of the loop over the meals of a day.\<close>

definition enhance_meal :: "env \<Rightarrow> string \<Rightarrow> jsval \<Rightarrow> jsval promise" where
  "enhance_meal E city meal =
     andThen (lift (get meal ''restaurant'')) (\<lambda>restaurant.
       if truthy restaurant
       then
         andThen (searchRealPlaces E restaurant city ''restaurant'') (\<lambda>realRestaurants.
           if js_gt (coerce E) (get_opt realRestaurants ''length'') 0
           then
             andThen (lift (first_element realRestaurants)) (\<lambda>bestRestaurant.
             andThen (lift (get bestRestaurant ''place_id'')) (\<lambda>placeId.
             andThen (getPlaceDetails E placeId) (\<lambda>details.
             andThen (lift (google_location bestRestaurant details)) (\<lambda>newLocation.
             andThen (lift (put meal ''location'' newLocation)) (\<lambda>meal1.
               (\<lambda>w. lift (with_current_status E (now w) details meal1) w))))))
           else
             andThen (lift (getFallbackRestaurant restaurant city)) (\<lambda>fallbackRestaurant.
               if truthy fallbackRestaurant
               then lift (put meal ''location''
                            (fallback_location (get_opt meal ''location'') fallbackRestaurant))
               else resolve meal))
       else resolve meal)"

text \<open>
  The loop over the values of \<^verbatim>\<open>day[key]\<close> when it is truthy: the items of an array
  are replaced by what the loop body leaves; the characters of a string are visited and
  nothing is changed; any other value is not iterable.
\<close>

definition enhance_list :: "(jsval \<Rightarrow> jsval promise) \<Rightarrow> string \<Rightarrow> jsval \<Rightarrow> jsval promise" where
  "enhance_list step key day =
     andThen (lift (get day key)) (\<lambda>items.
       if truthy items
       then (case items of
               JArray xs \<Rightarrow>
                 andThen (map_promise step xs) (\<lambda>xs1. lift (put day key (JArray xs1)))
             | JArrayProps xs ps \<Rightarrow>
                 andThen (map_promise step xs) (\<lambda>xs1. lift (put day key (JArrayProps xs1 ps)))
             | JString s \<Rightarrow>
                 andThen (map_promise step (map (\<lambda>c. JString [c]) s)) (\<lambda>xs1. resolve day)
             | _ \<Rightarrow> reject (TypeError ''is not iterable''))
       else resolve day)"

definition enhance_day :: "env \<Rightarrow> string \<Rightarrow> jsval \<Rightarrow> jsval promise" where
  "enhance_day E city day =
     andThen (enhance_list (enhance_activity E city) ''morning'' day) (\<lambda>day1.
     andThen (enhance_list (enhance_activity E city) ''afternoon'' day1) (\<lambda>day2.
     andThen (enhance_list (enhance_activity E city) ''evening'' day2) (\<lambda>day3.
       enhance_list (enhance_meal E city) ''dining'' day3)))"

definition enhanceWithRealPlaces :: "env \<Rightarrow> jsval \<Rightarrow> string \<Rightarrow> jsval promise" where
  "enhanceWithRealPlaces E itinerary city =
     (if \<not> truthy (get_opt itinerary ''days'') then resolve itinerary
      else (case get_opt itinerary ''days'' of
              JArray ds \<Rightarrow>
                andThen (map_promise (enhance_day E city) ds) (\<lambda>ds1.
                  lift (put itinerary ''days'' (JArray ds1)))
            | JArrayProps ds ps \<Rightarrow>
                andThen (map_promise (enhance_day E city) ds) (\<lambda>ds1.
                  lift (put itinerary ''days'' (JArrayProps ds1 ps)))
            | JString s \<Rightarrow>
                andThen (map_promise (enhance_day E city) (map (\<lambda>c. JString [c]) s))
                  (\<lambda>ds1. resolve itinerary)
            | _ \<Rightarrow> reject (TypeError ''is not iterable'')))"

text \<open>\<^verbatim>\<open>validateRealTimeData\<close>: the warnings of one day, and the function.\<close>

definition cost_warnings :: "nat \<Rightarrow> jsval \<Rightarrow> string \<Rightarrow> string list \<Rightarrow> error + string list" where
  "cost_warnings index day period warnings =
     thenDo (forEach_opt (get_opt day period)) (\<lambda>activities.
       fold_result
         (\<lambda>activity acc.
            thenDo (get activity ''estimatedCost'') (\<lambda>estimatedCost.
            thenDo (if truthy estimatedCost then js_includes estimatedCost (rupee @ ''200-500'')
                    else Inr False) (\<lambda>generic.
              Inr (if generic
                   then acc @ [''Day '' @ show_nat (index + 1) @ '' '' @ period @
                               '' has generic pricing - should use current rates'']
                   else acc))))
         activities warnings)"

definition day_warnings :: "env \<Rightarrow> nat \<Rightarrow> nat \<Rightarrow> jsval \<Rightarrow> string list \<Rightarrow> error + string list" where
  "day_warnings E t index day warnings =
     thenDo (get day ''date'') (\<lambda>date.
     thenDo (Inr (if truthy date \<and> past_date E t date
                  then warnings @ [''Day '' @ show_nat (index + 1) @ '' has a past date: '' @
                                   display E date]
                  else warnings)) (\<lambda>warnings1.
     thenDo (if truthy (get_opt day ''weather'')
             then js_includes (get_opt day ''weather'') ''Please check current weather conditions''
             else Inr False) (\<lambda>generic.
     thenDo (Inr (if generic
                  then warnings1 @ [''Day '' @ show_nat (index + 1) @
                         '' has generic weather info - should use real-time data'']
                  else warnings1)) (\<lambda>warnings2.
       if truthy (get_opt day ''morning'') \<or> truthy (get_opt day ''afternoon'') \<or>
          truthy (get_opt day ''evening'')
       then fold_result (cost_warnings index day) [''morning'', ''afternoon'', ''evening''] warnings2
       else Inr warnings2))))"

fun days_warnings :: "env \<Rightarrow> nat \<Rightarrow> nat \<Rightarrow> jsval list \<Rightarrow> string list \<Rightarrow> error + string list" where
  "days_warnings E t index [] warnings = Inr warnings"
| "days_warnings E t index (day # rest) warnings =
     (case day_warnings E t index day warnings of
        Inl e \<Rightarrow> Inl e
      | Inr warnings1 \<Rightarrow> days_warnings E t (index + 1) rest warnings1)"

definition validateRealTimeData :: "env \<Rightarrow> nat \<Rightarrow> jsval \<Rightarrow> error + bool \<times> string list" where
  "validateRealTimeData E t itinerary =
     thenDo (get itinerary ''days'') (\<lambda>ds.
     thenDo (forEach_opt ds) (\<lambda>dayList.
     thenDo (days_warnings E t 0 dayList []) (\<lambda>warnings.
       Inr (length warnings = 0, warnings))))"

text \<open>\<^verbatim>\<open>countRealPlaces\<close>.\<close>

fun forEach_required :: "jsval \<Rightarrow> error + jsval list" where
  "forEach_required (JArray xs) = Inr xs"
| "forEach_required (JArrayProps xs ps) = Inr xs"
| "forEach_required JUndefined = Inl (TypeError ''Cannot read properties of undefined'')"
| "forEach_required JNull = Inl (TypeError ''Cannot read properties of null'')"
| "forEach_required v = Inl (TypeError ''forEach is not a function'')"

definition count_placeId :: "jsval \<Rightarrow> nat \<Rightarrow> error + nat" where
  "count_placeId item n =
     thenDo (get item ''location'') (\<lambda>location.
       Inr (if truthy (get_opt location ''placeId'') then n + 1 else n))"

definition count_day :: "jsval \<Rightarrow> nat \<Rightarrow> error + nat" where
  "count_day day n =
     thenDo (fold_result
               (\<lambda>period acc.
                  thenDo (get day period) (\<lambda>activities.
                  thenDo (forEach_opt activities) (\<lambda>items. fold_result count_placeId items acc)))
               [''morning'', ''afternoon'', ''evening''] n) (\<lambda>n1.
     thenDo (get day ''dining'') (\<lambda>dining.
     thenDo (forEach_opt dining) (\<lambda>meals. fold_result count_placeId meals n1)))"

definition countRealPlaces :: "jsval \<Rightarrow> error + nat" where
  "countRealPlaces itinerary =
     (if \<not> truthy (get_opt itinerary ''days'') then Inr 0
      else thenDo (forEach_required (get_opt itinerary ''days'')) (\<lambda>dayList.
             fold_result count_day dayList 0))"

text \<open>
  Lines 375 to 403 of \<^verbatim>\<open>route.ts\<close>: the request to the AI upstream, as the handler
  composes it. The request is named by the prompt it carries.
\<close>

definition perplexity_request :: "env \<Rightarrow> string \<Rightarrow> response promise" where
  "perplexity_request E prompt =
     retryWithBackoff
       (perplexity_execute
          (fetchWithTimeout E (PerplexityChat prompt) (Some TIMEOUTS_AI) (Some ''perplexity-api'')))
       3 2000 ''Perplexity API Call''"

text \<open>
  The same three primitives in the order the specification gives: the breaker around
  the retry loop around the timeout-bounded request. This definition follows the
  specification's words and is only compared with \<open>perplexity_request\<close>.
\<close>

definition breaker_outermost :: "env \<Rightarrow> string \<Rightarrow> response promise" where
  "breaker_outermost E prompt =
     perplexity_execute
       (retryWithBackoff
          (fetchWithTimeout E (PerplexityChat prompt) (Some TIMEOUTS_AI) (Some ''perplexity-api''))
          3 2000 ''Perplexity API Call'')"

text \<open>
  The parsing of the reply, lines 425 to 469. \<open>ai_content\<close> is the check of the
  reply's structure and the read of its content; \<^verbatim>\<open>content.match\<close> exists on strings
  only; \<open>parse_attempts\<close> is the \<^verbatim>\<open>while\<close> loop with \<open>jsonMatch\<close> holding
  \<^verbatim>\<open>jsonMatch[0]\<close>.
\<close>

definition ai_content :: "jsval \<Rightarrow> error + jsval" where
  "ai_content data =
     thenDo (get data ''choices'') (\<lambda>choices.
       if \<not> truthy choices then Inl (Error ''Invalid response structure from Perplexity API'')
       else
         thenDo (first_element choices) (\<lambda>choice.
           if \<not> truthy choice then Inl (Error ''Invalid response structure from Perplexity API'')
           else
             thenDo (get choice ''message'') (\<lambda>message.
               if \<not> truthy message
               then Inl (Error ''Invalid response structure from Perplexity API'')
               else get message ''content'')))"

fun string_match :: "jsval \<Rightarrow> atom list \<Rightarrow> error + (string \<times> string) option" where
  "string_match (JString s) atoms =
     (case match_first atoms s of None \<Rightarrow> Inr None | Some m \<Rightarrow> Inr (Some (s, m)))"
| "string_match JUndefined atoms = Inl (TypeError ''Cannot read properties of undefined'')"
| "string_match JNull atoms = Inl (TypeError ''Cannot read properties of null'')"
| "string_match v atoms = Inl (TypeError ''match is not a function'')"

function parse_attempts :: "string \<Rightarrow> string \<Rightarrow> nat \<Rightarrow> error + jsval" where
  "parse_attempts content jsonMatch parseAttempts =
     (if parseAttempts < 5
      then (case JSON_parse (clean_json jsonMatch) of
              Inr itinerary \<Rightarrow> Inr itinerary
            | Inl parseError \<Rightarrow>
                (if parseAttempts + 1 \<ge> 5
                 then Inl (Error ''Failed to parse AI response after multiple attempts'')
                 else
                   (let alternatives = match_all brace_span_lazy content
                    in parse_attempts content
                         (if parseAttempts < length alternatives
                          then alternatives ! parseAttempts else jsonMatch)
                         (parseAttempts + 1))))
      else Inr JUndefined)"
  by pat_completeness auto
termination
  by (relation "measure (\<lambda>(content, jsonMatch, parseAttempts). 5 - parseAttempts)") auto

declare parse_attempts.simps [simp del]

definition parse_reply :: "jsval \<Rightarrow> error + jsval" where
  "parse_reply data =
     thenDo (ai_content data) (\<lambda>content.
     thenDo (string_match content brace_span) (\<lambda>jsonMatch.
       case jsonMatch of
         None \<Rightarrow> Inl (Error ''No valid JSON found in AI response'')
       | Some (text, matched) \<Rightarrow> parse_attempts text matched 0))"

text \<open>The \<^verbatim>\<open>try\<close> block of lines 374 to 469: the request, the checks and the parsing.\<close>

definition ai_block :: "env \<Rightarrow> string \<Rightarrow> jsval promise" where
  "ai_block E prompt =
     andThen (perplexity_request E prompt) (\<lambda>response.
       if \<not> ok response
       then reject (Error (''Perplexity API error: '' @ show_nat (status response)))
       else
         andThen (catch (response_json response)
                    (\<lambda>e. reject (Error ''Invalid JSON response from Perplexity API'')))
           (\<lambda>data. lift (parse_reply data)))"

text \<open>
  The prompt. Its fixed text is left out: a request to the AI upstream is named by the
  parts of the prompt that vary with the request. \<^verbatim>\<open>cityConfig.culturalTips.join\<close>
  throws when the configuration has no such list.
\<close>

fun array_join :: "(jsval \<Rightarrow> string) \<Rightarrow> jsval \<Rightarrow> string \<Rightarrow> error + string" where
  "array_join shown (JArray xs) separator =
     Inr (concat (map (\<lambda>i. (if i = 0 then [] else separator) @
                           (case xs ! i of JString s \<Rightarrow> s | JNull \<Rightarrow> [] | JUndefined \<Rightarrow> []
                            | v \<Rightarrow> shown v))
                      [0 ..< length xs]))"
| "array_join shown (JArrayProps xs ps) separator =
     Inr (concat (map (\<lambda>i. (if i = 0 then [] else separator) @
                           (case xs ! i of JString s \<Rightarrow> s | JNull \<Rightarrow> [] | JUndefined \<Rightarrow> []
                            | v \<Rightarrow> shown v))
                      [0 ..< length xs]))"
| "array_join shown JUndefined separator = Inl (TypeError ''Cannot read properties of undefined'')"
| "array_join shown JNull separator = Inl (TypeError ''Cannot read properties of null'')"
| "array_join shown v separator = Inl (TypeError ''join is not a function'')"

definition number_of :: "jsval \<Rightarrow> real option" where
  "number_of v = (case v of JNumber n \<Rightarrow> Some n | _ \<Rightarrow> None)"

definition build_prompt ::
  "env \<Rightarrow> string \<Rightarrow> string \<Rightarrow> int \<Rightarrow> string list option \<Rightarrow> bool \<Rightarrow> bool \<Rightarrow> jsval \<Rightarrow> error + string" where
  "build_prompt E city budget days interests includeWeather includeCulturalTips cityConfig =
     (let adjustedBudget =
            (if truthy cityConfig
             then rounded_share (budget_number budget)
                    (number_of (get_opt cityConfig ''budgetMultiplier''))
             else budget);
          interestsText =
            (case interests of
               None \<Rightarrow> []
             | Some xs \<Rightarrow>
                 (if length xs > 0
                  then '' with interests in: '' @
                       concat (map (\<lambda>i. (if i = 0 then [] else '', '') @ xs ! i) [0 ..< length xs])
                  else []))
      in thenDo (if includeCulturalTips \<and> truthy cityConfig
                 then array_join (display E) (get_opt cityConfig ''culturalTips'') [CHR 0x0A]
                 else Inr []) (\<lambda>culturalTipsText.
           Inr (display E (JNumber (real_of_int days)) @ ''|'' @ city @ ''|'' @ adjustedBudget @
                interestsText @ ''|'' @ culturalTipsText @ ''|'' @
                (if includeWeather \<and> truthy cityConfig
                 then (case get_opt cityConfig ''weatherInfo'' of
                         JString s \<Rightarrow> s | v \<Rightarrow> display E v)
                 else []))))"

text \<open>
  The response of the handler; \<^verbatim>\<open>Promise.race\<close> of a promise against a timer that
  rejects (a promise that settles at the very time of the timer was started first and
  wins); and the \<^verbatim>\<open>catch\<close> blocks of the image step, which attach the curated image
  of the city when there is one.
\<close>

record http_response =
  http_status :: nat
  payload :: jsval

definition race :: "'a promise \<Rightarrow> nat \<Rightarrow> string \<Rightarrow> 'a promise" where
  "race m timeout operation w =
     (case m w of
        (r, w1) \<Rightarrow>
          (if now w1 \<le> now w + timer_delay timeout then (r, w1)
           else (Inl (TimeoutError operation timeout),
                 w1\<lparr>now := now w + timer_delay timeout\<rparr>)))"

definition fallback_images :: "string \<Rightarrow> (string \<times> jsval) list" where
  "fallback_images city =
     (let fallbackImage = getFallbackCityImage city
      in if truthy fallbackImage then assign_key [] city fallbackImage else [])"

definition bad_request :: "string \<Rightarrow> http_response" where
  "bad_request message = \<lparr>http_status = 400, payload = JObject [(''error'', JString message)]\<rparr>"

text \<open>
  The branch of the handler taken when no credential for the AI upstream is configured.
  Of the metadata, the time stamp and the request identifier are left out.
\<close>

definition respond_without_ai ::
  "env \<Rightarrow> nat \<Rightarrow> string \<Rightarrow> string \<Rightarrow> int \<Rightarrow> string \<Rightarrow> jsval \<Rightarrow> http_response promise" where
  "respond_without_ai E startTime city budget days imageSize cityConfig w =
     (let fallbackItinerary = generateEnhancedFallbackItinerary E (now w) city days budget cityConfig
      in andThen (lift (extractLocationNames fallbackItinerary city)) (\<lambda>locationNames.
         andThen (catch (fetchDiverseLocationImages E locationNames imageSize)
                    (\<lambda>imageError. resolve (fallback_images city))) (\<lambda>locationImages.
           (\<lambda>w1. resolve
              \<lparr>http_status = 200,
               payload = JObject
                 (put_field (put_field (spread fallbackItinerary)
                    ''locationImages'' (JObject locationImages))
                    ''metadata''
                    (JObject [(''processingTime'', JNumber (real (now w1 - startTime))),
                       (''aiModel'', JString ''fallback-enhanced''),
                       (''imageCount'', JNumber (real (length locationImages))),
                       (''cityConfig'', JString (if truthy cityConfig then ''enhanced''
                                                 else ''standard'')),
                       (''version'', JString ''2.0.0-fallback''),
                       (''note'', JString ''Generated using fallback due to API configuration'')]))\<rparr>
              w1))) w)"

text \<open>
  The \<^verbatim>\<open>try\<close> and \<^verbatim>\<open>catch\<close> of lines 374 to 484: the itinerary of the AI, or on any
  error the generated one, with the reason in its metadata.
\<close>

definition ai_or_fallback ::
  "env \<Rightarrow> string \<Rightarrow> string \<Rightarrow> int \<Rightarrow> string \<Rightarrow> jsval \<Rightarrow> jsval promise" where
  "ai_or_fallback E prompt city days budget cityConfig =
     catch (ai_block E prompt)
       (\<lambda>aiError w.
          (let itinerary = generateEnhancedFallbackItinerary E (now w) city days budget cityConfig
           in lift (if truthy itinerary \<and> \<not> truthy (get_opt itinerary ''metadata'')
                    then put itinerary ''metadata''
                           (JObject [(''fallbackReason'',
                              JString (if instanceof_Error aiError then error_message aiError
                                       else ''AI service error''))])
                    else Inr itinerary) w))"

text \<open>The rest of the handler once a credential is configured.\<close>

definition respond_with_ai ::
  "env \<Rightarrow> nat \<Rightarrow> string \<Rightarrow> string \<Rightarrow> int \<Rightarrow> string list option \<Rightarrow> bool \<Rightarrow> bool \<Rightarrow> string \<Rightarrow> jsval \<Rightarrow>
   http_response promise" where
  "respond_with_ai E startTime city budget days interests includeWeather includeCulturalTips
     imageSize cityConfig =
     andThen (lift (build_prompt E city budget days interests includeWeather includeCulturalTips
                      cityConfig)) (\<lambda>prompt.
     andThen (ai_or_fallback E prompt city days budget cityConfig) (\<lambda>itinerary.
     andThen (\<lambda>w. lift (validateAndEnhanceItinerary E (now w) itinerary city days budget cityConfig) w)
       (\<lambda>itinerary1.
     andThen (enhanceWithRealPlaces E itinerary1 city) (\<lambda>itinerary2.
     andThen (\<lambda>w. lift (validateRealTimeData E (now w) itinerary2) w) (\<lambda>realTimeValidation.
     andThen (lift (extractLocationNames itinerary2 city)) (\<lambda>locationNames.
     andThen (catch (race (fetchDiverseLocationImages E locationNames imageSize) TIMEOUTS_IMAGES
                       ''image-fetch'')
                (\<lambda>imageError. resolve (fallback_images city))) (\<lambda>locationImages.
     andThen (lift (countRealPlaces itinerary2)) (\<lambda>realPlacesCount.
       (\<lambda>w1. resolve
          \<lparr>http_status = 200,
           payload = JObject
             (put_field (put_field (spread itinerary2)
                ''locationImages'' (JObject locationImages))
                ''metadata''
                (JObject [(''processingTime'', JNumber (real (now w1 - startTime))),
                   (''aiModel'', JString ''llama-3.1-sonar-small-128k-online''),
                   (''imageCount'', JNumber (real (length locationImages))),
                   (''cityConfig'', JString (if truthy cityConfig then ''enhanced''
                                             else ''standard'')),
                   (''version'', JString ''2.0.0''),
                   (''realTimeData'', JObject [(''validated'', JBool (fst realTimeValidation)),
                      (''warnings'', JArray (map JString (snd realTimeValidation))),
                      (''dataFreshness'', JString ''real-time'')]),
                   (''googlePlaces'', JObject [(''enhanced'', JBool True),
                      (''realPlacesCount'', JNumber (real realPlacesCount)),
                      (''currentStatus'', JBool True)])]))\<rparr>
          w1)))))))))"

text \<open>The outer \<^verbatim>\<open>try\<close> block of the handler, from the validation of the input on.\<close>

definition handle ::
  "env \<Rightarrow> string \<Rightarrow> string \<Rightarrow> int \<Rightarrow> string list option \<Rightarrow> bool \<Rightarrow> bool \<Rightarrow> string \<Rightarrow>
   http_response promise" where
  "handle E city budget days interests includeWeather includeCulturalTips imageSize w =
     (if city = [] \<or> budget = [] \<or> days = 0
      then resolve (bad_request ''Missing required fields: city, budget, days'') w
      else if days < 1 \<or> days > 14
      then resolve (bad_request ''Days must be between 1 and 14'') w
      else
        (let cityConfig = CITY_CONFIGS (toLowerCase city) in
         if \<not> configured (PERPLEXITY_API_KEY E)
         then respond_without_ai E (now w) city budget days imageSize cityConfig w
         else respond_with_ai E (now w) city budget days interests includeWeather
                includeCulturalTips imageSize cityConfig w))"

text \<open>
  The request, as the handler destructures it (the two flags default to true and the
  image size to \<^verbatim>\<open>medium\<close>), and \<^verbatim>\<open>POST\<close> from the parsed request on: the outer
  \<^verbatim>\<open>catch\<close> turns every error into a response with status 408 or 500. Of the error
  responses, the time stamp, the request identifier and the processing time are left
  out; the message of a \<open>TypeError\<close> is the platform's, which also names the property
  that was read.
\<close>

record ItineraryRequest =
  city :: string
  budget :: string
  days :: int
  interests :: "string list option"
  includeWeather :: bool
  includeCulturalTips :: bool
  imageSize :: string

definition POST :: "env \<Rightarrow> ItineraryRequest \<Rightarrow> world \<Rightarrow> http_response \<times> world" where
  "POST E request w =
     (case handle E (city request) (budget request) (days request) (interests request)
             (includeWeather request) (includeCulturalTips request) (imageSize request) w of
        (Inr r, w1) \<Rightarrow> (r, w1)
      | (Inl error, w1) \<Rightarrow>
          (\<lparr>http_status = (if instanceof_TimeoutError error then 408 else 500),
            payload = JObject
              [(''error'', JString (if instanceof_Error error then error_message error
                                    else ''Internal server error'')),
               (''type'', JString (if instanceof_TimeoutError error then ''timeout''
                                   else ''general''))]\<rparr>, w1))"

section \<open>Calls one after another, and what a retry loop leaves in the trace\<close>

text \<open>
  The states a breaker can be in between two calls of \<^verbatim>\<open>execute\<close>, when every call
  settles before the next one starts: the state after the constructor, and the state a
  call that was let through leaves when its operation succeeds or fails. A rejected
  call leaves the breaker as it was.
\<close>

inductive reachable :: "CircuitBreaker \<Rightarrow> bool" where
  fresh: "reachable (new_CircuitBreaker threshold reset nm)"
| succeeded: "reachable cb \<Longrightarrow> admit t cb = Inr cb1 \<Longrightarrow> reachable (onSuccess cb1)"
| failed: "reachable cb \<Longrightarrow> admit t cb = Inr cb1 \<Longrightarrow> reachable (onFailure t' cb1)"

text \<open>Awaiting \<^verbatim>\<open>execute\<close> on each operation of a list in turn, whatever each call returns.\<close>

fun execute_each :: "CircuitBreaker \<Rightarrow> 'a promise list \<Rightarrow> world \<Rightarrow> CircuitBreaker \<times> world" where
  "execute_each cb [] w = (cb, w)"
| "execute_each cb (operation # rest) w =
     (case execute cb operation w of (r, cb1, w1) \<Rightarrow> execute_each cb1 rest w1)"

text \<open>The events of a trace that retry loops write: attempt markers and backoff delays.\<close>

definition retry_events :: "event list \<Rightarrow> event list" where
  "retry_events tr =
     filter (\<lambda>e. case e of Attempt n k m \<Rightarrow> True | Sleep d \<Rightarrow> True | _ \<Rightarrow> False) tr"

text \<open>
  The retry loop in the words of the specification: the first attempt starts at once, and
  while the attempts fail, attempt \<open>k + 1\<close> starts once attempt \<open>k\<close> has failed and a
  delay of \<open>b * 2 ^ (k - 1)\<close> has been waited. \<open>attempt_start operation N b nm w k\<close> is
  the world in which the \<open>k\<close>-th invocation of the operation then starts, from the
  world \<open>w\<close> of the call. This definition follows the specification and is only compared
  with \<open>retryWithBackoff\<close>.
\<close>

fun attempt_start :: "'a promise \<Rightarrow> nat \<Rightarrow> nat \<Rightarrow> string \<Rightarrow> world \<Rightarrow> nat \<Rightarrow> world" where
  "attempt_start operation N b nm w 0 = w"
| "attempt_start operation N b nm w (Suc 0) = emit (Attempt nm 1 N) w"
| "attempt_start operation N b nm w (Suc (Suc k)) =
     emit (Attempt nm (Suc (Suc k)) N)
       (sleep (b * 2 ^ k) (snd (operation (attempt_start operation N b nm w (Suc k)))))"

text \<open>
  In the same words, the attempt on which the loop ends: attempt \<open>m\<close> of the \<open>N\<close>, when
  the attempts before it have failed and it is the last one allowed or it succeeds.
\<close>

definition last_attempt :: "'a promise \<Rightarrow> nat \<Rightarrow> nat \<Rightarrow> string \<Rightarrow> world \<Rightarrow> nat \<Rightarrow> bool" where
  "last_attempt operation N b nm w m =
     (1 \<le> m \<and> m \<le> N \<and>
      (\<forall>k \<in> {1 ..< m}. isl (fst (operation (attempt_start operation N b nm w k)))) \<and>
      (m = N \<or> \<not> isl (fst (operation (attempt_start operation N b nm w m)))))"

text \<open>
  Calls of \<^verbatim>\<open>execute\<close> that overlap share the breaker: each call runs the opening
  block of \<^verbatim>\<open>execute\<close> when it is made, and one of the two hooks when its operation
  settles; between the two, the steps of the other calls run. \<open>Enter t\<close> is the opening
  block of a call made at clock \<open>t\<close> (a call that it rejects changes nothing),
  \<open>Succeeds\<close> and \<open>Fails t\<close> are the hooks of a call whose operation settles, the latter
  at clock \<open>t\<close>.
\<close>

datatype breaker_step = Enter nat | Succeeds | Fails nat

fun after_step :: "CircuitBreaker \<Rightarrow> breaker_step \<Rightarrow> CircuitBreaker" where
  "after_step cb (Enter t) = (case admit t cb of Inl error \<Rightarrow> cb | Inr cb1 \<Rightarrow> cb1)"
| "after_step cb Succeeds = onSuccess cb"
| "after_step cb (Fails t) = onFailure t cb"

section \<open>Environments used as concrete inputs\<close>

text \<open>No credential is configured and every request fails after 40 ms.\<close>

definition dead :: env where
  "dead = \<lparr>PEXELS_API_KEY = None, PERPLEXITY_API_KEY = None, GOOGLE_PLACES_API_KEY = None,
           network = (\<lambda>n r. \<lparr>latency = 40, settles = Inl ''fetch failed''\<rparr>),
           random = (\<lambda>n. 0), coerce = (\<lambda>v. None),
           display = (\<lambda>v. []), iso_date = (\<lambda>t k. []), past_date = (\<lambda>t v. False),
           weekday = (\<lambda>t. 0)\<rparr>"

text \<open>Every request is answered with status 200 and no readable body after 9 seconds.\<close>

definition slow :: env where
  "slow = \<lparr>PEXELS_API_KEY = None, PERPLEXITY_API_KEY = None, GOOGLE_PLACES_API_KEY = None,
           network = (\<lambda>n r. \<lparr>latency = 9000, settles = Inr \<lparr>status = 200, body = None\<rparr>\<rparr>),
           random = (\<lambda>n. 0), coerce = (\<lambda>v. None),
           display = (\<lambda>v. []), iso_date = (\<lambda>t k. []), past_date = (\<lambda>t v. False),
           weekday = (\<lambda>t. 0)\<rparr>"

text \<open>The same upstreams with a key for the image service configured.\<close>

definition slow_keyed :: env where
  "slow_keyed = slow\<lparr>PEXELS_API_KEY := Some ''key''\<rparr>"

text \<open>
  An image service with a key configured that fails and then recovers: its first five
  requests fail after 40 milliseconds, the next four are answered after 10 milliseconds
  with status 200 and no readable body, and every later request fails after 40
  milliseconds.
\<close>

definition recovering :: env where
  "recovering = slow\<lparr>PEXELS_API_KEY := Some ''key'',
     network := \<lambda>n r. if n < 5 \<or> 9 \<le> n then \<lparr>latency = 40, settles = Inl ''fetch failed''\<rparr>
                      else \<lparr>latency = 10, settles = Inr \<lparr>status = 200, body = None\<rparr>\<rparr>\<rparr>"

text \<open>
  The request \<^verbatim>\<open>{city: "Mumbai", budget: "50000", days: 2, interests: []}\<close>, with
  the defaults of the fields it leaves out.
\<close>

definition mumbai_request :: ItineraryRequest where
  "mumbai_request = \<lparr>city = ''Mumbai'', budget = ''50000'', days = 2, interests = Some [],
          includeWeather = True, includeCulturalTips = True, imageSize = ''medium''\<rparr>"

text \<open>
  The body of a reply of the AI upstream with the given content, and an environment in
  which the AI upstream answers every request with that reply after 900 ms, with a
  credential for it configured and nothing else available.
\<close>

definition ai_reply :: "string \<Rightarrow> jsval" where
  "ai_reply content =
     JObject [(''choices'', JArray [JObject [(''message'', JObject [(''content'', JString content)])]])]"

definition ai_says :: "string \<Rightarrow> env" where
  "ai_says content =
     dead\<lparr>PERPLEXITY_API_KEY := Some ''key'',
          network := (\<lambda>n r. case r of
             PerplexityChat p \<Rightarrow>
               \<lparr>latency = 900, settles = Inr \<lparr>status = 200, body = Some (ai_reply content)\<rparr>\<rparr>
           | _ \<Rightarrow> \<lparr>latency = 40, settles = Inl ''fetch failed''\<rparr>)\<rparr>"

text \<open>
  The same request for the city \<^verbatim>\<open>constructor\<close>; and a reply of the AI upstream with
  one day for a request of two, whose three dining entries are all labelled Brunch.
\<close>

definition constructor_request :: ItineraryRequest where
  "constructor_request = mumbai_request\<lparr>city := ''constructor''\<rparr>"

definition brunch_reply :: string where
  \<open>brunch_reply = ''{"days":[{"dining":[{"meal":"Brunch"},{"meal":"Brunch"},{"meal":"Brunch"}]}]}''\<close>

definition brunch_day :: jsval where
  "brunch_day = JObject [(''dining'', JArray [JObject [(''meal'', JString ''Brunch'')],
                   JObject [(''meal'', JString ''Brunch'')], JObject [(''meal'', JString ''Brunch'')]])]"


section \<open>What is read off a returned document\<close>

text \<open>
  The elements of an array; the meal labels of the dining entries of a day, in their
  order, as the JSON text of the response has them (an array is written with its
  elements only, so a day that is an array has no dining entries); the three labels
  \<^verbatim>\<open>ensureAllMeals\<close> requires; the test of \<^verbatim>\<open>validateAndEnhanceItinerary\<close> on a
  day, \<^verbatim>\<open>!day.dining || day.dining.length < 3\<close>; the labels a day of the reply of the
  AI upstream has after that function; the days of the parsed reply when the function
  keeps them (\<^verbatim>\<open>itinerary.days\<close> is an array); and the labels of the days of the
  response.
\<close>

fun elements :: "jsval \<Rightarrow> jsval list" where
  "elements (JArray xs) = xs"
| "elements (JArrayProps xs ps) = xs"
| "elements v = []"

definition three_meals :: "jsval list" where
  "three_meals = [JString ''Breakfast'', JString ''Lunch'', JString ''Dinner'']"

definition meal_labels :: "jsval \<Rightarrow> jsval list" where
  "meal_labels day =
     (if is_array day then []
      else map (\<lambda>meal. get_opt meal ''meal'') (elements (get_opt day ''dining'')))"

definition lacks_meals :: "env \<Rightarrow> jsval \<Rightarrow> bool" where
  "lacks_meals E day =
     (\<not> truthy (get_opt day ''dining'') \<or>
      js_lt (coerce E) (get_opt (get_opt day ''dining'') ''length'') 3)"

definition repaired_labels :: "env \<Rightarrow> jsval \<Rightarrow> jsval list" where
  "repaired_labels E day =
     (if is_array day then []
      else if lacks_meals E day then three_meals
      else meal_labels day)"

definition ai_days :: "error + jsval \<Rightarrow> jsval list option" where
  "ai_days r =
     (case r of
        Inl e \<Rightarrow> None
      | Inr itinerary \<Rightarrow>
          (if is_array (get_opt itinerary ''days'')
           then Some (elements (get_opt itinerary ''days'')) else None))"

definition returned_labels :: "env \<Rightarrow> ItineraryRequest \<Rightarrow> world \<Rightarrow> jsval list list" where
  "returned_labels E request w =
     map meal_labels (elements (get_opt (payload (fst (POST E request w))) ''days''))"

text \<open>
  The shape of the days that \<^verbatim>\<open>generateEnhancedFallbackItinerary\<close> builds, as far as
  the later steps of the handler read it. A day is sound when it is an object whose
  weather is a string, whose three periods are arrays of objects with a string as
  estimated cost and a location whose name is a string or falsy, and whose dining is an
  array of objects whose restaurant is a string or falsy. A day is plain when the same
  holds without the conditions on the names.
\<close>

fun is_object :: "jsval \<Rightarrow> bool" where
  "is_object (JObject kvs) = True"
| "is_object v = False"

fun is_string :: "jsval \<Rightarrow> bool" where
  "is_string (JString s) = True"
| "is_string v = False"

definition name_ok :: "jsval \<Rightarrow> bool" where
  "name_ok v = (is_string v \<or> \<not> truthy v)"

definition plain_activity :: "jsval \<Rightarrow> bool" where
  "plain_activity x = (is_object x \<and> is_string (get_opt x ''estimatedCost''))"

definition sound_activity :: "jsval \<Rightarrow> bool" where
  "sound_activity x = (plain_activity x \<and> name_ok (get_opt (get_opt x ''location'') ''name''))"

definition sound_meal :: "jsval \<Rightarrow> bool" where
  "sound_meal x = (is_object x \<and> name_ok (get_opt x ''restaurant''))"

definition plain_day :: "jsval \<Rightarrow> bool" where
  "plain_day d =
     (is_object d \<and> is_string (get_opt d ''weather'') \<and>
      (\<forall>period \<in> set [''morning'', ''afternoon'', ''evening''].
         is_array (get_opt d period) \<and> list_all plain_activity (elements (get_opt d period))) \<and>
      is_array (get_opt d ''dining'') \<and> list_all is_object (elements (get_opt d ''dining'')))"

definition sound_day :: "jsval \<Rightarrow> bool" where
  "sound_day d =
     (is_object d \<and> is_string (get_opt d ''weather'') \<and>
      (\<forall>period \<in> set [''morning'', ''afternoon'', ''evening''].
         is_array (get_opt d period) \<and> list_all sound_activity (elements (get_opt d period))) \<and>
      is_array (get_opt d ''dining'') \<and> list_all sound_meal (elements (get_opt d ''dining'')))"

section \<open>The delay of a timer\<close>

lemma timer_delay_in_range [simp]:
  "1 \<le> d \<Longrightarrow> d \<le> 2147483647 \<Longrightarrow> timer_delay d = d"
  by (simp add: timer_delay_def)

lemma timer_delay_out_of_range:
  "d < 1 \<or> 2147483647 < d \<Longrightarrow> timer_delay d = 1"
  by (simp add: timer_delay_def)

lemma timer_delay_TIMEOUTS [simp]:
  "timer_delay TIMEOUTS_GLOBAL = TIMEOUTS_GLOBAL" "timer_delay TIMEOUTS_AI = TIMEOUTS_AI"
  "timer_delay TIMEOUTS_IMAGES = TIMEOUTS_IMAGES" "timer_delay TIMEOUTS_PEXELS = TIMEOUTS_PEXELS"
  "timer_delay TIMEOUTS_FALLBACK = TIMEOUTS_FALLBACK"
  by (simp_all add: timer_delay_def TIMEOUTS_GLOBAL_def TIMEOUTS_AI_def TIMEOUTS_IMAGES_def
        TIMEOUTS_PEXELS_def TIMEOUTS_FALLBACK_def)

section \<open>Properties of retryWithBackoff\<close>

lemma retry_loop_fail_step:
  "attempt < N \<Longrightarrow> operation (emit (Attempt nm attempt N) w) = (Inl e, w1) \<Longrightarrow>
   retry_loop operation N b nm attempt le w =
   retry_loop operation N b nm (attempt + 1) (Some e) (sleep (b * 2 ^ (attempt - 1)) w1)"
  by (subst retry_loop.simps) simp

lemma retry_loop_last:
  "attempt = N \<Longrightarrow> operation (emit (Attempt nm attempt N) w) = (Inl e, w1) \<Longrightarrow>
   retry_loop operation N b nm attempt le w = (Inl e, w1)"
  by (subst retry_loop.simps) simp

lemma retry_loop_success:
  "attempt \<le> N \<Longrightarrow> operation (emit (Attempt nm attempt N) w) = (Inr v, w1) \<Longrightarrow>
   retry_loop operation N b nm attempt le w = (Inr v, w1)"
  by (subst retry_loop.simps) simp

lemma attempt_start_Suc:
  "1 \<le> k \<Longrightarrow> attempt_start operation N b nm w (Suc k) =
     emit (Attempt nm (Suc k) N)
       (sleep (b * 2 ^ (k - 1)) (snd (operation (attempt_start operation N b nm w k))))"
  by (cases k) simp_all

lemma retry_loop_schedule:
  assumes later: "\<forall>j. k \<le> j \<and> j < m \<longrightarrow> isl (fst (operation (attempt_start operation N b nm w j)))"
      and ends: "m = N \<or> \<not> isl (fst (operation (attempt_start operation N b nm w m)))"
      and m: "m \<le> N"
  shows "1 \<le> k \<Longrightarrow> k \<le> m \<Longrightarrow> m - k = n \<Longrightarrow>
         emit (Attempt nm k N) wk = attempt_start operation N b nm w k \<Longrightarrow>
         retry_loop operation N b nm k le wk = operation (attempt_start operation N b nm w m)"
  using later
proof (induction n arbitrary: k le wk)
  case 0
  then have eq: "k = m" by simp
  obtain r w1 where op: "operation (attempt_start operation N b nm w m) = (r, w1)"
    by (cases "operation (attempt_start operation N b nm w m)")
  show ?case
  proof (cases r)
    case (Inr v)
    then show ?thesis using op 0 m eq by (simp add: retry_loop_success)
  next
    case (Inl e)
    then have "m = N" using ends op by simp
    then show ?thesis using op 0 eq Inl by (simp add: retry_loop_last)
  qed
next
  case (Suc n)
  then have lt: "k < m" by simp
  then have "isl (fst (operation (attempt_start operation N b nm w k)))" using Suc.prems by simp
  then obtain e w1 where op: "operation (attempt_start operation N b nm w k) = (Inl e, w1)"
    by (cases "operation (attempt_start operation N b nm w k)") (auto simp: isl_def)
  have step: "retry_loop operation N b nm k le wk =
              retry_loop operation N b nm (k + 1) (Some e) (sleep (b * 2 ^ (k - 1)) w1)"
    using lt m op Suc.prems(4) by (intro retry_loop_fail_step) simp_all
  have nxt: "emit (Attempt nm (k + 1) N) (sleep (b * 2 ^ (k - 1)) w1) =
             attempt_start operation N b nm w (k + 1)"
    using Suc.prems(1) op by (simp add: attempt_start_Suc)
  have "retry_loop operation N b nm (k + 1) (Some e) (sleep (b * 2 ^ (k - 1)) w1) =
        operation (attempt_start operation N b nm w m)"
    using Suc.prems lt by (intro Suc.IH nxt) simp_all
  with step show ?case by simp
qed

lemma retryWithBackoff_schedule:
  assumes "last_attempt operation N b nm w m"
  shows "retryWithBackoff operation N b nm w = operation (attempt_start operation N b nm w m)"
proof -
  have k1: "attempt_start operation N b nm w 1 = emit (Attempt nm 1 N) w" by simp
  show ?thesis
    unfolding retryWithBackoff_def
    using assms
    by (intro retry_loop_schedule[where n = "m - 1"]) (simp_all add: last_attempt_def k1)
qed

lemma last_attempt_failing:
  assumes "last_attempt operation N b nm w m" "1 \<le> k" "k < m"
  shows "\<exists>e w1. operation (attempt_start operation N b nm w k) = (Inl e, w1)"
proof -
  have "isl (fst (operation (attempt_start operation N b nm w k)))"
    using assms by (simp add: last_attempt_def)
  then show ?thesis
    by (cases "operation (attempt_start operation N b nm w k)") (auto simp: isl_def)
qed

lemma attempt_start_count:
  assumes op: "\<And>w. c (snd (operation w)) = c w + 1"
      and em: "\<And>ev w. c (emit ev w) = c w" and sl: "\<And>d w. c (sleep d w) = c w"
  shows "1 \<le> k \<Longrightarrow> c (attempt_start operation N b nm w k) + 1 = c w + k"
proof (induction k)
  case 0
  then show ?case by simp
next
  case (Suc k)
  show ?case
  proof (cases "k = 0")
    case True
    then show ?thesis by (simp add: em)
  next
    case False
    then have "c (attempt_start operation N b nm w k) + 1 = c w + k" using Suc.IH by simp
    then show ?thesis using False by (simp add: attempt_start_Suc em sl op)
  qed
qed

lemma attempt_start_now:
  assumes op: "\<And>w. now (snd (operation w)) = now w + dur"
  shows "1 \<le> k \<Longrightarrow> now (attempt_start operation N b nm w k) + dur =
           now w + k * dur + sum_list (map (\<lambda>j. timer_delay (b * 2 ^ (j - 2))) [2 ..< k + 1])"
proof (induction k)
  case 0
  then show ?case by simp
next
  case (Suc k)
  show ?case
  proof (cases "k = 0")
    case True
    then show ?thesis by (simp add: emit_def)
  next
    case False
    then have ih: "now (attempt_start operation N b nm w k) + dur =
           now w + k * dur + sum_list (map (\<lambda>j. timer_delay (b * 2 ^ (j - 2))) [2 ..< k + 1])"
      using Suc.IH by simp
    have k2: "Suc k - 2 = k - 1" by simp
    show ?thesis using False ih
      by (simp add: attempt_start_Suc emit_def sleep_def op k2)
  qed
qed

lemma retry_events_append:
  "retry_events (xs @ ys) = retry_events xs @ retry_events ys"
  by (simp add: retry_events_def)

lemma attempt_start_events:
  assumes quiet: "\<And>w. retry_events (trace (snd (operation w))) = retry_events (trace w)"
  shows "1 \<le> k \<Longrightarrow> retry_events (trace (attempt_start operation N b nm w k)) =
           retry_events (trace w) @
           concat (map (\<lambda>j. (if j = 1 then [] else [Sleep (b * 2 ^ (j - 2))]) @ [Attempt nm j N])
                       [1 ..< k + 1])"
proof (induction k)
  case 0
  then show ?case by simp
next
  case (Suc k)
  show ?case
  proof (cases "k = 0")
    case True
    then show ?thesis by (simp add: emit_def retry_events_def)
  next
    case False
    then have ih: "retry_events (trace (attempt_start operation N b nm w k)) =
           retry_events (trace w) @
           concat (map (\<lambda>j. (if j = 1 then [] else [Sleep (b * 2 ^ (j - 2))]) @ [Attempt nm j N])
                       [1 ..< k + 1])"
      using Suc.IH by simp
    have k2: "Suc k - 2 = k - 1" by simp
    have tr: "trace (attempt_start operation N b nm w (Suc k)) =
              trace (snd (operation (attempt_start operation N b nm w k))) @
              [Sleep (b * 2 ^ (k - 1)), Attempt nm (Suc k) N]"
      using False by (simp add: attempt_start_Suc emit_def sleep_def)
    show ?thesis using False
      by (simp add: tr retry_events_append quiet ih k2) (simp add: retry_events_def)
  qed
qed

lemma backoff_sum:
  "1 \<le> b \<Longrightarrow> 1 \<le> m \<Longrightarrow> b * 2 ^ (m - 2) \<le> 2147483647 \<Longrightarrow>
   sum_list (map (\<lambda>j. timer_delay (b * 2 ^ (j - 2))) [2 ..< m + 1]) + b = b * 2 ^ (m - 1)"
proof (induction m)
  case 0
  then show ?case by simp
next
  case (Suc m)
  show ?case
  proof (cases "m = 0")
    case True
    then show ?thesis by simp
  next
    case False
    then obtain i where i: "m = Suc i" by (cases m) auto
    have "(2::nat) ^ (m - 2) \<le> 2 ^ (Suc m - 2)"
      by (rule power_increasing) simp_all
    then have "b * 2 ^ (m - 2) \<le> b * 2 ^ (Suc m - 2)"
      by (rule mult_le_mono2)
    then have le: "b * 2 ^ (m - 2) \<le> 2147483647" using Suc.prems(3) by (rule le_trans)
    have m1: "1 \<le> m" using False by simp
    have ih: "sum_list (map (\<lambda>j. timer_delay (b * 2 ^ (j - 2))) [2 ..< m + 1]) + b
                   = b * 2 ^ (m - 1)"
      using Suc.prems(1) m1 le by (rule Suc.IH)
    have pos: "1 \<le> b * 2 ^ i" using Suc.prems(1) by (simp add: Suc_le_eq)
    have top: "b * 2 ^ i \<le> 2147483647" using Suc.prems(3) i by simp
    have td: "timer_delay (b * 2 ^ i) = b * 2 ^ i"
      using pos top by (rule timer_delay_in_range)
    have up: "[2 ..< Suc m + 1] = [2 ..< m + 1] @ [Suc m]" using i by simp
    have "sum_list (map (\<lambda>j. timer_delay (b * 2 ^ (j - 2))) [2 ..< Suc m + 1]) + b
          = (sum_list (map (\<lambda>j. timer_delay (b * 2 ^ (j - 2))) [2 ..< m + 1]) + b)
            + timer_delay (b * 2 ^ i)"
      unfolding up by (simp add: i)
    also have "\<dots> = b * 2 ^ i + b * 2 ^ i" unfolding ih td by (simp add: i)
    finally show ?thesis by (simp add: i)
  qed
qed




section \<open>Properties of the circuit breaker\<close>

lemma reachable_inv:
  "reachable cb \<Longrightarrow>
     state cb \<noteq> HALF_OPEN \<and>
     (state cb = OPEN \<longrightarrow> failureThreshold cb \<le> failures cb) \<and>
     (state cb = CLOSED \<longrightarrow> failures cb < failureThreshold cb \<or> failures cb = 0)"
proof (induction rule: reachable.induct)
  case (fresh threshold reset nm)
  then show ?case by (simp add: new_CircuitBreaker_def)
next
  case (succeeded cb t cb1)
  then show ?case
    by (auto simp: admit_def onSuccess_def Let_def split: if_splits)
next
  case (failed cb t cb1 t')
  then show ?case
    by (auto simp: admit_def onFailure_def Let_def split: if_splits)
qed

lemma execute_reachable:
  assumes "reachable cb" "execute cb operation w = (r, cb', w')"
  shows "reachable cb'"
proof (cases "admit (now w) cb")
  case (Inl e)
  with assms show ?thesis by (simp add: execute_def)
next
  case (Inr cb1)
  obtain r1 w1 where op: "operation w = (r1, w1)" by (cases "operation w")
  show ?thesis
  proof (cases r1)
    case (Inl e)
    with assms Inr op have "cb' = onFailure (now w1) cb1" by (auto simp: execute_def)
    then show ?thesis using reachable.failed[OF assms(1) Inr] by simp
  next
    case ok: (Inr v)
    with assms Inr op have "cb' = onSuccess cb1" by (auto simp: execute_def)
    then show ?thesis using reachable.succeeded[OF assms(1) Inr] by simp
  qed
qed

lemma execute_threshold:
  "execute cb operation w = (r, cb', w') \<Longrightarrow> failureThreshold cb' = failureThreshold cb"
  by (auto simp: execute_def admit_def onSuccess_def onFailure_def Let_def
           split: if_splits sum.splits prod.splits)

lemma execute_failing_step:
  assumes r: "reachable cb" and th: "0 < failureThreshold cb"
      and f: "\<exists>e w1. operation w = (Inl e, w1)"
      and ex: "execute cb operation w = (r, cb', w')"
  shows "state cb' = OPEN \<or> (state cb' = CLOSED \<and> failures cb' = failures cb + 1)"
proof -
  from f obtain e w1 where op: "operation w = (Inl e, w1)" by blast
  from reachable_inv[OF r] have inv: "state cb \<noteq> HALF_OPEN"
    "state cb = OPEN \<longrightarrow> failureThreshold cb \<le> failures cb" by simp_all
  show ?thesis
  proof (cases "state cb")
    case CLOSED
    with ex op show ?thesis
      by (auto simp: execute_def admit_def onFailure_def Let_def split: if_splits)
  next
    case OPEN
    with ex op inv show ?thesis
      by (auto simp: execute_def admit_def onFailure_def Let_def split: if_splits)
  next
    case HALF_OPEN
    with inv show ?thesis by simp
  qed
qed

lemma execute_each_failing:
  assumes th: "0 < failureThreshold cb"
  shows "reachable cb \<Longrightarrow> \<forall>operation \<in> set ops. \<forall>w. \<exists>e w1. operation w = (Inl e, w1) \<Longrightarrow>
         execute_each cb ops w = (cb', w') \<Longrightarrow>
         reachable cb' \<and> failureThreshold cb' = failureThreshold cb \<and>
         (ops \<noteq> [] \<longrightarrow> state cb' = OPEN \<or>
            (state cb' = CLOSED \<and> failures cb + length ops \<le> failures cb'))"
  using th
proof (induction ops arbitrary: cb w)
  case Nil
  then show ?case by simp
next
  case (Cons operation rest)
  obtain r cb1 w1 where ex: "execute cb operation w = (r, cb1, w1)"
    by (cases "execute cb operation w") auto
  have r1: "reachable cb1" using execute_reachable[OF Cons.prems(1) ex] .
  have t1: "failureThreshold cb1 = failureThreshold cb" using execute_threshold[OF ex] .
  have f: "\<exists>e w1. operation w = (Inl e, w1)" using Cons.prems(2) by simp
  have s1: "state cb1 = OPEN \<or> (state cb1 = CLOSED \<and> failures cb1 = failures cb + 1)"
    using execute_failing_step[OF Cons.prems(1) Cons.prems(4) f ex] .
  have rest: "execute_each cb1 rest w1 = (cb', w')" using Cons.prems(3) ex by simp
  have th1: "0 < failureThreshold cb1" using t1 Cons.prems(4) by simp
  have IH: "reachable cb' \<and> failureThreshold cb' = failureThreshold cb1 \<and>
         (rest \<noteq> [] \<longrightarrow> state cb' = OPEN \<or>
            (state cb' = CLOSED \<and> failures cb1 + length rest \<le> failures cb'))"
    using Cons.IH[OF r1 _ rest th1] Cons.prems(2) by simp
  show ?case
  proof (cases "rest = []")
    case True
    with rest have "cb' = cb1" by simp
    with r1 t1 s1 True show ?thesis by auto
  next
    case False
    show ?thesis
    proof (cases "state cb' = OPEN")
      case True
      with IH t1 show ?thesis by simp
    next
      case no: False
      with IH False have c: "state cb' = CLOSED" "failures cb1 + length rest \<le> failures cb'"
        by auto
      have inv': "failures cb' < failureThreshold cb' \<or> failures cb' = 0"
        using reachable_inv[of cb'] IH c by simp
      from s1 show ?thesis
      proof
        assume o: "state cb1 = OPEN"
        then have "failureThreshold cb1 \<le> failures cb1" using reachable_inv[OF r1] by simp
        with c inv' IH th1 have False by auto
        then show ?thesis ..
      next
        assume "state cb1 = CLOSED \<and> failures cb1 = failures cb + 1"
        with c IH t1 show ?thesis by simp
      qed
    qed
  qed
qed

lemma execute_each_reachable:
  "reachable cb \<Longrightarrow> reachable (fst (execute_each cb ops w))"
proof (induction ops arbitrary: cb w)
  case Nil
  then show ?case by simp
next
  case (Cons operation rest)
  obtain r cb1 w1 where ex: "execute cb operation w = (r, cb1, w1)"
    by (cases "execute cb operation w") auto
  have "reachable cb1" using execute_reachable[OF Cons.prems ex] .
  then have "reachable (fst (execute_each cb1 rest w1))" by (rule Cons.IH)
  then show ?case by (simp add: ex)
qed

lemma execute_rejects:
  "state cb = OPEN \<and> \<not> int (now w) - int (lastFailureTime cb) > int (resetTimeout cb) \<Longrightarrow>
   execute cb operation w =
     (Inl (Error (''Circuit breaker '' @ name cb @ '' is OPEN - too many failures'')), cb, w)"
  by (simp add: execute_def admit_def)

lemma execute_succeeds:
  "\<not> (state cb = OPEN \<and> \<not> int (now w) - int (lastFailureTime cb) > int (resetTimeout cb)) \<Longrightarrow>
   operation w = (Inr v, w1) \<Longrightarrow>
   execute cb operation w = (Inr v, cb\<lparr>failures := 0, state := CLOSED\<rparr>, w1)"
  by (cases "state cb") (auto simp: execute_def admit_def onSuccess_def Let_def)

lemma execute_fails:
  "\<not> (state cb = OPEN \<and> \<not> int (now w) - int (lastFailureTime cb) > int (resetTimeout cb)) \<Longrightarrow>
   operation w = (Inl e, w1) \<Longrightarrow>
   execute cb operation w =
     (Inl e, cb\<lparr>failures := failures cb + 1, lastFailureTime := now w1,
               state := (if failureThreshold cb \<le> failures cb + 1 then OPEN
                         else if state cb = CLOSED then CLOSED else HALF_OPEN)\<rparr>, w1)"
  by (cases "state cb") (auto simp: execute_def admit_def onFailure_def Let_def)

lemma after_step_Enter:
  "after_step cb (Enter t) =
     (if state cb = OPEN \<and> int t - int (lastFailureTime cb) > int (resetTimeout cb)
      then cb\<lparr>state := HALF_OPEN\<rparr> else cb)"
  by (simp add: admit_def)

lemma after_step_Succeeds:
  "after_step cb Succeeds =
     cb\<lparr>failures := 0, state := (if state cb = HALF_OPEN then CLOSED else state cb)\<rparr>"
  by (simp add: onSuccess_def Let_def)

lemma after_step_Fails:
  "after_step cb (Fails t) =
     cb\<lparr>failures := failures cb + 1, lastFailureTime := t,
        state := (if failureThreshold cb \<le> failures cb + 1 then OPEN else state cb)\<rparr>"
  by (simp add: onFailure_def Let_def)

lemma execute_steps:
  "\<not> (state cb = OPEN \<and> \<not> int (now w) - int (lastFailureTime cb) > int (resetTimeout cb)) \<Longrightarrow>
   fst (snd (execute cb operation w)) =
     after_step (after_step cb (Enter (now w)))
       (case fst (operation w) of
          Inr v \<Rightarrow> Succeeds
        | Inl e \<Rightarrow> Fails (now (snd (operation w))))"
  by (cases "operation w")
     (auto simp: execute_def admit_def split: sum.splits)



section \<open>Properties of fetchWithTimeout\<close>

text \<open>
  Claim C9, as amended. A request wrapped with deadline \<open>d\<close> and operation name
  \<open>operation\<close>. For \<open>d\<close> between 1 and 2147483647 milliseconds: when the upstream would
  take longer than \<open>d\<close>, the wrapper fails after \<open>d\<close> milliseconds with
  \<open>TimeoutError operation d\<close>, and the abort of the request's signal is in the trace;
  when the upstream settles before \<open>d\<close>, the wrapper settles exactly as the underlying
  request does (its response, or its failure unchanged), the timer is cleared and the
  signal is never aborted. For \<open>d\<close> outside that range (0, or above 2147483647) the
  timer fires after 1 millisecond: an upstream that takes longer than 1 millisecond is
  aborted then, and the error still carries the configured \<open>d\<close>; only an upstream that
  settles within the millisecond is passed through.
\<close>

theorem fetchWithTimeout_contract:
  "(1 \<le> d \<and> d \<le> 2147483647 \<and> d < latency (network E (sent w) url) \<longrightarrow>
      (\<exists>w'. fetchWithTimeout E url (Some d) (Some operation) w = (Inl (TimeoutError operation d), w') \<and>
            trace w' = trace w @ [SetTimeout d, Fetch url, Abort, ClearTimeout] \<and>
            sent w' = sent w + 1 \<and> now w' = now w + d))
   \<and> (1 \<le> d \<and> d \<le> 2147483647 \<and> latency (network E (sent w) url) < d \<longrightarrow>
      (\<exists>w'. fetchWithTimeout E url (Some d) (Some operation) w =
              (case settles (network E (sent w) url) of
                 Inl m \<Rightarrow> Inl (TypeError m) | Inr resp \<Rightarrow> Inr resp, w') \<and>
            fst (fetchWithTimeout E url (Some d) (Some operation) w) =
              fst (fetch_signal E url d (emit (SetTimeout d) w)) \<and>
            trace w' = trace w @ [SetTimeout d, Fetch url, ClearTimeout] \<and>
            sent w' = sent w + 1 \<and> now w' = now w + latency (network E (sent w) url)))
   \<and> ((d < 1 \<or> 2147483647 < d) \<and> 1 < latency (network E (sent w) url) \<longrightarrow>
      (\<exists>w'. fetchWithTimeout E url (Some d) (Some operation) w = (Inl (TimeoutError operation d), w') \<and>
            trace w' = trace w @ [SetTimeout d, Fetch url, Abort, ClearTimeout] \<and>
            sent w' = sent w + 1 \<and> now w' = now w + 1))
   \<and> ((d < 1 \<or> 2147483647 < d) \<and> latency (network E (sent w) url) < 1 \<longrightarrow>
      (\<exists>w'. fetchWithTimeout E url (Some d) (Some operation) w =
              (case settles (network E (sent w) url) of
                 Inl m \<Rightarrow> Inl (TypeError m) | Inr resp \<Rightarrow> Inr resp, w') \<and>
            trace w' = trace w @ [SetTimeout d, Fetch url, ClearTimeout] \<and>
            sent w' = sent w + 1 \<and> now w' = now w + latency (network E (sent w) url)))"
proof (intro conjI impI)
  assume "1 \<le> d \<and> d \<le> 2147483647 \<and> d < latency (network E (sent w) url)"
  then show "\<exists>w'. fetchWithTimeout E url (Some d) (Some operation) w = (Inl (TimeoutError operation d), w') \<and>
            trace w' = trace w @ [SetTimeout d, Fetch url, Abort, ClearTimeout] \<and>
            sent w' = sent w + 1 \<and> now w' = now w + d"
    by (simp add: fetchWithTimeout_def fetch_signal_def emit_def Let_def timer_delay_def)
next
  assume "1 \<le> d \<and> d \<le> 2147483647 \<and> latency (network E (sent w) url) < d"
  then show "\<exists>w'. fetchWithTimeout E url (Some d) (Some operation) w =
              (case settles (network E (sent w) url) of
                 Inl m \<Rightarrow> Inl (TypeError m) | Inr resp \<Rightarrow> Inr resp, w') \<and>
            fst (fetchWithTimeout E url (Some d) (Some operation) w) =
              fst (fetch_signal E url d (emit (SetTimeout d) w)) \<and>
            trace w' = trace w @ [SetTimeout d, Fetch url, ClearTimeout] \<and>
            sent w' = sent w + 1 \<and> now w' = now w + latency (network E (sent w) url)"
    by (auto simp: fetchWithTimeout_def fetch_signal_def emit_def Let_def timer_delay_def
          split: sum.splits)
next
  assume "(d < 1 \<or> 2147483647 < d) \<and> 1 < latency (network E (sent w) url)"
  then show "\<exists>w'. fetchWithTimeout E url (Some d) (Some operation) w = (Inl (TimeoutError operation d), w') \<and>
            trace w' = trace w @ [SetTimeout d, Fetch url, Abort, ClearTimeout] \<and>
            sent w' = sent w + 1 \<and> now w' = now w + 1"
    by (auto simp: fetchWithTimeout_def fetch_signal_def emit_def Let_def timer_delay_def)
next
  assume "(d < 1 \<or> 2147483647 < d) \<and> latency (network E (sent w) url) < 1"
  then show "\<exists>w'. fetchWithTimeout E url (Some d) (Some operation) w =
              (case settles (network E (sent w) url) of
                 Inl m \<Rightarrow> Inl (TypeError m) | Inr resp \<Rightarrow> Inr resp, w') \<and>
            trace w' = trace w @ [SetTimeout d, Fetch url, ClearTimeout] \<and>
            sent w' = sent w + 1 \<and> now w' = now w + latency (network E (sent w) url)"
    by (auto simp: fetchWithTimeout_def fetch_signal_def emit_def Let_def timer_delay_def
          split: sum.splits)
qed

theorem fetchWithTimeout_contract_witness:
  "fst (fetchWithTimeout slow (PexelsSearch ''Mumbai'' 10 ''landscape'' ''medium'')
          (Some 8000) (Some ''pexels-search'') (boot 0))
     = Inl (TimeoutError ''pexels-search'' 8000) \<and>
   trace (snd (fetchWithTimeout slow (PexelsSearch ''Mumbai'' 10 ''landscape'' ''medium'')
          (Some 8000) (Some ''pexels-search'') (boot 0)))
     = [SetTimeout 8000, Fetch (PexelsSearch ''Mumbai'' 10 ''landscape'' ''medium''), Abort, ClearTimeout] \<and>
   now (snd (fetchWithTimeout slow (PexelsSearch ''Mumbai'' 10 ''landscape'' ''medium'')
          (Some 8000) (Some ''pexels-search'') (boot 0))) = 8000 \<and>
   fst (fetchWithTimeout dead (PexelsSearch ''Mumbai'' 10 ''landscape'' ''medium'')
          (Some 8000) (Some ''pexels-search'') (boot 0))
     = Inl (TypeError ''fetch failed'') \<and>
   fst (fetchWithTimeout slow (PexelsSearch ''Mumbai'' 10 ''landscape'' ''medium'')
          (Some 15000) (Some ''pexels-search'') (boot 0))
     = Inr \<lparr>status = 200, body = None\<rparr> \<and>
   trace (snd (fetchWithTimeout slow (PexelsSearch ''Mumbai'' 10 ''landscape'' ''medium'')
          (Some 15000) (Some ''pexels-search'') (boot 0)))
     = [SetTimeout 15000, Fetch (PexelsSearch ''Mumbai'' 10 ''landscape'' ''medium''), ClearTimeout] \<and>
   now (snd (fetchWithTimeout slow (PexelsSearch ''Mumbai'' 10 ''landscape'' ''medium'')
          (Some 15000) (Some ''pexels-search'') (boot 0))) = 9000 \<and>
   fst (fetchWithTimeout slow (PexelsSearch ''Mumbai'' 10 ''landscape'' ''medium'')
          (Some 0) (Some ''pexels-search'') (boot 0))
     = Inl (TimeoutError ''pexels-search'' 0) \<and>
   now (snd (fetchWithTimeout slow (PexelsSearch ''Mumbai'' 10 ''landscape'' ''medium'')
          (Some 0) (Some ''pexels-search'') (boot 0))) = 1 \<and>
   fst (fetchWithTimeout (slow\<lparr>network := \<lambda>n r. \<lparr>latency = 0, settles = Inl ''fetch failed''\<rparr>\<rparr>)
          (PexelsSearch ''Mumbai'' 10 ''landscape'' ''medium'')
          (Some 4294967296) (Some ''pexels-search'') (boot 0))
     = Inl (TypeError ''fetch failed'')"
proof -
  let ?u = "PexelsSearch ''Mumbai'' 10 ''landscape'' ''medium''"
  let ?quick = "slow\<lparr>network := \<lambda>n r. \<lparr>latency = 0, settles = Inl ''fetch failed''\<rparr>\<rparr>"
  have a: "1 \<le> (8000::nat) \<and> (8000::nat) \<le> 2147483647 \<and>
           8000 < latency (network slow (sent (boot 0)) ?u)" by (simp add: slow_def)
  have b: "1 \<le> (8000::nat) \<and> (8000::nat) \<le> 2147483647 \<and>
           latency (network dead (sent (boot 0)) ?u) < 8000" by (simp add: dead_def)
  have c: "1 \<le> (15000::nat) \<and> (15000::nat) \<le> 2147483647 \<and>
           latency (network slow (sent (boot 0)) ?u) < 15000" by (simp add: slow_def)
  have d: "((0::nat) < 1 \<or> 2147483647 < (0::nat)) \<and>
           1 < latency (network slow (sent (boot 0)) ?u)" by (simp add: slow_def)
  have e: "((4294967296::nat) < 1 \<or> 2147483647 < (4294967296::nat)) \<and>
           latency (network ?quick (sent (boot 0)) ?u) < 1" by simp
  from fetchWithTimeout_contract[where E = slow and url = ?u and d = 8000 and w = "boot 0"
          and operation = "''pexels-search''", THEN conjunct1, rule_format, OF a]
       fetchWithTimeout_contract[where E = dead and url = ?u and d = 8000 and w = "boot 0"
          and operation = "''pexels-search''", THEN conjunct2, THEN conjunct1, rule_format, OF b]
       fetchWithTimeout_contract[where E = slow and url = ?u and d = 15000 and w = "boot 0"
          and operation = "''pexels-search''", THEN conjunct2, THEN conjunct1, rule_format, OF c]
       fetchWithTimeout_contract[where E = slow and url = ?u and d = 0 and w = "boot 0"
          and operation = "''pexels-search''", THEN conjunct2, THEN conjunct2, THEN conjunct1,
          rule_format, OF d]
       fetchWithTimeout_contract[where E = ?quick and url = ?u and d = 4294967296 and w = "boot 0"
          and operation = "''pexels-search''", THEN conjunct2, THEN conjunct2, THEN conjunct2,
          rule_format, OF e]
  show ?thesis
    by (auto simp: slow_def dead_def boot_def)
qed

text \<open>
  The claim as stated fails for a deadline above 2147483647 milliseconds: with the
  deadline 2147483648 and an upstream that answers after 9 seconds, long before that
  deadline, the wrapper does not return the answer; it aborts the request after 1
  millisecond and fails with the timeout error.
\<close>

theorem fetchWithTimeout_deadline_counterexample:
  "latency (network slow 0 (PexelsSearch ''Mumbai'' 10 ''landscape'' ''medium'')) = 9000 \<and>
   settles (network slow 0 (PexelsSearch ''Mumbai'' 10 ''landscape'' ''medium''))
     = Inr \<lparr>status = 200, body = None\<rparr> \<and>
   fst (fetchWithTimeout slow (PexelsSearch ''Mumbai'' 10 ''landscape'' ''medium'')
          (Some 2147483648) (Some ''pexels-search'') (boot 0))
     = Inl (TimeoutError ''pexels-search'' 2147483648) \<and>
   now (snd (fetchWithTimeout slow (PexelsSearch ''Mumbai'' 10 ''landscape'' ''medium'')
          (Some 2147483648) (Some ''pexels-search'') (boot 0))) = 1 \<and>
   trace (snd (fetchWithTimeout slow (PexelsSearch ''Mumbai'' 10 ''landscape'' ''medium'')
          (Some 2147483648) (Some ''pexels-search'') (boot 0)))
     = [SetTimeout 2147483648, Fetch (PexelsSearch ''Mumbai'' 10 ''landscape'' ''medium''),
        Abort, ClearTimeout]"
  by (simp add: fetchWithTimeout_def fetch_signal_def emit_def Let_def timer_delay_def
        slow_def boot_def)

section \<open>The order of composition\<close>

lemma sleep_fields [simp]:
  "sent (sleep d w) = sent w" "perplexity (sleep d w) = perplexity w"
  "pexels (sleep d w) = pexels w" "now (sleep d w) = now w + timer_delay d" "drawn (sleep d w) = drawn w"
  by (simp_all add: sleep_def emit_def)

lemma emit_fields [simp]:
  "sent (emit e w) = sent w" "perplexity (emit e w) = perplexity w" "pexels (emit e w) = pexels w"
  "now (emit e w) = now w" "trace (emit e w) = trace w @ [e]" "drawn (emit e w) = drawn w"
  by (simp_all add: emit_def)

lemma fetchWithTimeout_fails:
  assumes "timer_delay timeout \<le> latency (network E (sent w) url) \<or>
           (\<exists>m. settles (network E (sent w) url) = Inl m)"
  shows "\<exists>e w'. fetchWithTimeout E url (Some timeout) (Some operation) w = (Inl e, w') \<and>
           sent w' = sent w + 1 \<and> perplexity w' = perplexity w \<and> pexels w' = pexels w"
  using assms
  by (auto simp: fetchWithTimeout_def fetch_signal_def emit_def Let_def split: sum.splits)

lemma perplexity_attempt_fails:
  assumes "timer_delay timeout \<le> latency (network E (sent w) url) \<or>
           (\<exists>m. settles (network E (sent w) url) = Inl m)"
      and "state (perplexity w) = CLOSED"
  shows "\<exists>e w'. perplexity_execute (fetchWithTimeout E url (Some timeout) (Some operation)) w
                   = (Inl e, w') \<and>
           sent w' = sent w + 1 \<and> perplexity w' = onFailure (now w') (perplexity w)"
proof -
  from fetchWithTimeout_fails[OF assms(1)] obtain e w1 where
    f: "fetchWithTimeout E url (Some timeout) (Some operation) w = (Inl e, w1)"
       "sent w1 = sent w + 1" by blast
  show ?thesis using assms(2) f
    by (simp add: perplexity_execute_def execute_def admit_def)
qed

lemma fetchPexelsImage_resolves:
  "\<exists>img w'. fetchPexelsImage E query category imgSize w = (Inr img, w')"
  by (cases "fetchPexelsImage_try E query category imgSize w")
     (auto simp: fetchPexelsImage_def catch_def resolve_def split: sum.splits)

lemma fetchWithTimeout_sent:
  "fetchWithTimeout E url t_opt o_opt w = (r, w') \<Longrightarrow> sent w' = sent w + 1"
  by (auto simp: fetchWithTimeout_def fetch_signal_def Let_def emit_def
        split: sum.splits prod.splits if_splits)

lemma pexels_execute_sent:
  assumes "\<And>w r w'. operation w = (r, w') \<Longrightarrow> sent w' = sent w + 1"
  shows "pexels_execute operation w = (r, w') \<Longrightarrow> sent w' \<le> sent w + 1"
  using assms
  by (auto simp: pexels_execute_def execute_def split: sum.splits prod.splits)

lemma fetchPexelsImage_try_sent:
  assumes "fetchPexelsImage_try E query category sz w = (r, w')"
  shows "sent w' \<le> sent w + 1"
proof (cases "configured (PEXELS_API_KEY E)")
  case False
  then show ?thesis using assms by (simp add: fetchPexelsImage_try_def select_image_def resolve_def)
next
  case True
  obtain searchQuery perPage where s: "search_parameters query category = (searchQuery, perPage)"
    by (cases "search_parameters query category")
  let ?op = "pexels_execute
              (fetchWithTimeout E (PexelsSearch searchQuery perPage ''landscape'' sz)
                 (Some TIMEOUTS_PEXELS) (Some ''pexels-search''))"
  obtain r1 w1 where x: "?op w = (r1, w1)" by (cases "?op w")
  have 1: "sent w1 \<le> sent w + 1"
    using _ x by (rule pexels_execute_sent) (rule fetchWithTimeout_sent)
  have "sent w' = sent w1"
    using assms True s x
    by (auto simp: fetchPexelsImage_try_def select_image_def andThen_def resolve_def lift_def response_json_def
          reject_def random_index_def split: sum.splits prod.splits if_splits option.splits)
  with 1 show ?thesis by simp
qed

lemma fetchPexelsImage_sent:
  assumes "fetchPexelsImage E query category sz w = (r, w')"
  shows "sent w' \<le> sent w + 1"
proof -
  obtain r1 w1 where t: "fetchPexelsImage_try E query category sz w = (r1, w1)"
    by (cases "fetchPexelsImage_try E query category sz w")
  then have "w' = w1" using assms
    by (auto simp: fetchPexelsImage_def catch_def resolve_def split: sum.splits)
  with fetchPexelsImage_try_sent[OF t] show ?thesis by simp
qed

lemma retry_fetchPexelsImage:
  "retryWithBackoff (fetchPexelsImage E query category sz) 2 500 nm w =
   fetchPexelsImage E query category sz (emit (Attempt nm 1 2) w)"
proof -
  obtain img w' where
    "fetchPexelsImage E query category sz (emit (Attempt nm 1 2) w) = (Inr img, w')"
    using fetchPexelsImage_resolves by blast
  then show ?thesis
    unfolding retryWithBackoff_def by (simp add: retry_loop_success)
qed

text \<open>
  Claim C1, as amended. The handler composes the three primitives with the retry loop
  outermost, the breaker inside it and the timeout-bounded request innermost, so the
  breaker's hooks run once per attempt. When every request to the AI upstream fails or
  outlasts its deadline and the breaker starts \<open>CLOSED\<close> with its counter at 0 and its
  threshold of 3, one call of the orchestration sends three requests, runs the failure
  hook three times and leaves the breaker \<open>OPEN\<close>. For the image upstream,
  \<^verbatim>\<open>fetchPexelsImage\<close> puts the breaker around the timeout-bounded request with no
  retry inside, so one call sends at most one request; the retry loop that
  \<^verbatim>\<open>fetchMultiplePexelsImages\<close> puts around \<^verbatim>\<open>fetchPexelsImage\<close> makes a single
  attempt, because \<^verbatim>\<open>fetchPexelsImage\<close> never rejects.
\<close>

theorem perplexity_request_hooks:
  assumes down: "\<forall>n. TIMEOUTS_AI \<le> latency (network E n (PerplexityChat prompt)) \<or>
                      (\<exists>m. settles (network E n (PerplexityChat prompt)) = Inl m)"
      and closed: "state (perplexity w) = CLOSED" "failures (perplexity w) = 0"
                  "failureThreshold (perplexity w) = 3"
  shows "(\<exists>e w'. perplexity_request E prompt w = (Inl e, w') \<and>
           sent w' = sent w + 3 \<and> failures (perplexity w') = 3 \<and> state (perplexity w') = OPEN) \<and>
         sent (snd (fetchPexelsImage E query category sz wp)) \<le> sent wp + 1 \<and>
         retryWithBackoff (fetchPexelsImage E query category sz) 2 500 nm wp =
           fetchPexelsImage E query category sz (emit (Attempt nm 1 2) wp)"
proof -
  let ?op = "perplexity_execute
               (fetchWithTimeout E (PerplexityChat prompt) (Some TIMEOUTS_AI) (Some ''perplexity-api''))"
  let ?nm = "''Perplexity API Call''"
  let ?w0 = "emit (Attempt ?nm 1 3) w"
  from perplexity_attempt_fails[of TIMEOUTS_AI E ?w0 "PerplexityChat prompt" "''perplexity-api''"]
       down closed
  obtain e1 w1 where 1: "?op ?w0 = (Inl e1, w1)" "sent w1 = sent w + 1"
     "perplexity w1 = onFailure (now w1) (perplexity w)" by auto
  let ?w1 = "emit (Attempt ?nm (1 + 1) 3) (sleep (2000 * 2 ^ (1 - 1)) w1)"
  have c1: "state (perplexity w1) = CLOSED" "failures (perplexity w1) = 1"
           "failureThreshold (perplexity w1) = 3"
    using 1 closed by (simp_all add: onFailure_def Let_def)
  from perplexity_attempt_fails[of TIMEOUTS_AI E ?w1 "PerplexityChat prompt" "''perplexity-api''"]
       down c1
  obtain e2 w2 where 2: "?op ?w1 = (Inl e2, w2)" "sent w2 = sent w1 + 1"
     "perplexity w2 = onFailure (now w2) (perplexity w1)" by auto
  let ?w2 = "emit (Attempt ?nm (1 + 1 + 1) 3) (sleep (2000 * 2 ^ (1 + 1 - 1)) w2)"
  have c2: "state (perplexity w2) = CLOSED" "failures (perplexity w2) = 2"
           "failureThreshold (perplexity w2) = 3"
    using 2 c1 by (simp_all add: onFailure_def Let_def)
  from perplexity_attempt_fails[of TIMEOUTS_AI E ?w2 "PerplexityChat prompt" "''perplexity-api''"]
       down c2
  obtain e3 w3 where 3: "?op ?w2 = (Inl e3, w3)" "sent w3 = sent w2 + 1"
     "perplexity w3 = onFailure (now w3) (perplexity w2)" by auto
  have c3: "state (perplexity w3) = OPEN" "failures (perplexity w3) = 3"
    using 3 c2 by (simp_all add: onFailure_def Let_def)
  have s1: "retry_loop ?op 3 2000 ?nm 1 None w =
             retry_loop ?op 3 2000 ?nm (1 + 1) (Some e1) (sleep (2000 * 2 ^ (1 - 1)) w1)"
    by (rule retry_loop_fail_step) (simp, rule 1(1))
  have s2: "retry_loop ?op 3 2000 ?nm (1 + 1) (Some e1) (sleep (2000 * 2 ^ (1 - 1)) w1) =
             retry_loop ?op 3 2000 ?nm (1 + 1 + 1) (Some e2) (sleep (2000 * 2 ^ (1 + 1 - 1)) w2)"
    by (rule retry_loop_fail_step) (simp, rule 2(1))
  have s3: "retry_loop ?op 3 2000 ?nm (1 + 1 + 1) (Some e2) (sleep (2000 * 2 ^ (1 + 1 - 1)) w2)
              = (Inl e3, w3)"
    by (rule retry_loop_last) (simp, rule 3(1))
  have "perplexity_request E prompt w = (Inl e3, w3)"
    unfolding perplexity_request_def retryWithBackoff_def by (simp only: s1 s2 s3)
  with 1 2 3 c3 have ai: "\<exists>e w'. perplexity_request E prompt w = (Inl e, w') \<and>
           sent w' = sent w + 3 \<and> failures (perplexity w') = 3 \<and> state (perplexity w') = OPEN"
    by simp
  have one: "sent (snd (fetchPexelsImage E query category sz wp)) \<le> sent wp + 1"
    using fetchPexelsImage_sent[of E query category sz wp]
    by (cases "fetchPexelsImage E query category sz wp") simp
  show ?thesis using ai one retry_fetchPexelsImage by blast
qed

theorem perplexity_request_hooks_witness:
  "(\<exists>e w'. perplexity_request dead ''plan'' (boot 0) = (Inl e, w') \<and>
           sent w' = 3 \<and> failures (perplexity w') = 3 \<and> state (perplexity w') = OPEN) \<and>
   sent (snd (fetchPexelsImage dead ''Mumbai'' None ''medium'' (boot 0))) \<le> 1 \<and>
   retryWithBackoff (fetchPexelsImage dead ''Mumbai'' None ''medium'') 2 500 ''pexels-Mumbai'' (boot 0) =
     fetchPexelsImage dead ''Mumbai'' None ''medium'' (emit (Attempt ''pexels-Mumbai'' 1 2) (boot 0))"
proof -
  have d: "\<forall>n. TIMEOUTS_AI \<le> latency (network dead n (PerplexityChat ''plan'')) \<or>
                      (\<exists>m. settles (network dead n (PerplexityChat ''plan'')) = Inl m)"
    by (simp add: dead_def)
  have c: "state (perplexity (boot 0)) = CLOSED" "failures (perplexity (boot 0)) = 0"
          "failureThreshold (perplexity (boot 0)) = 3"
    by (simp_all add: boot_def circuitBreakers_perplexity_def new_CircuitBreaker_def)
  from perplexity_request_hooks[OF d c, of "''Mumbai''" None "''medium''" "boot 0" "''pexels-Mumbai''"]
  show ?thesis by (simp add: boot_def)
qed

text \<open>
  The claim as stated fails: on a freshly started process whose AI upstream is down, one
  call of the orchestration as the handler composes it leaves the breaker with three
  recorded failures and \<open>OPEN\<close>, whereas the composition with the breaker outermost
  would record one failure and leave it \<open>CLOSED\<close>.
\<close>

theorem breaker_outermost_counterexample:
  "failures (perplexity (snd (perplexity_request dead ''plan'' (boot 0)))) = 3 \<and>
   state (perplexity (snd (perplexity_request dead ''plan'' (boot 0)))) = OPEN \<and>
   failures (perplexity (snd (breaker_outermost dead ''plan'' (boot 0)))) = 1 \<and>
   state (perplexity (snd (breaker_outermost dead ''plan'' (boot 0)))) = CLOSED"
  apply (simp add: perplexity_request_def breaker_outermost_def retryWithBackoff_def)
  apply (simp add: retry_loop.simps perplexity_execute_def execute_def admit_def onFailure_def
      fetchWithTimeout_def fetch_signal_def dead_def boot_def circuitBreakers_perplexity_def
      new_CircuitBreaker_def TIMEOUTS_AI_def Let_def sleep_def emit_def)
  done

section \<open>Image calls that overlap\<close>

text \<open>
  A call of \<^verbatim>\<open>fetchPexelsImage\<close> made while no other call is under way is its first
  half followed by its second half at the time the request settles.
\<close>

lemma fetchPexelsImage_split:
  "fetchPexelsImage E query category sz w =
     (case begin_fetchPexelsImage E query category sz w of
        (Inl img, w1) \<Rightarrow> (Inr img, w1)
      | (Inr call, w1) \<Rightarrow>
          (case finish_fetchPexelsImage E call (w1\<lparr>now := settles_at call\<rparr>) of
             (img, w2) \<Rightarrow> (Inr img, w2)))"
proof (cases "configured (PEXELS_API_KEY E)")
  case False
  then show ?thesis
    by (simp add: fetchPexelsImage_def fetchPexelsImage_try_def begin_fetchPexelsImage_def
          catch_def resolve_def)
next
  case True
  obtain searchQuery perPage where s: "search_parameters query category = (searchQuery, perPage)"
    by (cases "search_parameters query category")
  show ?thesis
  proof (cases "admit (now w) (pexels w)")
    case (Inl e)
    then show ?thesis using True s
      by (simp add: fetchPexelsImage_def fetchPexelsImage_try_def begin_fetchPexelsImage_def
            catch_def resolve_def andThen_def pexels_execute_def execute_def)
  next
    case (Inr cb1)
    have st: "state cb1 = HALF_OPEN \<or> cb1 = pexels w"
      using Inr by (auto simp: admit_def split: if_splits)
    show ?thesis using True s Inr
      by (auto simp: fetchPexelsImage_def fetchPexelsImage_try_def begin_fetchPexelsImage_def
            finish_fetchPexelsImage_def catch_def resolve_def andThen_def pexels_execute_def
            execute_def fetchWithTimeout_def fetch_signal_def emit_def Let_def
            split: sum.splits prod.splits)
  qed
qed

lemma begin_fetchPexelsImage_now:
  "now (snd (begin_fetchPexelsImage E query category sz w)) = now w"
  by (auto simp: begin_fetchPexelsImage_def emit_def Let_def split: prod.splits sum.splits)

lemma next_query_now:
  "now (snd (next_query E sz category queries img w)) = now w"
proof (induction queries arbitrary: img w)
  case Nil
  then show ?case by simp
next
  case (Cons query rest)
  obtain r w1 where b: "begin_fetchPexelsImage E query (Some category) sz w = (r, w1)"
    by (cases "begin_fetchPexelsImage E query (Some category) sz w")
  have n: "now w1 = now w" using begin_fetchPexelsImage_now[of E query "Some category" sz w] b by simp
  show ?case
  proof (cases r)
    case (Inl found)
    then show ?thesis using b n Cons[of found w1] by simp
  next
    case (Inr call)
    then show ?thesis using b n by simp
  qed
qed

lemma start_all_now:
  "now (snd (start_all E sz cats w)) = now w"
proof (induction cats arbitrary: w)
  case Nil
  then show ?case by simp
next
  case (Cons c cats)
  obtain l category qs where c: "c = (l, category, qs)" by (cases c)
  obtain p w1 where q: "next_query E sz category (l # qs) JNull w = (p, w1)"
    by (cases "next_query E sz category (l # qs) JNull w")
  have "now w1 = now w" using next_query_now[of E sz category "l # qs" JNull w] q by simp
  then show ?case using Cons[of w1] q c by (simp add: split_beta)
qed

lemma select_image_now:
  "now (snd (select_image E response w)) = now w"
  by (auto simp: select_image_def resolve_def andThen_def lift_def response_json_def reject_def
        random_index_def split: sum.splits prod.splits option.splits)

lemma finish_fetchPexelsImage_now:
  "now (snd (finish_fetchPexelsImage E call w)) = now w"
proof (cases "answer call")
  case None
  then show ?thesis by (simp add: finish_fetchPexelsImage_def emit_def)
next
  case (Some a)
  show ?thesis
  proof (cases a)
    case (Inl m)
    then show ?thesis using Some by (simp add: finish_fetchPexelsImage_def emit_def)
  next
    case (Inr response)
    let ?w = "(emit ClearTimeout w)\<lparr>pexels := onSuccess (pexels w)\<rparr>"
    have "now (snd (select_image E response ?w)) = now w"
      by (simp add: select_image_now emit_def)
    then show ?thesis using Some Inr
      by (cases "select_image E response ?w")
         (auto simp: finish_fetchPexelsImage_def split: sum.splits)
  qed
qed

lemma settle_first_now:
  "now (snd (settle_first E sz t tasks w)) = now w"
proof (induction tasks arbitrary: w rule: settle_times.induct)
  case 1
  then show ?case by simp
next
  case (2 locationName category img rest)
  then show ?case by (simp add: split_beta)
next
  case (3 locationName category call queries rest)
  show ?case
  proof (cases "settles_at call = t")
    case True
    obtain img w1 where f: "finish_fetchPexelsImage E call w = (img, w1)"
      by (cases "finish_fetchPexelsImage E call w")
    have n1: "now w1 = now w" using finish_fetchPexelsImage_now[of E call w] f by simp
    show ?thesis using True f n1 next_query_now[of E sz category queries img w1]
      by (simp add: split_beta)
  next
    case False
    then show ?thesis using 3 by (simp add: split_beta)
  qed
qed

lemma settle_until_now:
  "now w \<le> deadline \<Longrightarrow> now (snd (settle_until E sz deadline tasks w)) \<le> deadline"
proof (induction E sz deadline tasks w rule: settle_until.induct)
  case (1 E sz deadline tasks w)
  show ?case
  proof (cases "earliest (settle_times tasks)")
    case None
    then show ?thesis using 1 by (simp add: settle_until.simps)
  next
    case (Some t)
    show ?thesis
    proof (cases "deadline \<le> t")
      case True
      then show ?thesis using Some 1 by (simp add: settle_until.simps)
    next
      case False
      obtain tasks1 w1 where s: "settle_first E sz t tasks (w\<lparr>now := t\<rparr>) = (tasks1, w1)"
        by (cases "settle_first E sz t tasks (w\<lparr>now := t\<rparr>)")
      have "now w1 = t" using settle_first_now[of E sz t tasks "w\<lparr>now := t\<rparr>"] s by simp
      then have "now w1 \<le> deadline" using False by simp
      from "1.IH"[OF Some False s[symmetric] this]
      show ?thesis using Some False s by (simp add: settle_until.simps[of E sz deadline tasks w])
    qed
  qed
qed

lemma fetchDiverseLocationImages_try_in_time:
  "fetchDiverseLocationImages_try E locationNames sz w = (r, w') \<Longrightarrow>
   now w' \<le> now w + TIMEOUTS_IMAGES"
proof (cases "map_result categorize_location locationNames")
  case (Inl e)
  assume "fetchDiverseLocationImages_try E locationNames sz w = (r, w')"
  then show ?thesis using Inl by (auto simp: fetchDiverseLocationImages_try_def)
next
  case (Inr cats)
  assume a: "fetchDiverseLocationImages_try E locationNames sz w = (r, w')"
  obtain tasks w1 where st: "start_all E sz cats w = (tasks, w1)" by (cases "start_all E sz cats w")
  have n1: "now w1 = now w" using start_all_now[of E sz cats w] st by simp
  obtain tasks1 w2 where su: "settle_until E sz (now w + TIMEOUTS_IMAGES) tasks w1 = (tasks1, w2)"
    by (cases "settle_until E sz (now w + TIMEOUTS_IMAGES) tasks w1")
  have "now w2 \<le> now w + TIMEOUTS_IMAGES"
    using settle_until_now[of w1 "now w + TIMEOUTS_IMAGES" E sz tasks] n1 su by simp
  then show ?thesis using a Inr st su
    by (auto simp: fetchDiverseLocationImages_try_def settle_all_def split: option.splits)
qed

lemma begin_fetchPexelsImage_unconfigured:
  "\<not> configured (PEXELS_API_KEY E) \<Longrightarrow>
   begin_fetchPexelsImage E query category sz w = (Inl JNull, w)"
  by (simp add: begin_fetchPexelsImage_def)

lemma next_query_unconfigured:
  "\<not> configured (PEXELS_API_KEY E) \<Longrightarrow>
   next_query E sz category queries JNull w = (Settled JNull, w)"
  by (induction queries) (simp_all add: begin_fetchPexelsImage_unconfigured)

lemma start_all_unconfigured:
  "\<not> configured (PEXELS_API_KEY E) \<Longrightarrow>
   start_all E sz cats w = (map (\<lambda>c. (fst c, fst (snd c), Settled JNull)) cats, w)"
  by (induction cats) (auto simp: next_query_unconfigured begin_fetchPexelsImage_unconfigured)

lemma settle_times_settled:
  "settle_times (map (\<lambda>c. (fst c, fst (snd c), Settled JNull)) cats) = []"
  by (induction cats) simp_all

lemma settled_results_settled:
  "settled_results (map (\<lambda>c. (fst c, fst (snd c), Settled JNull)) cats)
     = Some (map (\<lambda>c. (fst c, Inr JNull)) cats)"
  by (induction cats) simp_all

lemma settle_all_unconfigured:
  "\<not> configured (PEXELS_API_KEY E) \<Longrightarrow>
   settle_all E sz deadline cats w = (Some (map (\<lambda>c. (fst c, Inr JNull)) cats), w)"
  by (simp add: settle_all_def start_all_unconfigured settle_until.simps settle_times_settled
        settled_results_settled)

text \<open>
  With one location the functions started together are one function, and as long as it
  returns before the deadline the result and the world are those of the function run on
  its own.
\<close>

lemma locate_image_try_fallbacks:
  "locate_image E sz (l, cat, fb) = try_fallbacks E (l # fb) cat sz JNull"
  by (rule ext) (cases fb; auto simp: locate_image_def andThen_def resolve_def split: sum.splits prod.splits)

lemma begin_settles_later:
  "begin_fetchPexelsImage E query category sz w = (Inr call, w1) \<Longrightarrow> now w \<le> settles_at call"
  by (auto simp: begin_fetchPexelsImage_def Let_def split: if_splits prod.splits sum.splits)

lemma fetchPexelsImage_later:
  "now w \<le> now (snd (fetchPexelsImage E query category sz w))"
proof (cases "begin_fetchPexelsImage E query category sz w")
  case (Pair r w1)
  have n: "now w1 = now w" using begin_fetchPexelsImage_now[of E query category sz w] Pair by simp
  show ?thesis
  proof (cases r)
    case (Inl img)
    then show ?thesis using Pair n by (simp add: fetchPexelsImage_split)
  next
    case (Inr call)
    have "now (snd (finish_fetchPexelsImage E call (w1\<lparr>now := settles_at call\<rparr>))) = settles_at call"
      by (simp add: finish_fetchPexelsImage_now)
    then show ?thesis using Pair Inr begin_settles_later[of E query category sz w call w1]
      by (simp add: fetchPexelsImage_split split_beta)
  qed
qed

lemma try_fallbacks_later:
  "now w \<le> now (snd (try_fallbacks E queries cat sz img w))"
proof (induction queries arbitrary: img w)
  case Nil
  then show ?case by (simp add: resolve_def)
next
  case (Cons query rest)
  obtain found w1 where f: "fetchPexelsImage E query (Some cat) sz w = (Inr found, w1)"
    using fetchPexelsImage_split[of E query "Some cat" sz w]
    by (auto split: prod.splits sum.splits)
  have l: "now w \<le> now w1" using fetchPexelsImage_later[of w E query "Some cat" sz] f by simp
  show ?case
  proof (cases "truthy found")
    case True
    then show ?thesis using f l by (simp add: andThen_def resolve_def)
  next
    case False
    then show ?thesis using f l Cons[of w1 found] by (simp add: andThen_def)
  qed
qed

lemma one_location_settles:
  "now (snd (try_fallbacks E queries cat sz img w)) < deadline \<Longrightarrow>
   settle_until E sz deadline [(l, cat, fst (next_query E sz cat queries img w))]
     (snd (next_query E sz cat queries img w))
   = ([(l, cat, Settled (case fst (try_fallbacks E queries cat sz img w) of Inr found \<Rightarrow> found
                                                                         | Inl e \<Rightarrow> JNull))],
      snd (try_fallbacks E queries cat sz img w))"
proof (induction queries arbitrary: img w)
  case Nil
  then show ?case by (simp add: resolve_def settle_until.simps)
next
  case (Cons query rest)
  obtain r w1 where b: "begin_fetchPexelsImage E query (Some cat) sz w = (r, w1)"
    by (cases "begin_fetchPexelsImage E query (Some cat) sz w")
  show ?case
  proof (cases r)
    case (Inl found)
    then have f: "fetchPexelsImage E query (Some cat) sz w = (Inr found, w1)"
      using b by (simp add: fetchPexelsImage_split)
    show ?thesis
    proof (cases "truthy found")
      case True
      then show ?thesis using f b Inl
        by (simp add: andThen_def resolve_def settle_until.simps)
    next
      case False
      then have "now (snd (try_fallbacks E rest cat sz found w1)) < deadline"
        using Cons.prems f by (simp add: andThen_def)
      from Cons.IH[OF this] show ?thesis using False f b Inl by (simp add: andThen_def)
    qed
  next
    case (Inr call)
    obtain found w2 where fin: "finish_fetchPexelsImage E call (w1\<lparr>now := settles_at call\<rparr>) = (found, w2)"
      by (cases "finish_fetchPexelsImage E call (w1\<lparr>now := settles_at call\<rparr>)")
    have f: "fetchPexelsImage E query (Some cat) sz w = (Inr found, w2)"
      using b Inr fin by (simp add: fetchPexelsImage_split)
    have n2: "now w2 = settles_at call"
      using finish_fetchPexelsImage_now[of E call "w1\<lparr>now := settles_at call\<rparr>"] fin by simp
    have "now w2 \<le> now (snd (try_fallbacks E (query # rest) cat sz img w))"
      using f try_fallbacks_later[of w2 E rest cat sz found]
      by (simp add: andThen_def resolve_def)
    then have t: "\<not> deadline \<le> settles_at call" using Cons.prems n2 by simp
    show ?thesis
    proof (cases "truthy found")
      case True
      then show ?thesis using f b Inr fin t
        by (simp add: andThen_def resolve_def settle_until.simps)
    next
      case False
      then have "now (snd (try_fallbacks E rest cat sz found w2)) < deadline"
        using Cons.prems f by (simp add: andThen_def)
      from Cons.IH[OF this] show ?thesis using False f b Inr fin t
        by (simp add: andThen_def settle_until.simps[of E sz deadline "[(l, cat, Waiting call rest)]"]
              split_beta)
    qed
  qed
qed

lemma try_fallbacks_resolves:
  "\<exists>found. fst (try_fallbacks E queries cat sz img w) = Inr found"
proof (induction queries arbitrary: img w)
  case Nil
  then show ?case by (simp add: resolve_def)
next
  case (Cons query rest)
  obtain found w1 where f: "fetchPexelsImage E query (Some cat) sz w = (Inr found, w1)"
    using fetchPexelsImage_split[of E query "Some cat" sz w]
    by (auto split: prod.splits sum.splits)
  show ?case using f Cons[of found w1] by (simp add: andThen_def resolve_def)
qed

lemma settle_all_one_location:
  assumes "now (snd (locate_image E sz (l, cat, fb) w)) < deadline"
  shows "settle_all E sz deadline [(l, cat, fb)] w =
           (Some [(l, fst (locate_image E sz (l, cat, fb) w))],
            snd (locate_image E sz (l, cat, fb) w))"
proof -
  obtain found where r: "fst (try_fallbacks E (l # fb) cat sz JNull w) = Inr found"
    using try_fallbacks_resolves by blast
  have d: "now (snd (try_fallbacks E (l # fb) cat sz JNull w)) < deadline"
    using assms by (simp add: locate_image_try_fallbacks)
  obtain p w1 where q: "next_query E sz cat (l # fb) JNull w = (p, w1)"
    by (cases "next_query E sz cat (l # fb) JNull w")
  from one_location_settles[OF d, of l] q r
  have "settle_until E sz deadline [(l, cat, p)] w1 =
          ([(l, cat, Settled found)], snd (try_fallbacks E (l # fb) cat sz JNull w))"
    by simp
  then show ?thesis using q r
    by (simp add: settle_all_def locate_image_try_fallbacks del: next_query.simps)
qed

text \<open>What the two halves of a call do to the breaker of the image service.\<close>

lemma select_image_pexels:
  "pexels (snd (select_image E response w)) = pexels w"
  by (auto simp: select_image_def resolve_def andThen_def lift_def response_json_def reject_def
        random_index_def split: sum.splits prod.splits option.splits)

lemma begin_fetchPexelsImage_step:
  "configured (PEXELS_API_KEY E) \<Longrightarrow>
   pexels (snd (begin_fetchPexelsImage E query category sz w)) =
     after_step (pexels w) (Enter (now w))"
  by (auto simp: begin_fetchPexelsImage_def emit_def Let_def split: prod.splits sum.splits)

lemma finish_fetchPexelsImage_step:
  "pexels (snd (finish_fetchPexelsImage E call w)) =
     after_step (pexels w)
       (case answer call of
          Some (Inr response) \<Rightarrow> Succeeds
        | _ \<Rightarrow> Fails (now w))"
proof (cases "answer call")
  case None
  then show ?thesis by (simp add: finish_fetchPexelsImage_def emit_def)
next
  case (Some a)
  show ?thesis
  proof (cases a)
    case (Inl m)
    then show ?thesis using Some by (simp add: finish_fetchPexelsImage_def emit_def)
  next
    case (Inr response)
    let ?w = "(emit ClearTimeout w)\<lparr>pexels := onSuccess (pexels w)\<rparr>"
    have "pexels (snd (select_image E response ?w)) = onSuccess (pexels w)"
      by (simp add: select_image_pexels)
    then show ?thesis using Some Inr
      by (cases "select_image E response ?w")
         (auto simp: finish_fetchPexelsImage_def split: sum.splits)
  qed
qed

section \<open>The state machine of the circuit breaker\<close>



text \<open>Five locations on the image service that fails five times and recovers.\<close>

lemma begin_recovering:
  "begin_fetchPexelsImage recovering query category sz w =
     (case admit (now w) (pexels w) of
        Inl error \<Rightarrow> (Inl JNull, w)
      | Inr cb1 \<Rightarrow>
          (Inr \<lparr>settles_at = now w + (if sent w < 5 \<or> 9 \<le> sent w then 40 else 10),
                answer = Some (if sent w < 5 \<or> 9 \<le> sent w then Inl ''fetch failed''
                               else Inr \<lparr>status = 200, body = None\<rparr>)\<rparr>,
           (emit (Fetch (PexelsSearch (fst (search_parameters query category))
                           (snd (search_parameters query category)) ''landscape'' sz))
              (emit (SetTimeout TIMEOUTS_PEXELS) (w\<lparr>pexels := cb1\<rparr>)))\<lparr>sent := sent w + 1\<rparr>))"
  by (simp add: begin_fetchPexelsImage_def recovering_def slow_def split_beta Let_def
        timer_delay_def TIMEOUTS_PEXELS_def split: sum.splits)

lemma finish_failed:
  "finish_fetchPexelsImage E \<lparr>settles_at = t, answer = Some (Inl m)\<rparr> w =
     (JNull, (emit ClearTimeout w)\<lparr>pexels := onFailure (now w) (pexels w)\<rparr>)"
  by (simp add: finish_fetchPexelsImage_def)

lemma finish_unreadable:
  "finish_fetchPexelsImage E \<lparr>settles_at = t, answer = Some (Inr \<lparr>status = 200, body = None\<rparr>)\<rparr> w =
     (JNull, (emit ClearTimeout w)\<lparr>pexels := onSuccess (pexels w)\<rparr>)"
  by (simp add: finish_fetchPexelsImage_def select_image_def ok_def response_json_def
        andThen_def reject_def)

lemma recovering_five:
  "fst (settle_all recovering sz 20000
          [(l1, c1, [p1, q1, r1]), (l2, c2, [p2, q2, r2]), (l3, c3, [p3, q3, r3]),
            (l4, c4, [p4, q4, r4]), (l5, c5, [p5, q5, r5])] (boot 0))
     = Some [(l1, Inr JNull), (l2, Inr JNull), (l3, Inr JNull), (l4, Inr JNull), (l5, Inr JNull)]"
  "pexels (snd (settle_all recovering sz 20000
          [(l1, c1, [p1, q1, r1]), (l2, c2, [p2, q2, r2]), (l3, c3, [p3, q3, r3]),
            (l4, c4, [p4, q4, r4]), (l5, c5, [p5, q5, r5])] (boot 0)))
     = circuitBreakers_pexels\<lparr>failures := 0, lastFailureTime := 40, state := OPEN\<rparr>"
  "sent (snd (settle_all recovering sz 20000
          [(l1, c1, [p1, q1, r1]), (l2, c2, [p2, q2, r2]), (l3, c3, [p3, q3, r3]),
            (l4, c4, [p4, q4, r4]), (l5, c5, [p5, q5, r5])] (boot 0))) = 9"
  "now (snd (settle_all recovering sz 20000
          [(l1, c1, [p1, q1, r1]), (l2, c2, [p2, q2, r2]), (l3, c3, [p3, q3, r3]),
            (l4, c4, [p4, q4, r4]), (l5, c5, [p5, q5, r5])] (boot 0))) = 50"
  by (simp_all add: settle_all_def begin_recovering finish_failed finish_unreadable
        settle_until.simps admit_def onFailure_def onSuccess_def Let_def emit_def boot_def
        circuitBreakers_pexels_def new_CircuitBreaker_def)

lemma five_names:
  "map_result categorize_location
     [JString ''Gateway of India'', JString ''Marine Drive'', JString ''Colaba'',
      JString ''Juhu'', JString ''Bandra'']
   = Inr [(''Gateway of India'', ''attraction'',
             [''Gateway of India landmark'', ''Gateway of India tourism'', ''city attraction'']),
          (''Marine Drive'', ''attraction'',
             [''Marine Drive landmark'', ''Marine Drive tourism'', ''city attraction'']),
          (''Colaba'', ''attraction'',
             [''Colaba landmark'', ''Colaba tourism'', ''city attraction'']),
          (''Juhu'', ''attraction'',
             [''Juhu landmark'', ''Juhu tourism'', ''city attraction'']),
          (''Bandra'', ''attraction'',
             [''Bandra landmark'', ''Bandra tourism'', ''city attraction''])]"
  by code_simp

section \<open>The image step\<close>

lemma fetchDiverseLocationImages_resolves:
  "\<exists>images w'. fetchDiverseLocationImages E locationNames imgSize w = (Inr images, w')"
  by (cases "fetchDiverseLocationImages_try E locationNames imgSize w")
     (auto simp: fetchDiverseLocationImages_def catch_def resolve_def split: sum.splits)

text \<open>
  Claim C10. \<^verbatim>\<open>fetchPexelsImage\<close> and \<^verbatim>\<open>fetchDiverseLocationImages\<close> resolve on every
  input, environment and state: neither ever rejects. Every error raised inside
  \<^verbatim>\<open>fetchPexelsImage\<close> is returned as \<^verbatim>\<open>null\<close> and every error raised inside
  \<^verbatim>\<open>fetchDiverseLocationImages\<close> as the empty mapping; in particular a missing key, an
  open breaker, a request that the breaker or the timeout wrapper rejects (a network
  failure, a timeout), a response that is not 2xx and a body that is not JSON each give
  \<^verbatim>\<open>null\<close>.
\<close>

theorem image_fetch_total:
  "(\<exists>img w'. fetchPexelsImage E query category imgSize w = (Inr img, w')) \<and>
   (\<exists>images w'. fetchDiverseLocationImages E locationNames imgSize w = (Inr images, w')) \<and>
   (\<forall>e w'. fetchPexelsImage_try E query category imgSize w = (Inl e, w') \<longrightarrow>
      fetchPexelsImage E query category imgSize w = (Inr JNull, w')) \<and>
   (\<forall>e w'. fetchDiverseLocationImages_try E locationNames imgSize w = (Inl e, w') \<longrightarrow>
      fetchDiverseLocationImages E locationNames imgSize w = (Inr [], w')) \<and>
   (\<not> configured (PEXELS_API_KEY E) \<longrightarrow>
      fetchPexelsImage E query category imgSize w = (Inr JNull, w)) \<and>
   (configured (PEXELS_API_KEY E) \<longrightarrow>
      (\<forall>searchQuery perPage. search_parameters query category = (searchQuery, perPage) \<longrightarrow>
         (state (pexels w) = OPEN \<and>
          \<not> int (now w) - int (lastFailureTime (pexels w)) > int (resetTimeout (pexels w)) \<longrightarrow>
            fetchPexelsImage E query category imgSize w = (Inr JNull, w)) \<and>
         (\<forall>r w'. pexels_execute
                    (fetchWithTimeout E (PexelsSearch searchQuery perPage ''landscape'' imgSize)
                       (Some TIMEOUTS_PEXELS) (Some ''pexels-search'')) w = (r, w') \<longrightarrow>
            ((\<exists>e. r = Inl e) \<or> (\<exists>resp. r = Inr resp \<and> (\<not> ok resp \<or> body resp = None))) \<longrightarrow>
            fetchPexelsImage E query category imgSize w = (Inr JNull, w'))))"
proof (intro conjI)
  show "\<exists>img w'. fetchPexelsImage E query category imgSize w = (Inr img, w')"
    by (rule fetchPexelsImage_resolves)
  show "\<exists>images w'. fetchDiverseLocationImages E locationNames imgSize w = (Inr images, w')"
    by (rule fetchDiverseLocationImages_resolves)
  show "\<forall>e w'. fetchPexelsImage_try E query category imgSize w = (Inl e, w') \<longrightarrow>
      fetchPexelsImage E query category imgSize w = (Inr JNull, w')"
    by (simp add: fetchPexelsImage_def catch_def resolve_def)
  show "\<forall>e w'. fetchDiverseLocationImages_try E locationNames imgSize w = (Inl e, w') \<longrightarrow>
      fetchDiverseLocationImages E locationNames imgSize w = (Inr [], w')"
    by (simp add: fetchDiverseLocationImages_def catch_def resolve_def)
  show "\<not> configured (PEXELS_API_KEY E) \<longrightarrow>
      fetchPexelsImage E query category imgSize w = (Inr JNull, w)"
    by (simp add: fetchPexelsImage_def fetchPexelsImage_try_def select_image_def catch_def resolve_def)
  show "configured (PEXELS_API_KEY E) \<longrightarrow>
      (\<forall>searchQuery perPage. search_parameters query category = (searchQuery, perPage) \<longrightarrow>
         (state (pexels w) = OPEN \<and>
          \<not> int (now w) - int (lastFailureTime (pexels w)) > int (resetTimeout (pexels w)) \<longrightarrow>
            fetchPexelsImage E query category imgSize w = (Inr JNull, w)) \<and>
         (\<forall>r w'. pexels_execute
                    (fetchWithTimeout E (PexelsSearch searchQuery perPage ''landscape'' imgSize)
                       (Some TIMEOUTS_PEXELS) (Some ''pexels-search'')) w = (r, w') \<longrightarrow>
            ((\<exists>e. r = Inl e) \<or> (\<exists>resp. r = Inr resp \<and> (\<not> ok resp \<or> body resp = None))) \<longrightarrow>
            fetchPexelsImage E query category imgSize w = (Inr JNull, w')))"
  proof (intro impI allI conjI)
    fix searchQuery perPage
    assume k: "configured (PEXELS_API_KEY E)"
       and s: "search_parameters query category = (searchQuery, perPage)"
    { assume "state (pexels w) = OPEN \<and>
          \<not> int (now w) - int (lastFailureTime (pexels w)) > int (resetTimeout (pexels w))"
      then show "fetchPexelsImage E query category imgSize w = (Inr JNull, w)"
        using k s
        by (simp add: fetchPexelsImage_def fetchPexelsImage_try_def select_image_def catch_def resolve_def
              andThen_def pexels_execute_def execute_def admit_def) }
    { fix r w'
      assume "pexels_execute
                    (fetchWithTimeout E (PexelsSearch searchQuery perPage ''landscape'' imgSize)
                       (Some TIMEOUTS_PEXELS) (Some ''pexels-search'')) w = (r, w')"
        and "(\<exists>e. r = Inl e) \<or> (\<exists>resp. r = Inr resp \<and> (\<not> ok resp \<or> body resp = None))"
      then show "fetchPexelsImage E query category imgSize w = (Inr JNull, w')"
        using k s
        by (auto simp: fetchPexelsImage_def fetchPexelsImage_try_def select_image_def catch_def resolve_def
              andThen_def response_json_def reject_def) }
  qed
qed

theorem image_fetch_total_witness:
  "fetchPexelsImage slow_keyed ''Marine Drive'' (Some ''attraction'') ''medium'' (boot 0)
     = (Inr JNull,
        (boot 0)\<lparr>now := 8000, sent := 1,
          trace := [SetTimeout 8000,
                    Fetch (PexelsSearch ''Marine Drive landmark attraction tourist'' 10 ''landscape'' ''medium''),
                    Abort, ClearTimeout],
          pexels := circuitBreakers_pexels\<lparr>failures := 1, lastFailureTime := 8000\<rparr>\<rparr>) \<and>
   fetchPexelsImage dead ''Marine Drive'' (Some ''attraction'') ''medium'' (boot 0) = (Inr JNull, boot 0)"
proof -
  let ?w = "(boot 0)\<lparr>now := 8000, sent := 1,
          trace := [SetTimeout 8000,
                    Fetch (PexelsSearch ''Marine Drive landmark attraction tourist'' 10 ''landscape'' ''medium''),
                    Abort, ClearTimeout],
          pexels := circuitBreakers_pexels\<lparr>failures := 1, lastFailureTime := 8000\<rparr>\<rparr>"
  have k: "configured (PEXELS_API_KEY slow_keyed)" by (simp add: slow_keyed_def slow_def)
  have s: "search_parameters ''Marine Drive'' (Some ''attraction'')
             = (''Marine Drive landmark attraction tourist'', 10)"
    by (simp add: search_parameters_def)
  have x: "pexels_execute
             (fetchWithTimeout slow_keyed
                (PexelsSearch ''Marine Drive landmark attraction tourist'' 10 ''landscape'' ''medium'')
                (Some TIMEOUTS_PEXELS) (Some ''pexels-search'')) (boot 0)
           = (Inl (TimeoutError ''pexels-search'' 8000), ?w)"
    by (simp add: pexels_execute_def execute_def admit_def fetchWithTimeout_def fetch_signal_def
          slow_keyed_def slow_def boot_def emit_def TIMEOUTS_PEXELS_def Let_def onFailure_def
          circuitBreakers_pexels_def new_CircuitBreaker_def)
  have d: "\<not> configured (PEXELS_API_KEY dead)" by (simp add: dead_def)
  from image_fetch_total[of slow_keyed "''Marine Drive''" "Some ''attraction''" "''medium''" "boot 0" "[]"]
       k s x
  have 1: "fetchPexelsImage slow_keyed ''Marine Drive'' (Some ''attraction'') ''medium'' (boot 0)
     = (Inr JNull, ?w)" by blast
  from image_fetch_total[of dead "''Marine Drive''" "Some ''attraction''" "''medium''" "boot 0" "[]"] d
  have 2: "fetchPexelsImage dead ''Marine Drive'' (Some ''attraction'') ''medium'' (boot 0) = (Inr JNull, boot 0)"
    by blast
  show ?thesis using 1 2 by (rule conjI)
qed

lemma map_of_put_field:
  "map_of (put_field kvs p v) q = (if q = p then Some v else map_of kvs q)"
  by (induction kvs) auto

lemma fetchPexelsImage_unconfigured:
  "\<not> configured (PEXELS_API_KEY E) \<Longrightarrow> fetchPexelsImage E query category sz w = (Inr JNull, w)"
  by (simp add: fetchPexelsImage_def fetchPexelsImage_try_def select_image_def catch_def resolve_def)

lemma try_fallbacks_unconfigured:
  "\<not> configured (PEXELS_API_KEY E) \<Longrightarrow>
   try_fallbacks E queries category sz JNull w = (Inr JNull, w)"
  by (induction queries) (simp_all add: resolve_def andThen_def fetchPexelsImage_unconfigured)

lemma locate_image_unconfigured:
  "\<not> configured (PEXELS_API_KEY E) \<Longrightarrow> locate_image E sz categorized w = (Inr JNull, w)"
  by (cases categorized)
     (simp add: locate_image_def andThen_def resolve_def fetchPexelsImage_unconfigured
        try_fallbacks_unconfigured)

lemma collect_images_null:
  "collect_images (map (\<lambda>c. (fst c, Inr JNull)) cats) acc = acc"
  by (induction cats) simp_all

lemma fetchDiverseLocationImages_unconfigured:
  "\<not> configured (PEXELS_API_KEY E) \<Longrightarrow>
   fetchDiverseLocationImages E locationNames sz w = (Inr [], w)"
  by (cases "map_result categorize_location locationNames")
     (simp_all add: fetchDiverseLocationImages_def fetchDiverseLocationImages_try_def catch_def
        resolve_def settle_all_unconfigured collect_images_null)

lemma fetchDiverseLocationImages_in_time:
  assumes "fetchDiverseLocationImages E locationNames sz w = (r, w')"
  shows "(\<exists>images. r = Inr images) \<and> now w' \<le> now w + TIMEOUTS_IMAGES"
proof -
  obtain r1 w1 where t: "fetchDiverseLocationImages_try E locationNames sz w = (r1, w1)"
    by (cases "fetchDiverseLocationImages_try E locationNames sz w")
  have "now w1 \<le> now w + TIMEOUTS_IMAGES"
    using t by (rule fetchDiverseLocationImages_try_in_time)
  then show ?thesis using assms t
    by (auto simp: fetchDiverseLocationImages_def catch_def resolve_def split: sum.splits)
qed

lemma catch_fetchDiverseLocationImages:
  "catch (fetchDiverseLocationImages E locationNames sz) handler w =
   fetchDiverseLocationImages E locationNames sz w"
proof (cases "fetchDiverseLocationImages E locationNames sz w")
  case (Pair r w')
  with fetchDiverseLocationImages_in_time[OF Pair] show ?thesis
    by (auto simp: catch_def)
qed

lemma catch_race_fetchDiverseLocationImages:
  "catch (race (fetchDiverseLocationImages E locationNames sz) TIMEOUTS_IMAGES operation) handler w =
   fetchDiverseLocationImages E locationNames sz w"
proof (cases "fetchDiverseLocationImages E locationNames sz w")
  case (Pair r w')
  with fetchDiverseLocationImages_in_time[OF Pair] show ?thesis
    by (auto simp: catch_def race_def)
qed

lemma collect_day_names_fallback_day:
  "\<exists>names1. collect_day_names (fallback_day E t c k) names = Inr names1"
  by (simp add: collect_day_names_def fallback_day_def collect_name_def fallback_activity_def
        fallback_meal_def thenDo_def Let_def)

lemma fold_collect_fallback_days:
  "\<exists>names1. fold_result collect_day_names (map (fallback_day E t c) ks) names = Inr names1"
proof (induction ks arbitrary: names)
  case Nil
  then show ?case by simp
next
  case (Cons k ks)
  from collect_day_names_fallback_day[of E t c k names] obtain n1 where
    "collect_day_names (fallback_day E t c k) names = Inr n1" by blast
  with Cons[of n1] show ?case by simp
qed

lemma extractLocationNames_fallback:
  "\<exists>names. extractLocationNames (generateEnhancedFallbackItinerary E t c d b cfg) c = Inr names"
proof -
  from fold_collect_fallback_days[of E t c "[1 .. d]" "[JString c]"] obtain n1 where
    "fold_result collect_day_names (map (fallback_day E t c) [1 .. d]) [JString c] = Inr n1"
    by blast
  then show ?thesis
    by (simp add: extractLocationNames_def generateEnhancedFallbackItinerary_def thenDo_def)
qed

text \<open>
  Claim C5, as the code behaves. With no credential for the AI upstream and no key for
  the image service, every valid request is answered with status 200 and an empty
  \<^verbatim>\<open>locationImages\<close> mapping: \<^verbatim>\<open>fetchDiverseLocationImages\<close> never rejects, so the
  handler's \<^verbatim>\<open>catch\<close> block, the only place the curated image of the city is attached,
  does not run, and the key of the city is absent.
\<close>

theorem no_fallback_image_attached:
  assumes "city request \<noteq> []" "budget request \<noteq> []" "1 \<le> days request" "days request \<le> 14"
      and "\<not> configured (PERPLEXITY_API_KEY E)" "\<not> configured (PEXELS_API_KEY E)"
  shows "http_status (fst (POST E request w)) = 200 \<and>
         get_opt (payload (fst (POST E request w))) ''locationImages'' = JObject []"
proof -
  let ?cfg = "CITY_CONFIGS (toLowerCase (city request))"
  from extractLocationNames_fallback[of E "now w" "city request" "days request" "budget request" ?cfg]
  obtain names where
    n: "extractLocationNames (generateEnhancedFallbackItinerary E (now w) (city request)
          (days request) (budget request) ?cfg) (city request) = Inr names" by blast
  show ?thesis using assms n
    by (simp add: POST_def handle_def respond_without_ai_def Let_def andThen_def lift_def
          resolve_def catch_fetchDiverseLocationImages fetchDiverseLocationImages_unconfigured
          map_of_put_field)
qed

theorem no_fallback_image_attached_witness:
  "http_status (fst (POST dead mumbai_request (boot 0))) = 200 \<and>
   get_opt (payload (fst (POST dead mumbai_request (boot 0)))) ''locationImages'' = JObject []"
  using no_fallback_image_attached[of mumbai_request dead "boot 0"]
  by (simp add: mumbai_request_def dead_def)
section \<open>The parsing of the reply of the AI upstream\<close>

lemma parse_day_ten:
  \<open>JSON_parse ''{"days":[{"day":10,"dining":[]}]}''
   = Inr (JObject [(''days'', JArray [JObject [(''day'', JNumber 10), (''dining'', JArray [])]])])\<close>
  by code_simp

lemma clean_day_ten:
  \<open>clean_json ''{"days":[{"day":10,"dining":[]}]}'' = ''{"days":[{"day": "10","dining":[]}]}''\<close>
  by code_simp

lemma reply_day_ten:
  \<open>parse_reply (ai_reply ''{"days":[{"day":10,"dining":[]}]}'')
   = Inr (JObject [(''days'', JArray [JObject [(''day'', JString ''10''), (''dining'', JArray [])]])])\<close>
  by code_simp

lemma parse_time:
  \<open>JSON_parse ''{"days":[{"day":1,"morning":[{"time":"9:00 AM"}]}]}''
   = Inr (JObject [(''days'', JArray [JObject [(''day'', JNumber 1),
        (''morning'', JArray [JObject [(''time'', JString ''9:00 AM'')]])]])])\<close>
  by code_simp

lemma clean_time:
  \<open>clean_json ''{"days":[{"day":1,"morning":[{"time":"9:00 AM"}]}]}''
   = ''{"days":[{"day":1,"morning":[{"time":"9: "00 AM""}]}]}''\<close>
  by code_simp

lemma reply_time:
  \<open>parse_reply (ai_reply ''{"days":[{"day":1,"morning":[{"time":"9:00 AM"}]}]}'')
   = Inl (Error ''Failed to parse AI response after multiple attempts'')\<close>
  by code_simp

lemma reply_bare:
  \<open>parse_reply (ai_reply ''{"days":[{"day":1}]}'')
   = Inr (JObject [(''days'', JArray [JObject [(''day'', JNumber 1)]])])\<close>
  by code_simp

lemma reply_in_prose:
  \<open>parse_reply (ai_reply ''Plan {"days":[{"day":1}]} (see {notes})'')
   = Inl (Error ''Failed to parse AI response after multiple attempts'')\<close>
  by code_simp

text \<open>
  Claim C2, as the code behaves. The cleaning steps are not the identity on clean JSON,
  and the parser does not give back the object that was serialised. A number of two or
  more digits after a colon is put in quotes, so the day number 10 comes back as the
  string \<^verbatim>\<open>"10"\<close>. A string value with a colon in it, such as the time
  \<^verbatim>\<open>"9:00 AM"\<close>, is cut at the colon and its rest quoted again; the text is then no
  JSON, each of the five attempts fails in the same way, and the parser throws. A document
  that parses when it stands alone is not found when the prose after it holds a pair of
  braces.
\<close>

theorem repair_changes_clean_json:
  \<open>JSON_parse ''{"days":[{"day":10,"dining":[]}]}''
     = Inr (JObject [(''days'', JArray [JObject [(''day'', JNumber 10), (''dining'', JArray [])]])]) \<and>
   clean_json ''{"days":[{"day":10,"dining":[]}]}'' = ''{"days":[{"day": "10","dining":[]}]}'' \<and>
   parse_reply (ai_reply ''{"days":[{"day":10,"dining":[]}]}'')
     = Inr (JObject [(''days'', JArray [JObject [(''day'', JString ''10''), (''dining'', JArray [])]])]) \<and>
   JSON_parse ''{"days":[{"day":1,"morning":[{"time":"9:00 AM"}]}]}''
     = Inr (JObject [(''days'', JArray [JObject [(''day'', JNumber 1),
          (''morning'', JArray [JObject [(''time'', JString ''9:00 AM'')]])]])]) \<and>
   clean_json ''{"days":[{"day":1,"morning":[{"time":"9:00 AM"}]}]}''
     = ''{"days":[{"day":1,"morning":[{"time":"9: "00 AM""}]}]}'' \<and>
   parse_reply (ai_reply ''{"days":[{"day":1,"morning":[{"time":"9:00 AM"}]}]}'')
     = Inl (Error ''Failed to parse AI response after multiple attempts'') \<and>
   parse_reply (ai_reply ''{"days":[{"day":1}]}'')
     = Inr (JObject [(''days'', JArray [JObject [(''day'', JNumber 1)]])]) \<and>
   parse_reply (ai_reply ''Plan {"days":[{"day":1}]} (see {notes})'')
     = Inl (Error ''Failed to parse AI response after multiple attempts'')\<close>
  by (intro conjI) (rule parse_day_ten, rule clean_day_ten, rule reply_day_ten, rule parse_time,
        rule clean_time, rule reply_time, rule reply_bare, rule reply_in_prose)

theorem repair_changes_clean_json_witness:
  \<open>parse_reply (ai_reply ''{"days":[{"day":10,"dining":[]}]}'')
     \<noteq> JSON_parse ''{"days":[{"day":10,"dining":[]}]}'' \<and>
   parse_reply (ai_reply ''{"days":[{"day":1,"morning":[{"time":"9:00 AM"}]}]}'')
     \<noteq> JSON_parse ''{"days":[{"day":1,"morning":[{"time":"9:00 AM"}]}]}''\<close>
  using repair_changes_clean_json by simp
section \<open>Errors of the handler\<close>

lemma perplexity_request_answered:
  assumes net: "network E (sent w) (PerplexityChat prompt) = \<lparr>latency = l, settles = Inr resp\<rparr>"
      and fast: "l < TIMEOUTS_AI"
      and closed: "state (perplexity w) = CLOSED"
  shows "\<exists>w1. perplexity_request E prompt w = (Inr resp, w1) \<and> now w1 = now w + l \<and>
           sent w1 = sent w + 1 \<and> pexels w1 = pexels w \<and> drawn w1 = drawn w"
proof -
  let ?op = "perplexity_execute
               (fetchWithTimeout E (PerplexityChat prompt) (Some TIMEOUTS_AI) (Some ''perplexity-api''))"
  let ?w0 = "emit (Attempt ''Perplexity API Call'' 1 3) w"
  obtain r w1 where op: "?op ?w0 = (r, w1)" by (cases "?op ?w0")
  have r: "r = Inr resp" and f: "now w1 = now w + l" "sent w1 = sent w + 1" "pexels w1 = pexels w"
       "drawn w1 = drawn w"
    using op net fast closed
    by (auto simp: perplexity_execute_def execute_def admit_def fetchWithTimeout_def
          fetch_signal_def Let_def emit_def split: prod.splits sum.splits if_splits)
  have "retry_loop ?op 3 2000 ''Perplexity API Call'' 1 None w = (Inr resp, w1)"
    using op r by (intro retry_loop_success) simp_all
  then show ?thesis using f by (simp add: perplexity_request_def retryWithBackoff_def)
qed

lemma ai_block_answered:
  assumes net: "network E (sent w) (PerplexityChat prompt) =
                  \<lparr>latency = l, settles = Inr \<lparr>status = 200, body = Some data\<rparr>\<rparr>"
      and fast: "l < TIMEOUTS_AI"
      and closed: "state (perplexity w) = CLOSED"
  shows "\<exists>w1. ai_block E prompt w = (parse_reply data, w1) \<and> now w1 = now w + l \<and>
           sent w1 = sent w + 1 \<and> pexels w1 = pexels w \<and> drawn w1 = drawn w"
proof -
  from perplexity_request_answered[OF net fast closed] obtain w1 where
    p: "perplexity_request E prompt w = (Inr \<lparr>status = 200, body = Some data\<rparr>, w1)"
       "now w1 = now w + l" "sent w1 = sent w + 1" "pexels w1 = pexels w" "drawn w1 = drawn w"
    by blast
  show ?thesis using p
    by (simp add: ai_block_def andThen_def ok_def response_json_def catch_def resolve_def lift_def)
qed

lemma ai_says_block:
  "\<exists>w1. ai_block (ai_says content) prompt (boot t) = (parse_reply (ai_reply content), w1)"
proof -
  have "\<exists>w1. ai_block (ai_says content) prompt (boot t) = (parse_reply (ai_reply content), w1) \<and>
          now w1 = now (boot t) + 900 \<and> sent w1 = sent (boot t) + 1 \<and>
          pexels w1 = pexels (boot t) \<and> drawn w1 = drawn (boot t)"
    by (rule ai_block_answered)
       (simp_all add: ai_says_def dead_def boot_def TIMEOUTS_AI_def circuitBreakers_perplexity_def
          new_CircuitBreaker_def)
  then show ?thesis by blast
qed

lemma toLowerCase_Mumbai: "toLowerCase ''Mumbai'' = ''mumbai''"
  by code_simp

lemma toLowerCase_constructor: "toLowerCase ''constructor'' = ''constructor''"
  by code_simp

lemma build_prompt_mumbai:
  "\<exists>prompt. build_prompt E ''Mumbai'' b d i wthr tips (CITY_CONFIGS ''mumbai'') = Inr prompt"
  by (simp add: build_prompt_def CITY_CONFIGS_def CITY_CONFIGS_mumbai_def Let_def thenDo_def)

lemma build_prompt_constructor:
  "build_prompt E c b d i wthr True (CITY_CONFIGS ''constructor'')
     = Inl (TypeError ''Cannot read properties of undefined'')"
  by (simp add: build_prompt_def CITY_CONFIGS_def Let_def thenDo_def)

lemma reply_null_day:
  \<open>parse_reply (ai_reply ''{"days":[null]}'') = Inr (JObject [(''days'', JArray [JNull])])\<close>
  by code_simp

lemma validate_null_day:
  "validateAndEnhanceItinerary E t (JObject [(''days'', JArray [JNull])]) c d b cfg
     = Inl (TypeError ''Cannot read properties of null'')"
  by (simp add: validateAndEnhanceItinerary_def validate_day_def thenDo_def)

lemma respond_with_ai_validation_throws:
  assumes "build_prompt E c b d i wthr tips cfg = Inr prompt"
      and "ai_block E prompt w = (Inr it, w1)"
      and "validateAndEnhanceItinerary E (now w1) it c d b cfg = Inl e"
  shows "respond_with_ai E t0 c b d i wthr tips sz cfg w = (Inl e, w1)"
  using assms
  by (simp add: respond_with_ai_def ai_or_fallback_def andThen_def lift_def catch_def)

text \<open>
  Claim C4, as the code behaves. A valid request can be answered with status 500 because
  of what an upstream returns. When the AI upstream answers a request for two days in
  Mumbai with the document \<^verbatim>\<open>{"days":[null]}\<close>, the parser accepts it, the validation
  of the days reads \<^verbatim>\<open>day.dining\<close> of \<^verbatim>\<open>null\<close> outside every inner \<^verbatim>\<open>try\<close>
  block, and the outer \<^verbatim>\<open>catch\<close> answers with status 500. A valid request for the city
  \<^verbatim>\<open>constructor\<close> is answered with status 500 whenever a credential for the AI
  upstream is configured: the city's configuration is then a property inherited by the
  table, whose \<^verbatim>\<open>culturalTips\<close> is \<^verbatim>\<open>undefined\<close>.
\<close>

theorem malformed_reply_surfaces:
  \<open>http_status (fst (POST (ai_says ''{"days":[null]}'') mumbai_request (boot 0))) = 500 \<and>
   get_opt (payload (fst (POST (ai_says ''{"days":[null]}'') mumbai_request (boot 0)))) ''type''
     = JString ''general'' \<and>
   http_status (fst (POST (dead\<lparr>PERPLEXITY_API_KEY := Some ''key''\<rparr>) constructor_request (boot 0)))
     = 500\<close>
proof (subst conj_assoc[symmetric], rule conjI)
  let ?E = \<open>ai_says ''{"days":[null]}''\<close>
  obtain prompt where p: "build_prompt ?E ''Mumbai'' ''50000'' 2 (Some []) True True
                            (CITY_CONFIGS ''mumbai'') = Inr prompt"
    using build_prompt_mumbai by blast
  obtain w1 where a: \<open>ai_block ?E prompt (boot 0) = (parse_reply (ai_reply ''{"days":[null]}''), w1)\<close>
    using ai_says_block by blast
  have r: "respond_with_ai ?E 0 ''Mumbai'' ''50000'' 2 (Some []) True True ''medium''
             (CITY_CONFIGS ''mumbai'') (boot 0)
           = (Inl (TypeError ''Cannot read properties of null''), w1)"
    using p a[unfolded reply_null_day] validate_null_day
    by (rule respond_with_ai_validation_throws)
  have k: "configured (PERPLEXITY_API_KEY ?E)" by (simp add: ai_says_def dead_def)
  have n: "now (boot 0) = 0" by (simp add: boot_def)
  show \<open>http_status (fst (POST ?E mumbai_request (boot 0))) = 500 \<and>
   get_opt (payload (fst (POST ?E mumbai_request (boot 0)))) ''type'' = JString ''general''\<close>
    using r k n
    by (simp add: POST_def handle_def mumbai_request_def toLowerCase_Mumbai Let_def)
next
  let ?E = "dead\<lparr>PERPLEXITY_API_KEY := Some ''key''\<rparr>"
  have k: "configured (PERPLEXITY_API_KEY ?E)" by simp
  have n: "now (boot 0) = 0" by (simp add: boot_def)
  have r: "respond_with_ai ?E 0 ''constructor'' ''50000'' 2 (Some []) True True ''medium''
             (CITY_CONFIGS ''constructor'') (boot 0)
           = (Inl (TypeError ''Cannot read properties of undefined''), boot 0)"
    by (simp add: respond_with_ai_def andThen_def lift_def build_prompt_constructor)
  show "http_status (fst (POST ?E constructor_request (boot 0))) = 500"
    using r k n
    by (simp add: POST_def handle_def constructor_request_def mumbai_request_def
          toLowerCase_constructor Let_def)
qed

theorem malformed_reply_surfaces_witness:
  \<open>http_status (fst (POST (ai_says ''{"days":[null]}'') mumbai_request (boot 0))) \<noteq> 200\<close>
  using malformed_reply_surfaces by simp
section \<open>The days and meals of the returned document\<close>

lemma get_Inr: "get x p = Inr v \<Longrightarrow> v = get_opt x p"
  by (cases x) (auto split: option.splits if_splits)

lemma get_opt_put_other:
  "put x p v = Inr y \<Longrightarrow> q \<noteq> p \<Longrightarrow> get_opt y q = get_opt x q"
  by (cases x) (auto simp: map_of_put_field)

lemma get_opt_put_same:
  "put x p v = Inr y \<Longrightarrow> p \<noteq> ''length'' \<Longrightarrow> get_opt y p = v"
  by (cases x) (auto simp: map_of_put_field)

lemma is_array_put: "put x p v = Inr y \<Longrightarrow> is_array y = is_array x"
  by (cases x) auto

lemma is_array_truthy: "is_array x \<Longrightarrow> truthy x"
  by (cases x) auto

lemma iterate_array: "is_array x \<Longrightarrow> iterate x = Inr (elements x)"
  by (cases x) auto

lemma elements_with_elements: "is_array x \<Longrightarrow> elements (with_elements x ys) = ys"
  by (cases x) auto

lemma is_array_with_elements: "is_array (with_elements x ys) = is_array x"
  by (cases x) auto

lemma map_result_pointwise:
  assumes "\<And>x y. f x = Inr y \<Longrightarrow> g y = h x"
  shows "map_result f xs = Inr ys \<Longrightarrow> map g ys = map h xs"
proof (induction xs arbitrary: ys)
  case Nil
  then show ?case by simp
next
  case (Cons x xs)
  then show ?case using assms
    by (auto split: sum.splits)
qed

lemma map_promise_pointwise:
  assumes "\<And>x y wa wb. step x wa = (Inr y, wb) \<Longrightarrow> g y = g x"
  shows "map_promise step xs w = (Inr ys, w') \<Longrightarrow> map g ys = map g xs"
proof (induction xs arbitrary: ys w w')
  case Nil
  then show ?case by (simp add: resolve_def)
next
  case (Cons x xs)
  then show ?case using assms
    by (auto simp: andThen_def resolve_def split: sum.splits prod.splits)
qed

lemma meal_map_keys:
  "map_result (\<lambda>meal. thenDo (get meal ''meal'') (\<lambda>k. Inr (k, meal))) meals = Inr mealMap \<Longrightarrow>
   \<forall>(k, v) \<in> set mealMap. get_opt v ''meal'' = k"
proof (induction meals arbitrary: mealMap)
  case Nil
  then show ?case by simp
next
  case (Cons m ms)
  then show ?case
    by (auto simp: thenDo_def split: sum.splits dest: get_Inr)
qed

lemma lookup_last_member:
  "lookup_last mealMap key = v \<Longrightarrow> v \<noteq> JUndefined \<Longrightarrow> (key, v) \<in> set mealMap"
  by (induction mealMap) (auto split: if_splits)

lemma ensureAllMeals_labels:
  assumes "ensureAllMeals existing c = Inr meals"
  shows "\<exists>ms. meals = JArray ms \<and> map (\<lambda>meal. get_opt meal ''meal'') ms = three_meals"
proof -
  from assms obtain xs mealMap where
    mm: "map_result (\<lambda>meal. thenDo (get meal ''meal'') (\<lambda>k. Inr (k, meal))) xs = Inr mealMap"
    and m: "meals = JArray (map (\<lambda>mealType. js_or (lookup_last mealMap (JString mealType))
                                           (default_meal c mealType))
                        [''Breakfast'', ''Lunch'', ''Dinner''])"
    by (auto simp: ensureAllMeals_def thenDo_def split: sum.splits)
  have l: "get_opt (js_or (lookup_last mealMap (JString t)) (default_meal c t)) ''meal'' = JString t"
    for t
  proof (cases "truthy (lookup_last mealMap (JString t))")
    case True
    then have "lookup_last mealMap (JString t) \<noteq> JUndefined" by auto
    with lookup_last_member[OF refl this] meal_map_keys[OF mm] True show ?thesis
      by (auto simp: js_or_def)
  next
    case False
    then show ?thesis by (simp add: js_or_def default_meal_def)
  qed
  show ?thesis using m l by (simp add: three_meals_def)
qed

lemma validate_day_labels:
  assumes "validate_day E c day = Inr day1"
  shows "is_array day1 = is_array day \<and> meal_labels day1 = repaired_labels E day"
proof -
  from assms obtain dining where g: "get day ''dining'' = Inr dining"
    by (auto simp: validate_day_def thenDo_def split: sum.splits)
  then have d: "dining = get_opt day ''dining''" by (rule get_Inr)
  show ?thesis
  proof (cases "lacks_meals E day")
    case False
    then have "day1 = day" using assms g d
      by (auto simp: validate_day_def thenDo_def lacks_meals_def)
    then show ?thesis using False by (simp add: repaired_labels_def meal_labels_def)
  next
    case True
    then obtain meals where e: "ensureAllMeals (js_or dining (JArray [])) c = Inr meals"
      and p: "put day ''dining'' meals = Inr day1"
      using assms g d
      by (auto simp: validate_day_def thenDo_def lacks_meals_def split: sum.splits)
    from ensureAllMeals_labels[OF e] obtain ms where
      ms: "meals = JArray ms" "map (\<lambda>meal. get_opt meal ''meal'') ms = three_meals" by blast
    have "get_opt day1 ''dining'' = meals" using p by (rule get_opt_put_same) simp
    then show ?thesis using True ms is_array_put[OF p]
      by (simp add: repaired_labels_def meal_labels_def)
  qed
qed

lemma length_fallback_days: "length (map f [1 .. d]) = nat d"
  by simp

lemma meal_labels_fallback_day: "meal_labels (fallback_day E t c k) = three_meals"
  by (simp add: meal_labels_def fallback_day_def fallback_meal_def three_meals_def Let_def)

lemma validate_fallback_day: "validate_day E c (fallback_day E t0 c0 k) = Inr (fallback_day E t0 c0 k)"
  by (simp add: validate_day_def fallback_day_def thenDo_def Let_def js_lt_def)

lemma validate_fallback_days:
  "map_result (validate_day E c) (map (fallback_day E t0 c0) ks) = Inr (map (fallback_day E t0 c0) ks)"
  by (induction ks) (simp_all add: validate_fallback_day)

lemma labels_generated:
  "map meal_labels (elements (get_opt (generateEnhancedFallbackItinerary E t c d b cfg) ''days''))
     = replicate (nat d) three_meals"
  by (simp add: generateEnhancedFallbackItinerary_def meal_labels_fallback_day map_replicate_const
        comp_def)

lemma validate_labels:
  assumes v: "validateAndEnhanceItinerary E t it c d b cfg = Inr it1"
  shows "is_array (get_opt it1 ''days'') \<and>
         map meal_labels (elements (get_opt it1 ''days'')) =
           (if is_array (get_opt it ''days'')
            then map (repaired_labels E) (elements (get_opt it ''days''))
            else replicate (nat d) three_meals)"
proof (cases "is_array (get_opt it ''days'')")
  case False
  then have "it1 = generateEnhancedFallbackItinerary E t c d b cfg" using v
    by (auto simp: validateAndEnhanceItinerary_def)
  then show ?thesis using False labels_generated
    by (simp add: generateEnhancedFallbackItinerary_def)
next
  case True
  then have t: "truthy (get_opt it ''days'')" by (rule is_array_truthy)
  have ti: "truthy it" using True by (cases it) auto
  from v t ti True obtain ita ds1 where
    s: "(if \<not> truthy (get_opt it ''summary'')
         then put it ''summary''
                (JObject [(''totalCost'', JString (rupee @ b)),
                   (''highlights'', JArray [JString (''Explore '' @ c),
                      JString ''Experience local culture'', JString ''Enjoy local cuisine'']),
                   (''tips'', JArray [JString ''Plan ahead'', JString ''Stay hydrated'',
                      JString ''Respect local customs'']),
                   (''bestTime'', JString ''Year-round destination'')])
         else Inr it) = Inr ita"
    and m: "map_result (validate_day E c) (elements (get_opt it ''days'')) = Inr ds1"
    and p: "put ita ''days'' (with_elements (get_opt it ''days'') ds1) = Inr it1"
    by (auto simp: validateAndEnhanceItinerary_def thenDo_def iterate_array split: sum.splits)
  have g: "get_opt it1 ''days'' = with_elements (get_opt it ''days'') ds1"
    using p by (rule get_opt_put_same) simp
  have l: "map meal_labels ds1 = map (repaired_labels E) (elements (get_opt it ''days''))"
    using _ m by (rule map_result_pointwise) (simp add: validate_day_labels)
  show ?thesis using True g l
    by (simp add: elements_with_elements is_array_with_elements)
qed

lemma enhance_list_cases:
  assumes "enhance_list step key day w = (Inr day1, w')"
  shows "day1 = day \<or>
         (\<exists>xs1 wa. is_array (get_opt day key) \<and>
            map_promise step (elements (get_opt day key)) w = (Inr xs1, wa) \<and>
            put day key (with_elements (get_opt day key) xs1) = Inr day1)"
proof -
  from assms obtain items where g: "get day key = Inr items"
    by (auto simp: enhance_list_def andThen_def lift_def split: sum.splits)
  then have i: "items = get_opt day key" by (rule get_Inr)
  show ?thesis
  proof (cases items)
    case (JArray xs)
    then show ?thesis using assms g i
      by (auto simp: enhance_list_def andThen_def lift_def split: sum.splits prod.splits)
  next
    case (JArrayProps xs ps)
    then show ?thesis using assms g i
      by (auto simp: enhance_list_def andThen_def lift_def split: sum.splits prod.splits)
  next
    case (JString s)
    then show ?thesis using assms g
      by (auto simp: enhance_list_def andThen_def lift_def resolve_def
            split: sum.splits prod.splits if_splits)
  qed (use assms g in \<open>auto simp: enhance_list_def andThen_def lift_def resolve_def reject_def
            split: if_splits\<close>)
qed

lemma enhance_list_other:
  assumes "enhance_list step key day w = (Inr day1, w')" and "q \<noteq> key"
  shows "get_opt day1 q = get_opt day q \<and> is_array day1 = is_array day"
  using enhance_list_cases[OF assms(1)] assms(2)
  by (auto dest: get_opt_put_other is_array_put)

lemma enhance_list_key:
  assumes e: "enhance_list step key day w = (Inr day1, w')"
      and s: "\<And>x y wa wb. step x wa = (Inr y, wb) \<Longrightarrow> g y = g x"
      and k: "key \<noteq> ''length''"
  shows "map g (elements (get_opt day1 key)) = map g (elements (get_opt day key)) \<and>
         is_array day1 = is_array day"
proof -
  from enhance_list_cases[OF e] show ?thesis
  proof
    assume "day1 = day"
    then show ?thesis by simp
  next
    assume "\<exists>xs1 wa. is_array (get_opt day key) \<and>
            map_promise step (elements (get_opt day key)) w = (Inr xs1, wa) \<and>
            put day key (with_elements (get_opt day key) xs1) = Inr day1"
    then obtain xs1 wa where a: "is_array (get_opt day key)"
      and m: "map_promise step (elements (get_opt day key)) w = (Inr xs1, wa)"
      and p: "put day key (with_elements (get_opt day key) xs1) = Inr day1" by blast
    have "get_opt day1 key = with_elements (get_opt day key) xs1"
      using p k by (rule get_opt_put_same)
    moreover have "map g xs1 = map g (elements (get_opt day key))"
      using _ m by (rule map_promise_pointwise) (rule s)
    ultimately show ?thesis using a is_array_put[OF p]
      by (simp add: elements_with_elements)
  qed
qed

lemma with_current_status_other:
  "with_current_status E t details item = Inr item1 \<Longrightarrow> q \<noteq> ''currentStatus'' \<Longrightarrow>
   get_opt item1 q = get_opt item q"
  by (auto simp: with_current_status_def Let_def split: if_splits dest: get_opt_put_other)

lemma enhance_meal_label:
  assumes "enhance_meal E c meal w = (Inr meal1, w')"
  shows "get_opt meal1 ''meal'' = get_opt meal ''meal''"
proof -
  have p: "\<And>x v y. put x ''location'' v = Inr y \<Longrightarrow> get_opt y ''meal'' = get_opt x ''meal''"
    by (erule get_opt_put_other) simp
  have s: "\<And>t details item item1. with_current_status E t details item = Inr item1 \<Longrightarrow>
             get_opt item1 ''meal'' = get_opt item ''meal''"
    by (erule with_current_status_other) simp
  show ?thesis using assms
    by (auto simp: enhance_meal_def andThen_def lift_def resolve_def
          split: sum.splits prod.splits if_splits dest!: p s)
qed

lemma enhance_day_labels:
  assumes "enhance_day E c day w = (Inr day1, w')"
  shows "meal_labels day1 = meal_labels day"
proof -
  from assms obtain d1 w1 d2 w2 d3 w3 where
    1: "enhance_list (enhance_activity E c) ''morning'' day w = (Inr d1, w1)" and
    2: "enhance_list (enhance_activity E c) ''afternoon'' d1 w1 = (Inr d2, w2)" and
    3: "enhance_list (enhance_activity E c) ''evening'' d2 w2 = (Inr d3, w3)" and
    4: "enhance_list (enhance_meal E c) ''dining'' d3 w3 = (Inr day1, w')"
    by (auto simp: enhance_day_def andThen_def split: sum.splits prod.splits)
  have a: "get_opt d1 ''dining'' = get_opt day ''dining'' \<and> is_array d1 = is_array day"
    using 1 by (rule enhance_list_other) simp
  have b: "get_opt d2 ''dining'' = get_opt d1 ''dining'' \<and> is_array d2 = is_array d1"
    using 2 by (rule enhance_list_other) simp
  have c: "get_opt d3 ''dining'' = get_opt d2 ''dining'' \<and> is_array d3 = is_array d2"
    using 3 by (rule enhance_list_other) simp
  have d: "map (\<lambda>meal. get_opt meal ''meal'') (elements (get_opt day1 ''dining'')) =
           map (\<lambda>meal. get_opt meal ''meal'') (elements (get_opt d3 ''dining'')) \<and>
           is_array day1 = is_array d3"
    using 4 by (rule enhance_list_key) (simp_all add: enhance_meal_label)
  show ?thesis using a b c d by (simp add: meal_labels_def)
qed

lemma enhanceWithRealPlaces_labels:
  assumes "enhanceWithRealPlaces E it c w = (Inr it1, w')"
  shows "map meal_labels (elements (get_opt it1 ''days'')) =
           map meal_labels (elements (get_opt it ''days'')) \<and>
         is_array (get_opt it1 ''days'') = is_array (get_opt it ''days'')"
proof (cases "get_opt it ''days''")
  case (JArray ds)
  with assms obtain ds1 wa where
    m: "map_promise (enhance_day E c) ds w = (Inr ds1, wa)" and
    p: "put it ''days'' (JArray ds1) = Inr it1"
    by (auto simp: enhanceWithRealPlaces_def andThen_def lift_def split: sum.splits prod.splits)
  have "get_opt it1 ''days'' = JArray ds1" using p by (rule get_opt_put_same) simp
  moreover have "map meal_labels ds1 = map meal_labels ds"
    using _ m by (rule map_promise_pointwise) (rule enhance_day_labels)
  ultimately show ?thesis using JArray by simp
next
  case (JArrayProps ds ps)
  with assms obtain ds1 wa where
    m: "map_promise (enhance_day E c) ds w = (Inr ds1, wa)" and
    p: "put it ''days'' (JArrayProps ds1 ps) = Inr it1"
    by (auto simp: enhanceWithRealPlaces_def andThen_def lift_def split: sum.splits prod.splits)
  have "get_opt it1 ''days'' = JArrayProps ds1 ps" using p by (rule get_opt_put_same) simp
  moreover have "map meal_labels ds1 = map meal_labels ds"
    using _ m by (rule map_promise_pointwise) (rule enhance_day_labels)
  ultimately show ?thesis using JArrayProps by simp
qed (use assms in \<open>auto simp: enhanceWithRealPlaces_def andThen_def lift_def resolve_def reject_def
        split: sum.splits prod.splits if_splits\<close>)

lemma last_show_nat: "last (show_nat n) = char_of (48 + n mod 10)"
  by (subst show_nat.simps) simp

lemma show_nat_not_days: "show_nat n \<noteq> ''days''"
proof
  assume "show_nat n = ''days''"
  then have "last (show_nat n) = CHR ''s''" by simp
  then have "char_of (48 + n mod 10) = CHR ''s''" by (simp add: last_show_nat)
  then have "(of_char (char_of (48 + n mod 10) :: char) :: nat) = of_char CHR ''s''" by simp
  then show False by simp
qed

lemma spread_days:
  assumes "is_array (get_opt x ''days'')"
  shows "(case map_of (spread x) ''days'' of None \<Rightarrow> JUndefined | Some v \<Rightarrow> v) = get_opt x ''days''"
proof (cases x)
  case (JArrayProps xs ps)
  have "''days'' \<notin> show_nat ` set [0 ..< length xs]"
    by (metis imageE show_nat_not_days)
  then have "map_of (map (\<lambda>i. (show_nat i, xs ! i)) [0 ..< length xs]) ''days'' = None"
    by (simp add: map_of_eq_None_iff image_image)
  then show ?thesis using JArrayProps by (simp add: map_add_def map_of_append split: option.splits)
qed (use assms in auto)

lemma repaired_fallback_day: "repaired_labels E (fallback_day E0 t c k) = three_meals"
proof -
  have "\<not> is_array (fallback_day E0 t c k)" "\<not> lacks_meals E (fallback_day E0 t c k)"
    by (simp_all add: fallback_day_def lacks_meals_def js_lt_def Let_def)
  then show ?thesis by (simp add: repaired_labels_def meal_labels_fallback_day)
qed

lemma ai_or_fallback_cases:
  assumes a: "ai_or_fallback E prompt c d b cfg w = (Inr it, w1)"
      and r: "ai_block E prompt w = (r, wa)"
  shows "(if is_array (get_opt it ''days'')
          then map (repaired_labels E) (elements (get_opt it ''days''))
          else replicate (nat d) three_meals) =
         (case ai_days r of
            None \<Rightarrow> replicate (nat d) three_meals
          | Some ads \<Rightarrow> map (repaired_labels E) ads)"
proof (cases r)
  case (Inr x)
  then have "it = x" using a r by (simp add: ai_or_fallback_def catch_def)
  then show ?thesis using Inr by (simp add: ai_days_def)
next
  case (Inl e)
  then have "get_opt it ''days'' = JArray (map (fallback_day E (now wa) c) [1 .. d])"
    using a r
    by (auto simp: ai_or_fallback_def catch_def lift_def generateEnhancedFallbackItinerary_def
          map_of_put_field Let_def)
  then show ?thesis using Inl
    by (simp add: ai_days_def repaired_fallback_day comp_def map_replicate_const)
qed

lemma respond_with_ai_ok:
  assumes "respond_with_ai E t0 c b d i wt tips sz cfg w = (Inr resp, w')"
  shows "\<exists>prompt it w1 it1 it2 w2.
           build_prompt E c b d i wt tips cfg = Inr prompt \<and>
           ai_or_fallback E prompt c d b cfg w = (Inr it, w1) \<and>
           validateAndEnhanceItinerary E (now w1) it c d b cfg = Inr it1 \<and>
           enhanceWithRealPlaces E it1 c w1 = (Inr it2, w2) \<and>
           get_opt (payload resp) ''days'' =
             (case map_of (spread it2) ''days'' of None \<Rightarrow> JUndefined | Some v \<Rightarrow> v)"
proof -
  from assms obtain prompt where p: "build_prompt E c b d i wt tips cfg = Inr prompt"
    by (cases "build_prompt E c b d i wt tips cfg")
       (auto simp: respond_with_ai_def andThen_def lift_def)
  from assms p obtain it w1 where a: "ai_or_fallback E prompt c d b cfg w = (Inr it, w1)"
    by (cases "ai_or_fallback E prompt c d b cfg w")
       (auto simp: respond_with_ai_def andThen_def lift_def split: sum.splits)
  from assms p a obtain it1 where
    v: "validateAndEnhanceItinerary E (now w1) it c d b cfg = Inr it1"
    by (cases "validateAndEnhanceItinerary E (now w1) it c d b cfg")
       (auto simp: respond_with_ai_def andThen_def lift_def)
  from assms p a v obtain it2 w2 where e: "enhanceWithRealPlaces E it1 c w1 = (Inr it2, w2)"
    by (cases "enhanceWithRealPlaces E it1 c w1")
       (auto simp: respond_with_ai_def andThen_def lift_def split: sum.splits)
  have "get_opt (payload resp) ''days'' =
          (case map_of (spread it2) ''days'' of None \<Rightarrow> JUndefined | Some v \<Rightarrow> v)"
    using assms p a v e
    by (auto simp: respond_with_ai_def andThen_def lift_def resolve_def map_of_put_field
          split: sum.splits prod.splits)
  with p a v e show ?thesis by blast
qed

lemma respond_without_ai_ok:
  "\<exists>resp w1. respond_without_ai E t0 c b d sz cfg w = (Inr resp, w1) \<and> http_status resp = 200 \<and>
     get_opt (payload resp) ''days'' = JArray (map (fallback_day E (now w) c) [1 .. d])"
proof -
  from extractLocationNames_fallback[of E "now w" c d b cfg] obtain names where
    n: "extractLocationNames (generateEnhancedFallbackItinerary E (now w) c d b cfg) c = Inr names"
    by blast
  obtain r w1 where f: "fetchDiverseLocationImages E names sz w = (r, w1)"
    by (cases "fetchDiverseLocationImages E names sz w")
  with fetchDiverseLocationImages_in_time[OF f] obtain images where
    i: "fetchDiverseLocationImages E names sz w = (Inr images, w1)" by blast
  show ?thesis using n i
    by (simp add: respond_without_ai_def Let_def andThen_def lift_def resolve_def
          catch_fetchDiverseLocationImages map_of_put_field generateEnhancedFallbackItinerary_def)
qed

lemma POST_ok_valid:
  assumes "http_status (fst (POST E request w)) = 200"
  shows "city request \<noteq> [] \<and> budget request \<noteq> [] \<and> 1 \<le> days request \<and> days request \<le> 14"
proof (rule ccontr)
  assume "\<not> ?thesis"
  then have "http_status (fst (POST E request w)) = 400"
    by (auto simp: POST_def handle_def bad_request_def resolve_def)
  with assms show False by simp
qed

text \<open>
  Claim C3, as amended. Whenever the endpoint answers with status 200, the document has
  an array of days, and:

  \<^item> when no credential for the AI upstream is configured, when the block that calls the
    AI upstream and parses its reply throws, and when the parsed reply has no array
    \<^verbatim>\<open>days\<close>, the document has exactly \<open>days\<close> day entries, each with exactly the
    three dining entries Breakfast, Lunch and Dinner, in this order;

  \<^item> when the parsed reply has an array \<^verbatim>\<open>days\<close>, the document has one day entry for
    each entry of that array, in its order, whatever the number of days requested: an
    entry whose \<^verbatim>\<open>dining\<close> is missing or shorter than three has exactly Breakfast,
    Lunch and Dinner, in this order; an entry with three or more dining entries keeps
    the labels the reply gave it; an entry that is itself an array is written with no
    dining entries.
\<close>

theorem returned_days:
  assumes ok: "http_status (fst (POST E request w)) = 200"
  shows "is_array (get_opt (payload (fst (POST E request w))) ''days'') \<and>
         (\<not> configured (PERPLEXITY_API_KEY E) \<longrightarrow>
            returned_labels E request w = replicate (nat (days request)) three_meals) \<and>
         (configured (PERPLEXITY_API_KEY E) \<longrightarrow>
            (\<forall>prompt r w1.
               build_prompt E (city request) (budget request) (days request) (interests request)
                 (includeWeather request) (includeCulturalTips request)
                 (CITY_CONFIGS (toLowerCase (city request))) = Inr prompt \<longrightarrow>
               ai_block E prompt w = (r, w1) \<longrightarrow>
               returned_labels E request w =
                 (case ai_days r of
                    None \<Rightarrow> replicate (nat (days request)) three_meals
                  | Some ads \<Rightarrow> map (repaired_labels E) ads)))"
proof (cases "configured (PERPLEXITY_API_KEY E)")
  case False
  let ?cfg = "CITY_CONFIGS (toLowerCase (city request))"
  from respond_without_ai_ok[of E "now w" "city request" "budget request" "days request"
         "imageSize request" ?cfg w]
  obtain resp w1 where
    r: "respond_without_ai E (now w) (city request) (budget request) (days request)
          (imageSize request) ?cfg w = (Inr resp, w1)"
       "get_opt (payload resp) ''days'' =
          JArray (map (fallback_day E (now w) (city request)) [1 .. days request])"
    by blast
  have "fst (POST E request w) = resp"
    using POST_ok_valid[OF ok] False r(1) by (auto simp: POST_def handle_def Let_def)
  then show ?thesis using False r(2)
    by (simp add: returned_labels_def meal_labels_fallback_day comp_def map_replicate_const)
next
  case True
  let ?cfg = "CITY_CONFIGS (toLowerCase (city request))"
  let ?run = "respond_with_ai E (now w) (city request) (budget request) (days request)
                (interests request) (includeWeather request) (includeCulturalTips request)
                (imageSize request) ?cfg w"
  have h: "POST E request w = (case ?run of (Inr r, w1) \<Rightarrow> (r, w1)
             | (Inl error, w1) \<Rightarrow>
                 (\<lparr>http_status = (if instanceof_TimeoutError error then 408 else 500),
                   payload = JObject
                     [(''error'', JString (if instanceof_Error error then error_message error
                                           else ''Internal server error'')),
                      (''type'', JString (if instanceof_TimeoutError error then ''timeout''
                                          else ''general''))]\<rparr>, w1))"
    using POST_ok_valid[OF ok] True by (auto simp: POST_def handle_def Let_def)
  obtain resp w' where run: "?run = (Inr resp, w')"
    using ok unfolding h by (cases ?run) (auto split: sum.splits if_splits)
  then have p: "fst (POST E request w) = resp" unfolding h by simp
  from respond_with_ai_ok[OF run] obtain prompt it w1 it1 it2 w2 where
    b: "build_prompt E (city request) (budget request) (days request) (interests request)
          (includeWeather request) (includeCulturalTips request) ?cfg = Inr prompt" and
    a: "ai_or_fallback E prompt (city request) (days request) (budget request) ?cfg w = (Inr it, w1)" and
    v: "validateAndEnhanceItinerary E (now w1) it (city request) (days request) (budget request)
          ?cfg = Inr it1" and
    e: "enhanceWithRealPlaces E it1 (city request) w1 = (Inr it2, w2)" and
    g: "get_opt (payload resp) ''days'' =
          (case map_of (spread it2) ''days'' of None \<Rightarrow> JUndefined | Some v \<Rightarrow> v)"
    by blast
  note vl = validate_labels[OF v]
  note el = enhanceWithRealPlaces_labels[OF e]
  have arr: "is_array (get_opt it2 ''days'')" using vl el by simp
  have days: "get_opt (payload resp) ''days'' = get_opt it2 ''days''"
    using g spread_days[OF arr] by simp
  have labels: "returned_labels E request w =
          (if is_array (get_opt it ''days'')
           then map (repaired_labels E) (elements (get_opt it ''days''))
           else replicate (nat (days request)) three_meals)"
    using p days vl el by (simp add: returned_labels_def)
  have "returned_labels E request w =
          (case ai_days r of
             None \<Rightarrow> replicate (nat (days request)) three_meals
           | Some ads \<Rightarrow> map (repaired_labels E) ads)"
    if "ai_block E prompt w = (r, wa)" for r wa
    using labels ai_or_fallback_cases[OF a that] by simp
  then show ?thesis using True p days arr b by auto
qed

lemma reply_brunch:
  "parse_reply (ai_reply brunch_reply) = Inr (JObject [(''days'', JArray [brunch_day])])"
  by code_simp

lemma POST_without_credential:
  assumes "city request \<noteq> []" "budget request \<noteq> []" "1 \<le> days request" "days request \<le> 14"
      and "\<not> configured (PERPLEXITY_API_KEY E)"
  shows "http_status (fst (POST E request w)) = 200"
proof -
  from respond_without_ai_ok[of E "now w" "city request" "budget request" "days request"
         "imageSize request" "CITY_CONFIGS (toLowerCase (city request))" w]
  obtain resp w1 where
    "respond_without_ai E (now w) (city request) (budget request) (days request)
       (imageSize request) (CITY_CONFIGS (toLowerCase (city request))) w = (Inr resp, w1)"
    "http_status resp = 200" by blast
  then show ?thesis using assms by (auto simp: POST_def handle_def Let_def)
qed

lemma POST_brunch:
  "http_status (fst (POST (ai_says brunch_reply) mumbai_request (boot 0))) = 200 \<and>
   get_opt (payload (fst (POST (ai_says brunch_reply) mumbai_request (boot 0)))) ''days''
     = JArray [brunch_day]"
proof -
  let ?E = "ai_says brunch_reply"
  let ?cfg = "CITY_CONFIGS ''mumbai''"
  let ?doc = "JObject [(''days'', JArray [brunch_day])]"
  obtain prompt where p: "build_prompt ?E ''Mumbai'' ''50000'' 2 (Some []) True True ?cfg = Inr prompt"
    using build_prompt_mumbai by blast
  obtain w1 where a: "ai_block ?E prompt (boot 0) = (Inr ?doc, w1)"
    using ai_says_block[of brunch_reply prompt 0] by (auto simp: reply_brunch)
  obtain doc1 where v: "validateAndEnhanceItinerary ?E (now w1) ?doc ''Mumbai'' 2 ''50000'' ?cfg = Inr doc1"
    and d1: "get_opt doc1 ''days'' = JArray [brunch_day]" "\<exists>kvs. doc1 = JObject kvs"
    by (simp add: validateAndEnhanceItinerary_def validate_day_def thenDo_def brunch_day_def
          js_lt_def)
  then obtain kvs where k: "doc1 = JObject kvs" "map_of kvs ''days'' = Some (JArray [brunch_day])"
    by (auto split: option.splits)
  have pf: "put_field kvs ''days'' (JArray [brunch_day]) = kvs" using k(2)
    by (induction kvs) auto
  have e: "enhanceWithRealPlaces ?E doc1 ''Mumbai'' w1 = (Inr doc1, w1)"
    using k pf
    by (simp add: enhanceWithRealPlaces_def enhance_day_def enhance_list_def enhance_meal_def
          andThen_def lift_def resolve_def brunch_day_def)
  have rt: "validateRealTimeData ?E (now w1) doc1 = Inr (True, [])"
    using k by (simp add: validateRealTimeData_def day_warnings_def thenDo_def brunch_day_def)
  have x: "extractLocationNames doc1 ''Mumbai'' = Inr [JString ''Mumbai'']"
    using k by (simp add: extractLocationNames_def collect_day_names_def collect_name_def
                  thenDo_def brunch_day_def)
  have n: "\<not> configured (PEXELS_API_KEY ?E)" by (simp add: ai_says_def dead_def)
  have c: "countRealPlaces doc1 = Inr 0"
    using k by (simp add: countRealPlaces_def count_day_def count_placeId_def thenDo_def
                  brunch_day_def)
  have ao: "ai_or_fallback ?E prompt ''Mumbai'' 2 ''50000'' ?cfg (boot 0) = (Inr ?doc, w1)"
    using a by (simp add: ai_or_fallback_def catch_def)
  have img: "catch (race (fetchDiverseLocationImages ?E [JString ''Mumbai''] ''medium'')
                      TIMEOUTS_IMAGES ''image-fetch'') handler w1 = (Inr [], w1)" for handler
    by (simp add: catch_race_fetchDiverseLocationImages fetchDiverseLocationImages_unconfigured[OF n])
  have tc: "truthy ?cfg" by (simp add: CITY_CONFIGS_def CITY_CONFIGS_mumbai_def)
  have r: "\<exists>resp. respond_with_ai ?E 0 ''Mumbai'' ''50000'' 2 (Some []) True True ''medium'' ?cfg (boot 0)
             = (Inr resp, w1) \<and> http_status resp = 200 \<and>
               get_opt (payload resp) ''days'' = JArray [brunch_day]"
    using p ao v e rt x c k tc
    by (simp add: respond_with_ai_def andThen_def lift_def resolve_def img map_of_put_field)
  have kc: "configured (PERPLEXITY_API_KEY ?E)" by (simp add: ai_says_def dead_def)
  have n0: "now (boot 0) = 0" by (simp add: boot_def)
  show ?thesis using r kc n0
    by (auto simp: POST_def handle_def mumbai_request_def toLowerCase_Mumbai Let_def)
qed

theorem returned_days_counterexample:
  "days mumbai_request = 2 \<and>
   http_status (fst (POST (ai_says brunch_reply) mumbai_request (boot 0))) = 200 \<and>
   get_opt (payload (fst (POST (ai_says brunch_reply) mumbai_request (boot 0)))) ''days''
     = JArray [JObject [(''dining'', JArray [JObject [(''meal'', JString ''Brunch'')],
                 JObject [(''meal'', JString ''Brunch'')], JObject [(''meal'', JString ''Brunch'')]])]]"
  using POST_brunch by (simp add: mumbai_request_def brunch_day_def)

theorem returned_days_witness:
  "returned_labels dead mumbai_request (boot 0) = [three_meals, three_meals] \<and>
   returned_labels (ai_says brunch_reply) mumbai_request (boot 0)
     = [[JString ''Brunch'', JString ''Brunch'', JString ''Brunch'']]"
proof
  have "http_status (fst (POST dead mumbai_request (boot 0))) = 200"
    by (rule POST_without_credential) (simp_all add: mumbai_request_def dead_def)
  from returned_days[OF this] show "returned_labels dead mumbai_request (boot 0) = [three_meals, three_meals]"
    by (simp add: dead_def mumbai_request_def numeral_2_eq_2)
next
  let ?E = "ai_says brunch_reply"
  have s: "http_status (fst (POST ?E mumbai_request (boot 0))) = 200"
    using POST_brunch by simp
  have k: "configured (PERPLEXITY_API_KEY ?E)" by (simp add: ai_says_def dead_def)
  obtain prompt where p: "build_prompt ?E (city mumbai_request) (budget mumbai_request)
      (days mumbai_request) (interests mumbai_request) (includeWeather mumbai_request)
      (includeCulturalTips mumbai_request) (CITY_CONFIGS (toLowerCase (city mumbai_request)))
      = Inr prompt"
    using build_prompt_mumbai[of ?E "''50000''" 2 "Some []" True True]
    by (auto simp: mumbai_request_def toLowerCase_Mumbai)
  obtain w1 where a: "ai_block ?E prompt (boot 0) = (Inr (JObject [(''days'', JArray [brunch_day])]), w1)"
    using ai_says_block[of brunch_reply prompt 0] by (auto simp: reply_brunch)
  have l: "repaired_labels ?E brunch_day = [JString ''Brunch'', JString ''Brunch'', JString ''Brunch'']"
    by (simp add: repaired_labels_def lacks_meals_def meal_labels_def brunch_day_def js_lt_def)
  from returned_days[OF s] k p a
  have "returned_labels ?E mumbai_request (boot 0) =
          (case ai_days (Inr (JObject [(''days'', JArray [brunch_day])])) of
             None \<Rightarrow> replicate (nat (days mumbai_request)) three_meals
           | Some ads \<Rightarrow> map (repaired_labels ?E) ads)"
    by blast
  then show "returned_labels ?E mumbai_request (boot 0)
     = [[JString ''Brunch'', JString ''Brunch'', JString ''Brunch'']]"
    using l by (simp add: ai_days_def)
qed
section \<open>What the fallback absorbs\<close>

lemma is_objectE: "is_object x \<Longrightarrow> (\<And>kvs. x = JObject kvs \<Longrightarrow> P) \<Longrightarrow> P"
  by (cases x) auto

lemma is_stringE: "is_string x \<Longrightarrow> (\<And>s. x = JString s \<Longrightarrow> P) \<Longrightarrow> P"
  by (cases x) auto

lemma searchRealPlaces_unconfigured:
  "\<not> configured (GOOGLE_PLACES_API_KEY E) \<Longrightarrow> searchRealPlaces E q c ty w = (Inr (JArray []), w)"
  by (simp add: searchRealPlaces_def resolve_def)

lemma match_table_string: "\<exists>fp. match_table table (JString s) = Inr fp"
  by (auto simp: match_table_def thenDo_def split: option.splits list.splits)

lemma getFallbackPlace_string: "\<exists>fp. getFallbackPlace (JString s) c = Inr fp"
  using match_table_string by (simp add: getFallbackPlace_def Let_def)

lemma getFallbackRestaurant_string: "\<exists>fp. getFallbackRestaurant (JString s) c = Inr fp"
  using match_table_string by (simp add: getFallbackRestaurant_def Let_def)

lemma enhance_activity_sound:
  assumes g: "\<not> configured (GOOGLE_PLACES_API_KEY E)" and s: "sound_activity x"
  shows "\<exists>y. enhance_activity E c x w = (Inr y, w) \<and> plain_activity y"
proof -
  from s obtain kvs where x: "x = JObject kvs" and cost: "is_string (get_opt x ''estimatedCost'')"
    and nm: "name_ok (get_opt (get_opt x ''location'') ''name'')"
    by (auto simp: sound_activity_def plain_activity_def elim: is_objectE)
  let ?loc = "get_opt x ''location''"
  have gl: "get x ''location'' = Inr ?loc" using x by (simp split: option.splits)
  show ?thesis
  proof (cases "truthy (get_opt ?loc ''name'')")
    case False
    then show ?thesis using gl s
      by (simp add: enhance_activity_def andThen_def lift_def resolve_def sound_activity_def)
  next
    case True
    with nm obtain n where n: "get_opt ?loc ''name'' = JString n"
      by (auto simp: name_ok_def elim: is_stringE)
    obtain fp where fp: "getFallbackPlace (JString n) c = Inr fp"
      using getFallbackPlace_string by blast
    show ?thesis
    proof (cases "truthy fp")
      case False
      then show ?thesis using gl s True n fp g
        by (simp add: enhance_activity_def andThen_def lift_def resolve_def sound_activity_def
              searchRealPlaces_unconfigured js_gt_def)
    next
      case t: True
      have "enhance_activity E c x w =
              (Inr (JObject (put_field kvs ''location'' (fallback_location ?loc fp))), w)"
        using gl True n fp g t x
        by (simp add: enhance_activity_def andThen_def lift_def resolve_def
              searchRealPlaces_unconfigured js_gt_def)
      moreover have "plain_activity (JObject (put_field kvs ''location'' (fallback_location ?loc fp)))"
        using cost x by (simp add: plain_activity_def map_of_put_field)
      ultimately show ?thesis by blast
    qed
  qed
qed

lemma enhance_meal_sound:
  assumes g: "\<not> configured (GOOGLE_PLACES_API_KEY E)" and s: "sound_meal x"
  shows "\<exists>y. enhance_meal E c x w = (Inr y, w) \<and> is_object y"
proof -
  from s obtain kvs where x: "x = JObject kvs" and nm: "name_ok (get_opt x ''restaurant'')"
    by (auto simp: sound_meal_def elim: is_objectE)
  have gr: "get x ''restaurant'' = Inr (get_opt x ''restaurant'')"
    using x by (simp split: option.splits)
  show ?thesis
  proof (cases "truthy (get_opt x ''restaurant'')")
    case False
    then show ?thesis using gr x
      by (simp add: enhance_meal_def andThen_def lift_def resolve_def)
  next
    case True
    with nm obtain n where n: "get_opt x ''restaurant'' = JString n"
      by (auto simp: name_ok_def elim: is_stringE)
    obtain fp where fp: "getFallbackRestaurant (JString n) c = Inr fp"
      using getFallbackRestaurant_string by blast
    show ?thesis using gr True n fp g x
      by (cases "truthy fp")
         (simp_all add: enhance_meal_def andThen_def lift_def resolve_def
            searchRealPlaces_unconfigured js_gt_def)
  qed
qed

lemma map_promise_quiet:
  assumes step: "\<And>x w. P x \<Longrightarrow> \<exists>y. step x w = (Inr y, w) \<and> Q y"
  shows "list_all P xs \<Longrightarrow> \<exists>ys. map_promise step xs w = (Inr ys, w) \<and> list_all Q ys"
proof (induction xs)
  case Nil
  then show ?case by (simp add: resolve_def)
next
  case (Cons x xs)
  then obtain ys where ys: "map_promise step xs w = (Inr ys, w)" "list_all Q ys" by auto
  from Cons.prems step[of x w] obtain y where y: "step x w = (Inr y, w)" "Q y" by auto
  show ?case using ys y by (simp add: andThen_def resolve_def)
qed

lemma enhance_list_quiet:
  assumes step: "\<And>x w. P x \<Longrightarrow> \<exists>y. step x w = (Inr y, w) \<and> Q y"
      and d: "is_object day" and a: "is_array (get_opt day key)"
      and l: "list_all P (elements (get_opt day key))" and k: "key \<noteq> ''length''"
  shows "\<exists>day1. enhance_list step key day w = (Inr day1, w) \<and> is_object day1 \<and>
           is_array (get_opt day1 key) \<and> list_all Q (elements (get_opt day1 key)) \<and>
           (\<forall>q. q \<noteq> key \<longrightarrow> get_opt day1 q = get_opt day q)"
proof -
  from d obtain kvs where x: "day = JObject kvs" by (auto elim: is_objectE)
  have g: "get day key = Inr (get_opt day key)" using x by (simp split: option.splits)
  from map_promise_quiet[of P step Q, OF step l] obtain ys where
    ys: "map_promise step (elements (get_opt day key)) w = (Inr ys, w)" "list_all Q ys" by blast
  show ?thesis
  proof (cases "get_opt day key")
    case (JArray xs)
    then have "enhance_list step key day w = (Inr (JObject (put_field kvs key (JArray ys))), w)"
      using g ys x by (simp add: enhance_list_def andThen_def lift_def)
    then show ?thesis using ys x by (simp add: map_of_put_field)
  next
    case (JArrayProps xs ps)
    then have "enhance_list step key day w = (Inr (JObject (put_field kvs key (JArrayProps ys ps))), w)"
      using g ys x by (simp add: enhance_list_def andThen_def lift_def)
    then show ?thesis using ys x by (simp add: map_of_put_field)
  qed (use a in auto)
qed

lemma enhance_day_sound:
  assumes g: "\<not> configured (GOOGLE_PLACES_API_KEY E)" and s: "sound_day d"
  shows "\<exists>d1. enhance_day E c d w = (Inr d1, w) \<and> plain_day d1"
proof -
  have act: "\<And>x w. sound_activity x \<Longrightarrow> \<exists>y. enhance_activity E c x w = (Inr y, w) \<and> plain_activity y"
    using g by (rule enhance_activity_sound)
  have meal: "\<And>x w. sound_meal x \<Longrightarrow> \<exists>y. enhance_meal E c x w = (Inr y, w) \<and> is_object y"
    using g by (rule enhance_meal_sound)
  from s have s0: "is_object d" "is_string (get_opt d ''weather'')"
    "is_array (get_opt d ''morning'')" "list_all sound_activity (elements (get_opt d ''morning''))"
    "is_array (get_opt d ''afternoon'')" "list_all sound_activity (elements (get_opt d ''afternoon''))"
    "is_array (get_opt d ''evening'')" "list_all sound_activity (elements (get_opt d ''evening''))"
    "is_array (get_opt d ''dining'')" "list_all sound_meal (elements (get_opt d ''dining''))"
    by (simp_all add: sound_day_def)
  from enhance_list_quiet[of sound_activity "enhance_activity E c" plain_activity d "''morning''" w,
         OF act s0(1) s0(3) s0(4)]
  obtain d1 where 1: "enhance_list (enhance_activity E c) ''morning'' d w = (Inr d1, w)"
    "is_object d1" "is_array (get_opt d1 ''morning'')"
    "list_all plain_activity (elements (get_opt d1 ''morning''))"
    "\<forall>q. q \<noteq> ''morning'' \<longrightarrow> get_opt d1 q = get_opt d q" by auto
  have a1: "is_array (get_opt d1 ''afternoon'')"
    "list_all sound_activity (elements (get_opt d1 ''afternoon''))"
    using 1(5) s0 by simp_all
  from enhance_list_quiet[of sound_activity "enhance_activity E c" plain_activity d1 "''afternoon''" w,
         OF act 1(2) a1]
  obtain d2 where 2: "enhance_list (enhance_activity E c) ''afternoon'' d1 w = (Inr d2, w)"
    "is_object d2" "is_array (get_opt d2 ''afternoon'')"
    "list_all plain_activity (elements (get_opt d2 ''afternoon''))"
    "\<forall>q. q \<noteq> ''afternoon'' \<longrightarrow> get_opt d2 q = get_opt d1 q" by auto
  have a2: "is_array (get_opt d2 ''evening'')"
    "list_all sound_activity (elements (get_opt d2 ''evening''))"
    using 1(5) 2(5) s0 by simp_all
  from enhance_list_quiet[of sound_activity "enhance_activity E c" plain_activity d2 "''evening''" w,
         OF act 2(2) a2]
  obtain d3 where 3: "enhance_list (enhance_activity E c) ''evening'' d2 w = (Inr d3, w)"
    "is_object d3" "is_array (get_opt d3 ''evening'')"
    "list_all plain_activity (elements (get_opt d3 ''evening''))"
    "\<forall>q. q \<noteq> ''evening'' \<longrightarrow> get_opt d3 q = get_opt d2 q" by auto
  have a3: "is_array (get_opt d3 ''dining'')"
    "list_all sound_meal (elements (get_opt d3 ''dining''))"
    using 1(5) 2(5) 3(5) s0 by simp_all
  from enhance_list_quiet[of sound_meal "enhance_meal E c" is_object d3 "''dining''" w,
         OF meal 3(2) a3]
  obtain d4 where 4: "enhance_list (enhance_meal E c) ''dining'' d3 w = (Inr d4, w)"
    "is_object d4" "is_array (get_opt d4 ''dining'')"
    "list_all is_object (elements (get_opt d4 ''dining''))"
    "\<forall>q. q \<noteq> ''dining'' \<longrightarrow> get_opt d4 q = get_opt d3 q" by auto
  have r: "enhance_day E c d w = (Inr d4, w)"
    using 1(1) 2(1) 3(1) 4(1) by (simp add: enhance_day_def andThen_def)
  have "plain_day d4"
    using 1 2 3 4 s0 by (simp add: plain_day_def)
  with r show ?thesis by blast
qed

lemma fold_result_total:
  assumes "\<And>x acc. P x \<Longrightarrow> \<exists>acc1. f x acc = Inr acc1"
  shows "list_all P xs \<Longrightarrow> \<exists>acc1. fold_result f xs acc = Inr acc1"
proof (induction xs arbitrary: acc)
  case Nil
  then show ?case by simp
next
  case (Cons x xs)
  from Cons.prems assms[of x acc] obtain a1 where "f x acc = Inr a1" by auto
  with Cons show ?case by simp
qed

lemma forEach_opt_array: "is_array x \<Longrightarrow> forEach_opt x = Inr (elements x)"
  by (cases x) auto

lemma forEach_required_array: "is_array x \<Longrightarrow> forEach_required x = Inr (elements x)"
  by (cases x) auto

lemma get_object: "is_object x \<Longrightarrow> get x p = Inr (get_opt x p)"
  by (cases x) (auto split: option.splits)

lemma day_place_names:
  "name_ok (get_opt (get_opt (getDaySpecificPlaces c k) ''morning'') ''name'')"
  "name_ok (get_opt (get_opt (getDaySpecificPlaces c k) ''afternoon'') ''name'')"
  "name_ok (get_opt (get_opt (getDaySpecificPlaces c k) ''evening'') ''name'')"
  by (simp_all add: getDaySpecificPlaces_def Let_def day_places_def place_def eatery_def name_ok_def
        mumbaiDayPlaces_1_def mumbaiDayPlaces_2_def mumbaiDayPlaces_3_def
        delhiDayPlaces_1_def delhiDayPlaces_2_def delhiDayPlaces_3_def
        tokyoDayPlaces_1_def tokyoDayPlaces_2_def tokyoDayPlaces_3_def)

lemma sound_fallback_day: "sound_day (fallback_day E t c k)"
  using day_place_names[of c k]
  by (simp add: sound_day_def fallback_day_def Let_def fallback_activity_def fallback_meal_def
        sound_activity_def plain_activity_def sound_meal_def name_ok_def)

lemma cost_warnings_plain:
  assumes "plain_day d" "period \<in> set [''morning'', ''afternoon'', ''evening'']"
  shows "\<exists>ws1. cost_warnings i d period ws = Inr ws1"
proof -
  from assms have a: "is_array (get_opt d period)"
    "list_all plain_activity (elements (get_opt d period))"
    by (auto simp: plain_day_def)
  have "\<exists>acc1. fold_result
         (\<lambda>activity acc.
            thenDo (get activity ''estimatedCost'') (\<lambda>estimatedCost.
            thenDo (if truthy estimatedCost then js_includes estimatedCost (rupee @ ''200-500'')
                    else Inr False) (\<lambda>generic.
              Inr (if generic
                   then acc @ [''Day '' @ show_nat (i + 1) @ '' '' @ period @
                               '' has generic pricing - should use current rates'']
                   else acc))))
         (elements (get_opt d period)) ws = Inr acc1"
    using _ a(2)
  proof (rule fold_result_total)
    fix x acc
    assume "plain_activity x"
    then obtain s where "is_object x" "get_opt x ''estimatedCost'' = JString s"
      by (auto simp: plain_activity_def elim: is_stringE)
    then show "\<exists>acc1. thenDo (get x ''estimatedCost'') (\<lambda>estimatedCost.
            thenDo (if truthy estimatedCost then js_includes estimatedCost (rupee @ ''200-500'')
                    else Inr False) (\<lambda>generic.
              Inr (if generic
                   then acc @ [''Day '' @ show_nat (i + 1) @ '' '' @ period @
                               '' has generic pricing - should use current rates'']
                   else acc))) = Inr acc1"
      by (simp add: get_object thenDo_def)
  qed
  then show ?thesis using a(1) by (simp add: cost_warnings_def thenDo_def forEach_opt_array)
qed

lemma day_warnings_plain:
  assumes "plain_day d"
  shows "\<exists>ws1. day_warnings E t i d ws = Inr ws1"
proof -
  from assms obtain s where o: "is_object d" and w: "get_opt d ''weather'' = JString s"
    by (auto simp: plain_day_def elim: is_stringE)
  have f: "\<exists>ws1. fold_result (cost_warnings i d) [''morning'', ''afternoon'', ''evening''] ws0 = Inr ws1"
    for ws0
    using _ _
  proof (rule fold_result_total[where P = "\<lambda>p. p \<in> set [''morning'', ''afternoon'', ''evening'']"])
    show "list_all (\<lambda>p. p \<in> set [''morning'', ''afternoon'', ''evening''])
            [''morning'', ''afternoon'', ''evening'']" by simp
  next
    fix x acc
    assume "x \<in> set [''morning'', ''afternoon'', ''evening'']"
    with assms show "\<exists>acc1. cost_warnings i d x acc = Inr acc1" by (rule cost_warnings_plain)
  qed
  show ?thesis using o w f
    by (auto simp: day_warnings_def thenDo_def get_object)
qed

lemma days_warnings_plain:
  "list_all plain_day ds \<Longrightarrow> \<exists>ws1. days_warnings E t i ds ws = Inr ws1"
proof (induction ds arbitrary: i ws)
  case Nil
  then show ?case by simp
next
  case (Cons d ds)
  from Cons.prems day_warnings_plain[of d E t i ws] obtain w1 where
    "day_warnings E t i d ws = Inr w1" by auto
  with Cons show ?case by simp
qed

lemma collect_name_object: "is_object x \<Longrightarrow> \<exists>names1. collect_name x names = Inr names1"
  by (simp add: collect_name_def thenDo_def get_object)

lemma count_placeId_object: "is_object x \<Longrightarrow> \<exists>n1. count_placeId x n = Inr n1"
  by (simp add: count_placeId_def thenDo_def get_object)

lemma plain_activity_object: "list_all plain_activity xs \<Longrightarrow> list_all is_object xs"
  by (induction xs) (simp_all add: plain_activity_def)

lemma collect_day_names_plain:
  assumes "plain_day d"
  shows "\<exists>names1. collect_day_names d names = Inr names1"
proof -
  from assms have o: "is_object d" and m: "is_array (get_opt d ''dining'')"
    "list_all is_object (elements (get_opt d ''dining''))"
    by (simp_all add: plain_day_def)
  have "\<exists>acc1. fold_result
               (\<lambda>period acc.
                  thenDo (get d period) (\<lambda>activities.
                  thenDo (forEach_opt activities) (\<lambda>items. fold_result collect_name items acc)))
               [''morning'', ''afternoon'', ''evening''] names = Inr acc1"
    using _ _
  proof (rule fold_result_total[where P = "\<lambda>p. p \<in> set [''morning'', ''afternoon'', ''evening'']"])
    show "list_all (\<lambda>p. p \<in> set [''morning'', ''afternoon'', ''evening''])
            [''morning'', ''afternoon'', ''evening'']" by simp
  next
    fix x acc
    assume "x \<in> set [''morning'', ''afternoon'', ''evening'']"
    with assms have a: "is_array (get_opt d x)" "list_all is_object (elements (get_opt d x))"
      by (auto simp: plain_day_def intro: plain_activity_object)
    from fold_result_total[of is_object collect_name, OF collect_name_object a(2)]
    obtain acc1 where "fold_result collect_name (elements (get_opt d x)) acc = Inr acc1" by blast
    then show "\<exists>acc1. thenDo (get d x) (\<lambda>activities.
                  thenDo (forEach_opt activities) (\<lambda>items. fold_result collect_name items acc))
               = Inr acc1"
      using o a(1) by (simp add: thenDo_def get_object forEach_opt_array)
  qed
  then obtain n1 where 1: "fold_result
               (\<lambda>period acc.
                  thenDo (get d period) (\<lambda>activities.
                  thenDo (forEach_opt activities) (\<lambda>items. fold_result collect_name items acc)))
               [''morning'', ''afternoon'', ''evening''] names = Inr n1" by blast
  from fold_result_total[of is_object collect_name, OF collect_name_object m(2)]
  obtain n2 where "fold_result collect_name (elements (get_opt d ''dining'')) n1 = Inr n2" by blast
  then show ?thesis using 1 o m(1)
    by (simp add: collect_day_names_def thenDo_def get_object forEach_opt_array)
qed

lemma count_day_plain:
  assumes "plain_day d"
  shows "\<exists>n1. count_day d n = Inr n1"
proof -
  from assms have o: "is_object d" and m: "is_array (get_opt d ''dining'')"
    "list_all is_object (elements (get_opt d ''dining''))"
    by (simp_all add: plain_day_def)
  have "\<exists>acc1. fold_result
               (\<lambda>period acc.
                  thenDo (get d period) (\<lambda>activities.
                  thenDo (forEach_opt activities) (\<lambda>items. fold_result count_placeId items acc)))
               [''morning'', ''afternoon'', ''evening''] n = Inr acc1"
    using _ _
  proof (rule fold_result_total[where P = "\<lambda>p. p \<in> set [''morning'', ''afternoon'', ''evening'']"])
    show "list_all (\<lambda>p. p \<in> set [''morning'', ''afternoon'', ''evening''])
            [''morning'', ''afternoon'', ''evening'']" by simp
  next
    fix x acc
    assume "x \<in> set [''morning'', ''afternoon'', ''evening'']"
    with assms have a: "is_array (get_opt d x)" "list_all is_object (elements (get_opt d x))"
      by (auto simp: plain_day_def intro: plain_activity_object)
    from fold_result_total[of is_object count_placeId, OF count_placeId_object a(2)]
    obtain acc1 where "fold_result count_placeId (elements (get_opt d x)) acc = Inr acc1" by blast
    then show "\<exists>acc1. thenDo (get d x) (\<lambda>activities.
                  thenDo (forEach_opt activities) (\<lambda>items. fold_result count_placeId items acc))
               = Inr acc1"
      using o a(1) by (simp add: thenDo_def get_object forEach_opt_array)
  qed
  then obtain n1 where 1: "fold_result
               (\<lambda>period acc.
                  thenDo (get d period) (\<lambda>activities.
                  thenDo (forEach_opt activities) (\<lambda>items. fold_result count_placeId items acc)))
               [''morning'', ''afternoon'', ''evening''] n = Inr n1" by blast
  from fold_result_total[of is_object count_placeId, OF count_placeId_object m(2)]
  obtain n2 where "fold_result count_placeId (elements (get_opt d ''dining'')) n1 = Inr n2" by blast
  then show ?thesis using 1 o m(1)
    by (simp add: count_day_def thenDo_def get_object forEach_opt_array)
qed

lemma later_steps_plain:
  assumes o: "is_object doc" and d: "get_opt doc ''days'' = JArray ds" and p: "list_all plain_day ds"
  shows "(\<exists>rt. validateRealTimeData E t doc = Inr rt) \<and>
         (\<exists>names. extractLocationNames doc c = Inr names) \<and>
         (\<exists>n. countRealPlaces doc = Inr n)"
proof (intro conjI)
  from days_warnings_plain[OF p, of E t 0 "[]"] obtain ws where
    "days_warnings E t 0 ds [] = Inr ws" by blast
  then show "\<exists>rt. validateRealTimeData E t doc = Inr rt"
    using o d by (simp add: validateRealTimeData_def thenDo_def get_object)
  from fold_result_total[of plain_day collect_day_names, OF collect_day_names_plain p]
  obtain names where "fold_result collect_day_names ds [JString c] = Inr names" by blast
  then show "\<exists>names. extractLocationNames doc c = Inr names"
    using o d by (simp add: extractLocationNames_def thenDo_def get_object)
  from fold_result_total[of plain_day count_day, OF count_day_plain p]
  obtain n where "fold_result count_day ds 0 = Inr n" by blast
  then show "\<exists>n. countRealPlaces doc = Inr n"
    using d by (simp add: countRealPlaces_def thenDo_def)
qed

lemma list_all_sound_fallback_days: "list_all sound_day (map (fallback_day E t c) ks)"
  by (induction ks) (simp_all add: sound_fallback_day)

lemma enhanceWithRealPlaces_sound:
  assumes g: "\<not> configured (GOOGLE_PLACES_API_KEY E)"
      and o: "is_object doc" and d: "get_opt doc ''days'' = JArray ds" and s: "list_all sound_day ds"
  shows "\<exists>doc1 ds1. enhanceWithRealPlaces E doc c w = (Inr doc1, w) \<and> is_object doc1 \<and>
           get_opt doc1 ''days'' = JArray ds1 \<and> list_all plain_day ds1"
proof -
  have step: "\<And>x w. sound_day x \<Longrightarrow> \<exists>y. enhance_day E c x w = (Inr y, w) \<and> plain_day y"
    using g by (rule enhance_day_sound)
  from map_promise_quiet[of sound_day "enhance_day E c" plain_day, OF step s]
  obtain ds1 where m: "map_promise (enhance_day E c) ds w = (Inr ds1, w)" "list_all plain_day ds1"
    by blast
  from o obtain kvs where k: "doc = JObject kvs" by (auto elim: is_objectE)
  have "enhanceWithRealPlaces E doc c w = (Inr (JObject (put_field kvs ''days'' (JArray ds1))), w)"
    using d m(1) k by (simp add: enhanceWithRealPlaces_def andThen_def lift_def)
  then show ?thesis using m(2) by (simp add: map_of_put_field)
qed

text \<open>
  What does hold of the fallback: for a valid request with a credential for the AI
  upstream and no key for the places search, whenever the prompt can be built and the
  block that calls the AI upstream and parses its reply throws (a failed or timed-out
  request on every attempt, an open breaker, a status that is not 2xx, a body or content
  that does not parse), the endpoint answers with status 200.
\<close>

lemma fallback_absorbs_ai_failure:
  assumes valid: "city request \<noteq> []" "budget request \<noteq> []" "1 \<le> days request"
                 "days request \<le> 14"
      and key: "configured (PERPLEXITY_API_KEY E)"
      and google: "\<not> configured (GOOGLE_PLACES_API_KEY E)"
      and prompt: "build_prompt E (city request) (budget request) (days request)
                     (interests request) (includeWeather request) (includeCulturalTips request)
                     (CITY_CONFIGS (toLowerCase (city request))) = Inr prompt"
      and fails: "ai_block E prompt w = (Inl e, w1)"
  shows "http_status (fst (POST E request w)) = 200"
proof -
  let ?c = "city request" and ?b = "budget request" and ?d = "days request"
  let ?cfg = "CITY_CONFIGS (toLowerCase (city request))"
  let ?ds = "map (fallback_day E (now w1) ?c) [1 .. ?d]"
  obtain fb where a: "ai_or_fallback E prompt ?c ?d ?b ?cfg w = (Inr fb, w1)"
    and fo: "is_object fb" and fd: "get_opt fb ''days'' = JArray ?ds"
    and fs: "truthy (get_opt fb ''summary'')"
    using fails
    by (simp add: ai_or_fallback_def catch_def lift_def generateEnhancedFallbackItinerary_def
          map_of_put_field Let_def)
  from fo obtain kvs where k: "fb = JObject kvs" by (auto elim: is_objectE)
  have v: "validateAndEnhanceItinerary E (now w1) fb ?c ?d ?b ?cfg
             = Inr (JObject (put_field kvs ''days'' (JArray ?ds)))"
    using fd fs k
    by (simp add: validateAndEnhanceItinerary_def thenDo_def validate_fallback_days)
  let ?fb1 = "JObject (put_field kvs ''days'' (JArray ?ds))"
  have "is_object ?fb1" "get_opt ?fb1 ''days'' = JArray ?ds" by (simp_all add: map_of_put_field)
  from enhanceWithRealPlaces_sound[OF google this list_all_sound_fallback_days, of ?c w1]
  obtain fb2 ds2 where en: "enhanceWithRealPlaces E ?fb1 ?c w1 = (Inr fb2, w1)"
    and o2: "is_object fb2" and d2: "get_opt fb2 ''days'' = JArray ds2" "list_all plain_day ds2"
    by blast
  from later_steps_plain[OF o2 d2, of E "now w1" ?c] obtain rt names n where
    l: "validateRealTimeData E (now w1) fb2 = Inr rt" "extractLocationNames fb2 ?c = Inr names"
       "countRealPlaces fb2 = Inr n" by blast
  obtain r w2 where "fetchDiverseLocationImages E names (imageSize request) w1 = (r, w2)"
    by (cases "fetchDiverseLocationImages E names (imageSize request) w1")
  with fetchDiverseLocationImages_in_time[OF this] obtain images where
    i: "fetchDiverseLocationImages E names (imageSize request) w1 = (Inr images, w2)" by blast
  have img: "catch (race (fetchDiverseLocationImages E names (imageSize request))
                      TIMEOUTS_IMAGES ''image-fetch'') handler w1 = (Inr images, w2)" for handler
    using i by (simp add: catch_race_fetchDiverseLocationImages)
  have "\<exists>resp. respond_with_ai E (now w) ?c ?b ?d (interests request) (includeWeather request)
          (includeCulturalTips request) (imageSize request) ?cfg w = (Inr resp, w2) \<and>
          http_status resp = 200"
    using prompt a v en l
    by (simp add: respond_with_ai_def andThen_def lift_def resolve_def img)
  then show ?thesis using valid key
    by (auto simp: POST_def handle_def Let_def)
qed

lemma retry_loop_fails:
  assumes fails: "\<And>w. \<exists>e w'. operation w = (Inl e, w')"
  shows "\<exists>e w'. retry_loop operation N b nm k le w = (Inl e, w')"
proof (induction n \<equiv> "N + 1 - k" arbitrary: k le w)
  case 0
  then have "\<not> k \<le> N" by simp
  then show ?case by (subst retry_loop.simps) (simp split: option.splits)
next
  case (Suc n)
  then have k: "k \<le> N" by simp
  obtain e w1 where op: "operation (emit (Attempt nm k N) w) = (Inl e, w1)"
    using fails by blast
  show ?case
  proof (cases "k = N")
    case True
    then show ?thesis using op by (subst retry_loop.simps) simp
  next
    case False
    have "n = N + 1 - (k + 1)" using Suc.hyps(2) by simp
    from Suc.hyps(1)[OF this, of "Some e" "sleep (b * 2 ^ (k - 1)) w1"]
    show ?thesis using op k False by (subst retry_loop.simps) simp
  qed
qed

lemma perplexity_execute_fails:
  assumes "\<And>w. \<exists>e w'. operation w = (Inl e, w')"
  shows "\<exists>e w'. perplexity_execute operation w = (Inl e, w')"
proof -
  obtain e w' where "operation w = (Inl e, w')" using assms by blast
  then show ?thesis
    by (auto simp: perplexity_execute_def execute_def split: sum.splits)
qed

lemma ai_block_down:
  assumes down: "\<forall>n. TIMEOUTS_AI \<le> latency (network E n (PerplexityChat prompt)) \<or>
                      (\<exists>m. settles (network E n (PerplexityChat prompt)) = Inl m)"
  shows "\<exists>e w1. ai_block E prompt w = (Inl e, w1)"
proof -
  have f: "\<exists>e w'. fetchWithTimeout E (PerplexityChat prompt) (Some TIMEOUTS_AI)
                     (Some ''perplexity-api'') w = (Inl e, w')" for w
    using fetchWithTimeout_fails[of TIMEOUTS_AI E w "PerplexityChat prompt" "''perplexity-api''",
            unfolded timer_delay_TIMEOUTS]
          down by blast
  have "\<exists>e w'. perplexity_execute
                  (fetchWithTimeout E (PerplexityChat prompt) (Some TIMEOUTS_AI)
                     (Some ''perplexity-api'')) w = (Inl e, w')" for w
    using f by (rule perplexity_execute_fails)
  then have "\<exists>e w'. perplexity_request E prompt w = (Inl e, w')"
    unfolding perplexity_request_def retryWithBackoff_def by (rule retry_loop_fails)
  then show ?thesis by (auto simp: ai_block_def andThen_def)
qed

lemma build_prompt_own_city:
  assumes "toLowerCase c \<noteq> ''constructor''" "toLowerCase c \<noteq> ''__proto__''"
  shows "\<exists>prompt. build_prompt E c b d i wthr tips (CITY_CONFIGS (toLowerCase c)) = Inr prompt"
  using assms
  by (simp add: build_prompt_def CITY_CONFIGS_def CITY_CONFIGS_mumbai_def CITY_CONFIGS_tokyo_def
        CITY_CONFIGS_delhi_def Let_def thenDo_def)

text \<open>
  In particular, when every request to the AI upstream fails or outlasts its deadline,
  a valid request for a city that is not a name the configuration table inherits is
  answered with status 200.
\<close>

lemma ai_upstream_down_absorbed:
  assumes valid: "city request \<noteq> []" "budget request \<noteq> []" "1 \<le> days request"
                 "days request \<le> 14"
      and own: "toLowerCase (city request) \<noteq> ''constructor''"
               "toLowerCase (city request) \<noteq> ''__proto__''"
      and key: "configured (PERPLEXITY_API_KEY E)"
      and google: "\<not> configured (GOOGLE_PLACES_API_KEY E)"
      and down: "\<forall>prompt n. TIMEOUTS_AI \<le> latency (network E n (PerplexityChat prompt)) \<or>
                   (\<exists>m. settles (network E n (PerplexityChat prompt)) = Inl m)"
  shows "http_status (fst (POST E request w)) = 200"
proof -
  from build_prompt_own_city[OF own] obtain prompt where
    p: "build_prompt E (city request) (budget request) (days request)
          (interests request) (includeWeather request) (includeCulturalTips request)
          (CITY_CONFIGS (toLowerCase (city request))) = Inr prompt" by blast
  from ai_block_down[of E prompt w] down obtain e w1 where
    "ai_block E prompt w = (Inl e, w1)" by blast
  with valid key google p show ?thesis by (rule fallback_absorbs_ai_failure)
qed

end
